(* ===== verification/Prelude.thy ===== *)
theory Prelude
  imports Main "HOL-Library.Code_Target_Nat" "HOL-Library.Char_ord" "HOL-Library.List_Lexorder" "HOL-Library.Word"
begin

text \<open>
  What the components share. A byte (\<open>guint8\<close>, \<open>char\<close>) is a HOL \<open>char\<close>, which has exactly the
  256 values of a C byte; a byte buffer and a C string are lists of them, and a pointer that may
  be \<open>NULL\<close> is an \<open>option\<close>. A \<open>guint\<close> is a \<open>nat\<close> whose bound is written out where the code
  relies on it, a \<open>gint64\<close> an \<open>int\<close> likewise, and a set of bit flags a \<open>32 word\<close>. The GLib
  character classes (ASCII only, independent of the locale) are written from their
  documentation; \<open>g_ascii_isspace\<close> knows space, tab, line feed, form feed and carriage
  return, and not the vertical tab.
\<close>

section \<open>Collections of facts\<close>

named_theorems wf_intros \<open>introduction rules of the well-formedness invariants\<close>
named_theorems flag_simps \<open>rewrites that decide tests of bit flags\<close>

section \<open>Types\<close>

type_synonym byte = char
type_synonym bytes = "char list"
type_synonym flags = "32 word"

abbreviation G_MAXUINT :: nat where "G_MAXUINT \<equiv> 4294967295"
abbreviation G_MAXUINT64 :: nat where "G_MAXUINT64 \<equiv> 18446744073709551615"
abbreviation G_MAXINT :: int where "G_MAXINT \<equiv> 2147483647"
abbreviation G_MAXINT64 :: int where "G_MAXINT64 \<equiv> 9223372036854775807"

abbreviation LF :: byte where "LF \<equiv> CHR 0x0A"
abbreviation TAB :: byte where "TAB \<equiv> CHR 0x09"

section \<open>ASCII character classes\<close>

abbreviation byte_val :: "byte \<Rightarrow> nat" where "byte_val c \<equiv> of_char c"
abbreviation byte_of :: "nat \<Rightarrow> byte" where "byte_of n \<equiv> char_of n"

definition ascii_isdigit :: "byte \<Rightarrow> bool" where
  "ascii_isdigit c \<longleftrightarrow> 48 \<le> byte_val c \<and> byte_val c \<le> 57"

definition ascii_isupper :: "byte \<Rightarrow> bool" where
  "ascii_isupper c \<longleftrightarrow> 65 \<le> byte_val c \<and> byte_val c \<le> 90"

definition ascii_islower :: "byte \<Rightarrow> bool" where
  "ascii_islower c \<longleftrightarrow> 97 \<le> byte_val c \<and> byte_val c \<le> 122"

definition ascii_isalnum :: "byte \<Rightarrow> bool" where
  "ascii_isalnum c \<longleftrightarrow> ascii_isdigit c \<or> ascii_isupper c \<or> ascii_islower c"

definition ascii_isspace :: "byte \<Rightarrow> bool" where
  "ascii_isspace c \<longleftrightarrow> byte_val c \<in> {32, 9, 10, 12, 13}"

definition ascii_tolower :: "byte \<Rightarrow> byte" where
  "ascii_tolower c = (if ascii_isupper c then byte_of (byte_val c + 32) else c)"

lemmas ascii_class_defs =
  ascii_isdigit_def ascii_isupper_def ascii_islower_def ascii_isalnum_def ascii_isspace_def

lemma byte_val_eq_iff: "byte_val a = byte_val b \<longleftrightarrow> a = b"
  by (rule of_char_eq_iff)

lemma byte_eq_of: "byte_val c = n \<Longrightarrow> c = byte_of n"
  by auto

lemma byte_val_less_256 [simp]: "byte_val c < 256"
  by (metis of_char_mod_256 mod_less_divisor zero_less_numeral)

text \<open>\<open>g_ascii_strncasecmp (s, text, n) == 0\<close> for spans of equal length.\<close>

definition ascii_caseless_eq :: "bytes \<Rightarrow> bytes \<Rightarrow> bool" where
  "ascii_caseless_eq a b \<longleftrightarrow> map ascii_tolower a = map ascii_tolower b"

lemma ascii_caseless_eq_refl [simp]: "ascii_caseless_eq a a"
  by (simp add: ascii_caseless_eq_def)

lemma ascii_caseless_eq_sym: "ascii_caseless_eq a b \<Longrightarrow> ascii_caseless_eq b a"
  by (simp add: ascii_caseless_eq_def)

lemma ascii_caseless_eq_trans:
  "ascii_caseless_eq a b \<Longrightarrow> ascii_caseless_eq b c \<Longrightarrow> ascii_caseless_eq a c"
  by (simp add: ascii_caseless_eq_def)

lemma ascii_caseless_eq_length: "ascii_caseless_eq a b \<Longrightarrow> length a = length b"
  unfolding ascii_caseless_eq_def by (metis length_map)

section \<open>Spans of bytes\<close>

text \<open>\<open>trim_span\<close> of \<open>config.c\<close> and \<open>dns_config.c\<close>: the span without its outer white space.\<close>

definition trim_span :: "bytes \<Rightarrow> bytes" where
  "trim_span s = rev (dropWhile ascii_isspace (rev (dropWhile ascii_isspace s)))"

text \<open>A buffer read as a C string ends at its first NUL.\<close>

definition c_string :: "bytes \<Rightarrow> string" where
  "c_string s = takeWhile (\<lambda>c. c \<noteq> CHR 0x00) s"

text \<open>The pieces between separators; one empty piece for the empty span.\<close>

fun split_on :: "'a \<Rightarrow> 'a list \<Rightarrow> 'a list list" where
  "split_on x [] = [[]]"
| "split_on x (c # cs) =
     (if c = x then [] # split_on x cs
      else (case split_on x cs of [] \<Rightarrow> [[c]] | w # ws \<Rightarrow> (c # w) # ws))"

lemma set_trim_span: "set (trim_span s) \<subseteq> set s"
  by (auto simp: trim_span_def dest!: set_dropWhileD)

lemma length_trim_span: "length (trim_span s) \<le> length s"
  unfolding trim_span_def
  by (metis length_dropWhile_le length_rev order_trans)

lemma trim_span_Nil [simp]: "trim_span [] = []"
  by (simp add: trim_span_def)

lemma trim_span_id:
  "s = [] \<or> \<not> ascii_isspace (hd s) \<and> \<not> ascii_isspace (last s) \<Longrightarrow> trim_span s = s"
proof (cases "s = []")
  case False
  assume "s = [] \<or> \<not> ascii_isspace (hd s) \<and> \<not> ascii_isspace (last s)"
  with False have "\<not> ascii_isspace (hd s)" and "\<not> ascii_isspace (hd (rev s))"
    by (simp_all add: hd_rev)
  then have "dropWhile ascii_isspace s = s" and "dropWhile ascii_isspace (rev s) = rev s"
    using False by (simp_all add: dropWhile_eq_self_iff)
  then show ?thesis by (simp add: trim_span_def)
qed simp

lemma trim_span_hd: "trim_span s \<noteq> [] \<Longrightarrow> \<not> ascii_isspace (hd (trim_span s))"
proof -
  assume ne: "trim_span s \<noteq> []"
  let ?d = "dropWhile ascii_isspace s"
  obtain p where p: "?d = trim_span s @ p"
  proof
    show "?d = trim_span s @ rev (takeWhile ascii_isspace (rev ?d))"
      unfolding trim_span_def rev_append [symmetric] takeWhile_dropWhile_id by simp
  qed
  from ne p have "hd ?d = hd (trim_span s)" "?d \<noteq> []" by auto
  then show ?thesis using hd_dropWhile [of ascii_isspace s] by auto
qed

lemma trim_span_last: "trim_span s \<noteq> [] \<Longrightarrow> \<not> ascii_isspace (last (trim_span s))"
  unfolding trim_span_def last_rev by (metis hd_dropWhile rev.simps(1))

lemma trim_span_idem [simp]: "trim_span (trim_span s) = trim_span s"
  by (rule trim_span_id) (auto simp: trim_span_hd trim_span_last)

lemma dropWhile_rest_shorter [termination_simp]:
  "dropWhile P s = c # rest \<Longrightarrow> length rest < length s"
  by (metis length_Cons length_dropWhile_le less_Suc_eq_le not_less_eq)

lemma split_on_not_Nil [simp]: "split_on x s \<noteq> []"
  by (induction s) (auto split: list.splits)

lemma split_on_no_sep: "x \<notin> set s \<Longrightarrow> split_on x s = [s]"
  by (induction s) auto

lemma split_on_append: "x \<notin> set s \<Longrightarrow> split_on x (s @ x # t) = s # split_on x t"
  by (induction s) auto

lemma split_on_unfold:
  "split_on x s =
     (case dropWhile (\<lambda>c. c \<noteq> x) s of
        [] \<Rightarrow> [s]
      | _ # rest \<Rightarrow> takeWhile (\<lambda>c. c \<noteq> x) s # split_on x rest)"
proof (cases "dropWhile (\<lambda>c. c \<noteq> x) s")
  case Nil
  moreover from Nil have "x \<notin> set s" by auto
  then have "split_on x s = [s]" by (rule split_on_no_sep)
  ultimately show ?thesis by (simp only: list.case)
next
  case (Cons c rest)
  then have "c = x" using hd_dropWhile [of "\<lambda>c. c \<noteq> x" s] by simp
  define w where "w = takeWhile (\<lambda>c. c \<noteq> x) s"
  have "w @ dropWhile (\<lambda>c. c \<noteq> x) s = s" unfolding w_def by (rule takeWhile_dropWhile_id)
  then have "s = w @ x # rest" unfolding Cons \<open>c = x\<close> by (rule sym)
  moreover have "x \<notin> set w" unfolding w_def by (auto dest: set_takeWhileD)
  ultimately have "split_on x s = w # split_on x rest" by (simp add: split_on_append)
  with Cons show ?thesis unfolding w_def by simp
qed

lemma split_on_piece: "w \<in> set (split_on x s) \<Longrightarrow> x \<notin> set w"
  by (induction s arbitrary: w) (auto split: list.splits if_splits)

lemma set_split_on: "w \<in> set (split_on x s) \<Longrightarrow> set w \<subseteq> set s"
  by (induction s arbitrary: w) (auto split: list.splits if_splits, fastforce+)

text \<open>\<open>g_strsplit\<close> at one character: the empty string has no pieces at all.\<close>

definition g_strsplit :: "bytes \<Rightarrow> byte \<Rightarrow> bytes list" where
  "g_strsplit s x = (if s = [] then [] else split_on x s)"

lemma c_string_id: "CHR 0x00 \<notin> set s \<Longrightarrow> c_string s = s"
  by (auto simp: c_string_def takeWhile_eq_all_conv)

lemma c_string_no_nul: "CHR 0x00 \<notin> set (c_string s)"
  by (auto simp: c_string_def dest: set_takeWhileD)

section \<open>Looking up by a key\<close>

lemma find_SomeD: "List.find P xs = Some x \<Longrightarrow> x \<in> set xs \<and> P x"
  by (induction xs) (auto split: if_splits)

lemma find_key_iff:
  "distinct (map f xs) \<Longrightarrow> List.find (\<lambda>x. f x = k) xs = Some x \<longleftrightarrow> x \<in> set xs \<and> f x = k"
  by (induction xs) (auto simp: image_iff)

lemma find_None_key: "List.find (\<lambda>x. f x = k) xs = None \<longleftrightarrow> k \<notin> f ` set xs"
  by (auto simp: find_None_iff)

lemma find_key_cong:
  assumes "distinct (map f xs)" "distinct (map f ys)" "set xs = set ys"
  shows "List.find (\<lambda>x. f x = k) xs = List.find (\<lambda>x. f x = k) ys"
proof (cases "List.find (\<lambda>x. f x = k) ys")
  case None
  then have "k \<notin> f ` set xs" using assms(3) by (simp only: find_None_key) simp
  then have "List.find (\<lambda>x. f x = k) xs = None" by (simp only: find_None_key) simp
  with None show ?thesis by simp
next
  case (Some y)
  then have "y \<in> set ys \<and> f y = k" using find_SomeD by fast
  with assms(3) have "List.find (\<lambda>x. f x = k) xs = Some y" using find_key_iff [OF assms(1)] by blast
  with Some show ?thesis by simp
qed

lemma sort_key_unique:
  assumes "inj_on f (set xs)" "distinct xs" "distinct ys" "set xs = set ys"
  shows "sort_key f xs = sort_key f ys"
proof (rule map_sorted_distinct_set_unique [of f])
  show "inj_on f (set (sort_key f xs) \<union> set (sort_key f ys))" using assms by simp
qed (use assms in \<open>auto simp: distinct_map\<close>)

section \<open>Early returns\<close>

text \<open>A chain of steps that each may return early, taken apart once it has returned a value.\<close>

lemma bind_pairE:
  assumes "Option.bind x (case_prod f) = Some y"
  obtains a b where "x = Some (a, b)" "f a b = Some y"
  using assms by (auto simp: bind_eq_Some_conv)

lemma bind_SomeE:
  assumes "Option.bind x f = Some y"
  obtains a where "x = Some a" "f a = Some y"
  using assms by (auto simp: bind_eq_Some_conv)

lemma guard_SomeE:
  assumes "(if c then Some a else None) = Some b"
  obtains "c" "a = b"
  using assms by (auto split: if_splits)

lemma return_SomeE:
  assumes "(if c then None else x) = Some b"
  obtains "\<not> c" "x = Some b"
  using assms by (auto split: if_splits)

lemmas early_returnE = bind_pairE bind_SomeE return_SomeE guard_SomeE

section \<open>Decimal numbers\<close>

text \<open>\<open>%u\<close> of \<open>printf\<close>, and the value of a run of digits before any bound is applied.\<close>

fun uint_text :: "nat \<Rightarrow> bytes" where
  "uint_text n = (if n < 10 then [byte_of (48 + n)] else uint_text (n div 10) @ [byte_of (48 + n mod 10)])"

declare uint_text.simps [simp del]

definition digit_value :: "byte \<Rightarrow> nat" where
  "digit_value c = byte_val c - 48"

definition digits_value :: "nat \<Rightarrow> bytes \<Rightarrow> nat" where
  "digits_value v s = foldl (\<lambda>v c. v * 10 + digit_value c) v s"

lemma digits_value_Nil [simp]: "digits_value v [] = v"
  by (simp add: digits_value_def)

lemma digits_value_Cons [simp]: "digits_value v (c # s) = digits_value (v * 10 + digit_value c) s"
  by (simp add: digits_value_def)

lemma digits_value_snoc: "digits_value v (s @ [c]) = digits_value v s * 10 + digit_value c"
  by (simp add: digits_value_def)

lemma digits_value_mono: "v \<le> digits_value v s"
proof (induction s arbitrary: v)
  case (Cons c s)
  have "v \<le> v * 10 + digit_value c" by simp
  also have "\<dots> \<le> digits_value (v * 10 + digit_value c) s" by (rule Cons.IH)
  finally show ?case by simp
qed simp

lemma digit_byte:
  assumes "d < 10"
  shows "ascii_isdigit (byte_of (48 + d))" and "digit_value (byte_of (48 + d)) = d"
proof -
  have "byte_val (byte_of (48 + d)) = 48 + d" using assms by simp
  then show "ascii_isdigit (byte_of (48 + d))" and "digit_value (byte_of (48 + d)) = d"
    using assms by (simp_all add: ascii_isdigit_def digit_value_def)
qed

lemma digit_byte_of_value: "ascii_isdigit c \<Longrightarrow> byte_of (48 + digit_value c) = c"
  by (simp add: ascii_isdigit_def digit_value_def)

lemma digit_value_less: "ascii_isdigit c \<Longrightarrow> digit_value c < 10"
  unfolding ascii_isdigit_def digit_value_def by linarith

lemma byte_of_48: "byte_of 48 = CHR ''0''"
  by code_simp

lemma digit_value_0D: "ascii_isdigit c \<Longrightarrow> digit_value c = 0 \<Longrightarrow> c = CHR ''0''"
proof -
  assume "ascii_isdigit c" "digit_value c = 0"
  then have "c = byte_of (48 + 0)" using digit_byte_of_value [of c] by simp
  then show ?thesis by (simp only: add_0_right byte_of_48)
qed

lemma uint_text_0: "uint_text 0 = ''0''"
  by (simp only: uint_text.simps [of 0] byte_of_48 add_0_right) simp

lemma uint_text_not_Nil [simp]: "uint_text n \<noteq> []"
  by (subst uint_text.simps) simp

lemma uint_text_digits: "list_all ascii_isdigit (uint_text n)"
proof (induction n rule: uint_text.induct)
  case (1 n)
  then show ?case by (subst uint_text.simps) (simp add: digit_byte)
qed

lemma digits_value_uint_text [simp]: "digits_value 0 (uint_text n) = n"
proof (induction n rule: uint_text.induct)
  case (1 n)
  then show ?case by (subst uint_text.simps) (simp add: digit_byte digits_value_snoc)
qed

lemma uint_text_hd: "n \<noteq> 0 \<Longrightarrow> hd (uint_text n) \<noteq> CHR ''0''"
proof (induction n rule: uint_text.induct)
  case (1 n)
  show ?case
  proof (cases "n < 10")
    case True
    then have "digit_value (byte_of (48 + n)) \<noteq> digit_value (CHR ''0'')"
      using digit_byte(2) [of n] 1(2) by (simp add: digit_value_def)
    then show ?thesis using True by (subst uint_text.simps) auto
  next
    case False
    then have "n div 10 \<noteq> 0" by simp
    with 1(1) False show ?thesis by (subst uint_text.simps) simp
  qed
qed

lemma uint_text_value:
  assumes "list_all ascii_isdigit s" "s \<noteq> []" "hd s \<noteq> CHR ''0'' \<or> s = ''0''"
  shows "uint_text (digits_value 0 s) = s"
  using assms
proof (induction s rule: rev_induct)
  case (snoc c s)
  have d: "ascii_isdigit c" "digit_value c < 10" using snoc.prems(1) digit_value_less by auto
  show ?case
  proof (cases "s = []")
    case True
    with d show ?thesis by (subst uint_text.simps) (simp add: digit_byte_of_value)
  next
    case False
    with snoc.prems(3) have h: "hd s \<noteq> CHR ''0''" by auto
    with snoc False have ih: "uint_text (digits_value 0 s) = s" by simp
    have "digits_value 0 s \<noteq> 0"
    proof
      assume "digits_value 0 s = 0"
      with ih have "s = uint_text 0" by simp
      then have "s = ''0''" by (simp only: uint_text.simps [of 0] byte_of_48 add_0_right) simp
      with h show False by simp
    qed
    then have "\<not> digits_value 0 (s @ [c]) < 10" "digits_value 0 (s @ [c]) div 10 = digits_value 0 s"
      "digits_value 0 (s @ [c]) mod 10 = digit_value c"
      using d by (simp_all add: digits_value_snoc)
    with ih d show ?thesis by (subst uint_text.simps) (simp add: digit_byte_of_value)
  qed
qed simp

lemma uint_text_length:
  assumes "n < 10 ^ k" "0 < k"
  shows "length (uint_text n) \<le> k"
  using assms
proof (induction n arbitrary: k rule: uint_text.induct)
  case (1 n)
  show ?case
  proof (cases "n < 10")
    case True
    with 1(3) show ?thesis by (subst uint_text.simps) simp
  next
    case False
    with 1(2,3) obtain j where k: "k = Suc j" "0 < j"
      by (cases k; cases "k - 1"; auto)
    with 1(2) have "n div 10 < 10 ^ j" by simp
    with 1(1) False k show ?thesis by (subst uint_text.simps) (simp add: less_mult_imp_div_less)
  qed
qed

end
