(* ===== verification/Names.thy ===== *)
theory Names
  imports Prelude
begin

text \<open>
  The public vocabulary of \<open>amneziawg/amneziawg.h\<close> and \<open>amneziawg/amneziawg.c\<close>: interface
  names, saved-profile statuses, the helper's exit statuses, link tokens, link observations, and
  the derivation of an interface name from the name of an imported file.
  \<open>g_path_get_basename\<close> is GLib's and is an argument of \<open>interface_from_filename\<close>.
\<close>

section \<open>Constants and enumerations\<close>

definition max_interface_length :: nat where "max_interface_length = 15"
definition link_token_length :: nat where "link_token_length = 32"
definition max_config_size :: nat where "max_config_size = 1024 * 1024"
definition report_max_records :: nat where "report_max_records = 256"
definition report_max_size :: nat where "report_max_size = 8192"
definition report_version :: nat where "report_version = 1"
definition report_magic :: string where "report_magic = ''NM-SIDEBAR-AWG-PROFILES''"

datatype profile_status =
  PROFILE_AVAILABLE
| PROFILE_FILE_SECURITY
| PROFILE_INVALID_CONFIGURATION
| PROFILE_INCOMPATIBLE_CONFIGURATION
| PROFILE_CHANGED_OR_UNREADABLE

fun profile_status_code :: "profile_status \<Rightarrow> nat" where
  "profile_status_code PROFILE_AVAILABLE = 0"
| "profile_status_code PROFILE_FILE_SECURITY = 1"
| "profile_status_code PROFILE_INVALID_CONFIGURATION = 2"
| "profile_status_code PROFILE_INCOMPATIBLE_CONFIGURATION = 3"
| "profile_status_code PROFILE_CHANGED_OR_UNREADABLE = 4"

text \<open>Storing a checked \<open>guint\<close> into a field of the enumeration.\<close>

definition profile_status_of :: "nat \<Rightarrow> profile_status" where
  "profile_status_of n =
     (if n = 0 then PROFILE_AVAILABLE else if n = 1 then PROFILE_FILE_SECURITY
      else if n = 2 then PROFILE_INVALID_CONFIGURATION
      else if n = 3 then PROFILE_INCOMPATIBLE_CONFIGURATION
      else PROFILE_CHANGED_OR_UNREADABLE)"

datatype helper_exit =
  HELPER_SUCCESS | HELPER_USAGE | HELPER_NOT_ROOT | HELPER_INVALID_NAME | HELPER_INPUT_TOO_LARGE
| HELPER_INVALID_CONFIG | HELPER_REPLACE_CONFIRMATION_REQUIRED | HELPER_NOT_FOUND | HELPER_ACTIVE
| HELPER_INTERFACE_CONFLICT | HELPER_AWG_QUICK_UNAVAILABLE | HELPER_AWG_QUICK_FAILED
| HELPER_FILESYSTEM_FAILED | HELPER_RUNTIME_FAILED | HELPER_ROLLBACK_FAILED | HELPER_INPUT_FAILED
| HELPER_CHILD_SETUP_FAILED | HELPER_INTERFACE_CREATION_FAILED | HELPER_USERSPACE_FAILED
| HELPER_SETCONF_FAILED | HELPER_ADDRESS_FAILED | HELPER_MTU_FAILED | HELPER_DNS_FAILED
| HELPER_ROUTE_FAILED | HELPER_FIREWALL_FAILED | HELPER_CHILD_SIGNALED
| HELPER_DNS_BACKEND_UNAVAILABLE | HELPER_DNS_APPLY_FAILED | HELPER_DNS_REVERT_FAILED
| HELPER_DNS_ROLLBACK_FAILED | HELPER_INVENTORY_PARTIAL | HELPER_TIMED_OUT
| HELPER_FIREWALL_CLEANUP_FAILED | HELPER_SWITCH_CLEANUP_FAILED

fun helper_exit_code :: "helper_exit \<Rightarrow> nat" where
  "helper_exit_code HELPER_SUCCESS = 0"
| "helper_exit_code HELPER_USAGE = 2"
| "helper_exit_code HELPER_NOT_ROOT = 3"
| "helper_exit_code HELPER_INVALID_NAME = 4"
| "helper_exit_code HELPER_INPUT_TOO_LARGE = 5"
| "helper_exit_code HELPER_INVALID_CONFIG = 6"
| "helper_exit_code HELPER_REPLACE_CONFIRMATION_REQUIRED = 7"
| "helper_exit_code HELPER_NOT_FOUND = 8"
| "helper_exit_code HELPER_ACTIVE = 9"
| "helper_exit_code HELPER_INTERFACE_CONFLICT = 10"
| "helper_exit_code HELPER_AWG_QUICK_UNAVAILABLE = 11"
| "helper_exit_code HELPER_AWG_QUICK_FAILED = 12"
| "helper_exit_code HELPER_FILESYSTEM_FAILED = 13"
| "helper_exit_code HELPER_RUNTIME_FAILED = 14"
| "helper_exit_code HELPER_ROLLBACK_FAILED = 15"
| "helper_exit_code HELPER_INPUT_FAILED = 16"
| "helper_exit_code HELPER_CHILD_SETUP_FAILED = 17"
| "helper_exit_code HELPER_INTERFACE_CREATION_FAILED = 18"
| "helper_exit_code HELPER_USERSPACE_FAILED = 19"
| "helper_exit_code HELPER_SETCONF_FAILED = 20"
| "helper_exit_code HELPER_ADDRESS_FAILED = 21"
| "helper_exit_code HELPER_MTU_FAILED = 22"
| "helper_exit_code HELPER_DNS_FAILED = 23"
| "helper_exit_code HELPER_ROUTE_FAILED = 24"
| "helper_exit_code HELPER_FIREWALL_FAILED = 25"
| "helper_exit_code HELPER_CHILD_SIGNALED = 26"
| "helper_exit_code HELPER_DNS_BACKEND_UNAVAILABLE = 27"
| "helper_exit_code HELPER_DNS_APPLY_FAILED = 28"
| "helper_exit_code HELPER_DNS_REVERT_FAILED = 29"
| "helper_exit_code HELPER_DNS_ROLLBACK_FAILED = 30"
| "helper_exit_code HELPER_INVENTORY_PARTIAL = 31"
| "helper_exit_code HELPER_TIMED_OUT = 32"
| "helper_exit_code HELPER_FIREWALL_CLEANUP_FAILED = 33"
| "helper_exit_code HELPER_SWITCH_CLEANUP_FAILED = 34"

record link_observation =
  named_exists :: bool
  named_ifindex :: nat
  token_matches :: nat
  token_ifindex :: nat
  token_has_expected_name :: bool
  token_ifname :: string

section \<open>Validation\<close>

definition name_tail_char :: "byte \<Rightarrow> bool" where
  "name_tail_char c \<longleftrightarrow> ascii_isalnum c \<or> c = CHR ''_'' \<or> c = CHR ''-'' \<or> c = CHR ''.''"

definition name_is_valid :: "string option \<Rightarrow> bool" where
  "name_is_valid name =
     (case name of None \<Rightarrow> False
      | Some s \<Rightarrow>
          (if length s = 0 \<or> length s > max_interface_length then False
           else if \<not> ascii_isalnum (s ! 0) then False
           else list_all name_tail_char (drop 1 s)))"

definition profile_status_is_valid :: "nat \<Rightarrow> bool" where
  "profile_status_is_valid n \<longleftrightarrow> n \<le> profile_status_code PROFILE_CHANGED_OR_UNREADABLE"

definition profile_status_allows_removal :: "profile_status \<Rightarrow> bool" where
  "profile_status_allows_removal s \<longleftrightarrow>
     s = PROFILE_AVAILABLE \<or> s = PROFILE_INVALID_CONFIGURATION \<or>
     s = PROFILE_INCOMPATIBLE_CONFIGURATION"

definition helper_exit_is_valid :: "nat \<Rightarrow> bool" where
  "helper_exit_is_valid n \<longleftrightarrow>
     n \<in> set (map helper_exit_code
       [HELPER_SUCCESS, HELPER_USAGE, HELPER_NOT_ROOT, HELPER_INVALID_NAME,
        HELPER_INPUT_TOO_LARGE, HELPER_INVALID_CONFIG, HELPER_REPLACE_CONFIRMATION_REQUIRED,
        HELPER_NOT_FOUND, HELPER_ACTIVE, HELPER_INTERFACE_CONFLICT,
        HELPER_AWG_QUICK_UNAVAILABLE, HELPER_AWG_QUICK_FAILED, HELPER_FILESYSTEM_FAILED,
        HELPER_RUNTIME_FAILED, HELPER_ROLLBACK_FAILED, HELPER_INPUT_FAILED,
        HELPER_CHILD_SETUP_FAILED, HELPER_INTERFACE_CREATION_FAILED, HELPER_USERSPACE_FAILED,
        HELPER_SETCONF_FAILED, HELPER_ADDRESS_FAILED, HELPER_MTU_FAILED, HELPER_DNS_FAILED,
        HELPER_ROUTE_FAILED, HELPER_FIREWALL_FAILED, HELPER_CHILD_SIGNALED,
        HELPER_DNS_BACKEND_UNAVAILABLE, HELPER_DNS_APPLY_FAILED, HELPER_DNS_REVERT_FAILED,
        HELPER_DNS_ROLLBACK_FAILED, HELPER_INVENTORY_PARTIAL, HELPER_TIMED_OUT,
        HELPER_FIREWALL_CLEANUP_FAILED, HELPER_SWITCH_CLEANUP_FAILED])"

definition link_token_is_valid :: "string option \<Rightarrow> bool" where
  "link_token_is_valid token =
     (case token of None \<Rightarrow> False
      | Some t \<Rightarrow> length t = link_token_length \<and>
          list_all (\<lambda>c. ascii_isdigit c \<or> \<not> (c < CHR ''a'' \<or> CHR ''f'' < c)) t)"

section \<open>Interface names from file names\<close>

text \<open>One turn of the loop over the stem: the normalized name so far and the pending separator.\<close>

fun normalize_step :: "string \<times> bool \<Rightarrow> byte \<Rightarrow> string \<times> bool" where
  "normalize_step (out, pending) c =
     (if ascii_isalnum c then
        (let out' = (if pending \<and> length out > 0 \<and> length out + 1 < max_interface_length
                     then out @ [CHR ''-''] else out)
         in (if length out' < max_interface_length then out' @ [c] else out', False))
      else if (c = CHR ''_'' \<or> c = CHR ''-'' \<or> c = CHR ''.'') \<and> length out > 0 then
        (if length out < max_interface_length then out @ [c] else out, False)
      else if length out > 0 then (out, True)
      else (out, pending))"

definition strip_conf_suffix :: "string \<Rightarrow> string" where
  "strip_conf_suffix b =
     (if length b \<ge> 5 \<and> ascii_caseless_eq (drop (length b - 5) b) ''.conf''
      then take (length b - 5) b else b)"

definition interface_from_filename :: "(string \<Rightarrow> string) \<Rightarrow> string option \<Rightarrow> string option" where
  "interface_from_filename path_get_basename filename =
     (case filename of None \<Rightarrow> None
      | Some f \<Rightarrow>
          (if f = [] then None
           else let stem = strip_conf_suffix (path_get_basename f);
                    normalized = fst (foldl normalize_step ([], False) stem)
                in if length normalized = 0 then None else Some normalized))"

section \<open>Correctness\<close>

lemma profile_status_of_code [simp]: "profile_status_of (profile_status_code s) = s"
  by (cases s) (simp_all add: profile_status_of_def)

lemma profile_status_code_of:
  "profile_status_is_valid n \<Longrightarrow> profile_status_code (profile_status_of n) = n"
  by (auto simp: profile_status_is_valid_def profile_status_of_def)

lemma profile_status_code_valid [simp]: "profile_status_is_valid (profile_status_code s)"
  by (cases s) (simp_all add: profile_status_is_valid_def)

lemma profile_status_code_eq [simp]:
  "profile_status_code s = profile_status_code t \<longleftrightarrow> s = t"
  by (metis profile_status_of_code)

lemma helper_exit_code_inj: "helper_exit_code a = helper_exit_code b \<Longrightarrow> a = b"
  by (cases a; cases b) simp_all

lemma name_is_valid_Some:
  "name_is_valid (Some s) \<longleftrightarrow>
     s \<noteq> [] \<and> length s \<le> 15 \<and> ascii_isalnum (hd s) \<and> list_all name_tail_char (tl s)"
  by (cases s) (auto simp: name_is_valid_def max_interface_length_def)

lemma name_is_valid_None [simp]: "\<not> name_is_valid None"
  by (simp add: name_is_valid_def)

lemma name_is_valid_chars: "name_is_valid (Some s) \<Longrightarrow> list_all name_tail_char s"
  by (cases s) (auto simp: name_is_valid_Some name_tail_char_def)

lemma name_tail_char_alnum [simp]: "ascii_isalnum c \<Longrightarrow> name_tail_char c"
  by (simp add: name_tail_char_def)

text \<open>The loop invariant of the normalization: what has been written is empty or a valid name.\<close>

definition partial_name :: "string \<Rightarrow> bool" where
  "partial_name out \<longleftrightarrow> out = [] \<or> name_is_valid (Some out)"

lemma partial_name_append:
  "partial_name out \<Longrightarrow> length out + length cs \<le> 15 \<Longrightarrow> list_all name_tail_char cs \<Longrightarrow>
   out \<noteq> [] \<or> ascii_isalnum (hd cs) \<Longrightarrow> partial_name (out @ cs)"
  by (cases out; cases cs) (auto simp: partial_name_def name_is_valid_Some)

lemma partial_name_single: "ascii_isalnum c \<Longrightarrow> partial_name [c]"
  by (simp add: partial_name_def name_is_valid_Some)

lemma normalize_step_partial_name:
  "partial_name (fst st) \<Longrightarrow> partial_name (fst (normalize_step st c))"
  by (cases st)
    (auto simp: Let_def max_interface_length_def name_tail_char_def
      intro!: partial_name_append partial_name_single)

lemma normalize_fold_partial_name:
  "partial_name (fst st) \<Longrightarrow> partial_name (fst (foldl normalize_step st cs))"
  by (induction cs arbitrary: st) (simp_all add: normalize_step_partial_name)

text \<open>A stem that is already a valid name is copied unchanged.\<close>

lemma normalize_step_keeps:
  assumes "name_tail_char c" and "length out < 15" and "out \<noteq> [] \<or> ascii_isalnum c"
  shows "normalize_step (out, False) c = (out @ [c], False)"
  using assms by (auto simp: name_tail_char_def max_interface_length_def Let_def)

lemma normalize_fold_keeps:
  "list_all name_tail_char cs \<Longrightarrow> length out + length cs \<le> 15 \<Longrightarrow>
   cs = [] \<or> out \<noteq> [] \<or> ascii_isalnum (hd cs) \<Longrightarrow>
   foldl normalize_step (out, False) cs = (out @ cs, False)"
proof (induction cs arbitrary: out)
  case Nil
  then show ?case by simp
next
  case (Cons c cs)
  then have "normalize_step (out, False) c = (out @ [c], False)"
    by (intro normalize_step_keeps) auto
  moreover have "foldl normalize_step (out @ [c], False) cs = ((out @ [c]) @ cs, False)"
    using Cons.prems by (intro Cons.IH) auto
  ultimately show ?case by (simp del: normalize_step.simps)
qed

lemma normalize_valid_name:
  "name_is_valid (Some n) \<Longrightarrow> foldl normalize_step ([], False) n = (n, False)"
  using normalize_fold_keeps [of n "[]"] name_is_valid_chars [of n]
  by (simp add: name_is_valid_Some)

lemma strip_conf_suffix_append: "strip_conf_suffix (n @ ''.conf'') = n"
  by (simp add: strip_conf_suffix_def)


lemma interface_from_filename_valid:
  assumes "interface_from_filename path_get_basename filename = Some n"
  shows "name_is_valid (Some n)"
proof -
  from assms obtain stem where n: "n = fst (foldl normalize_step ([], False) stem)"
    and ne: "n \<noteq> []"
    by (auto simp: interface_from_filename_def Let_def split: option.splits if_splits)
  have "partial_name n"
    unfolding n by (rule normalize_fold_partial_name) (simp add: partial_name_def)
  with ne show ?thesis by (simp add: partial_name_def)
qed

lemma interface_from_filename_roundtrip:
  assumes "name_is_valid (Some n)" and "path_get_basename f = n @ ''.conf''" and "f \<noteq> []"
  shows "interface_from_filename path_get_basename (Some f) = Some n"
  using assms
  by (simp add: interface_from_filename_def Let_def strip_conf_suffix_append
      normalize_valid_name name_is_valid_Some del: append_assoc)

text \<open>The helper's exit statuses are exactly 0 and 2 to 34: one per member of the enumeration.\<close>

lemma helper_exit_is_valid_iff: "helper_exit_is_valid n \<longleftrightarrow> (\<exists>e. n = helper_exit_code e)"
proof
  assume "helper_exit_is_valid n"
  then show "\<exists>e. n = helper_exit_code e"
    unfolding helper_exit_is_valid_def by (auto simp del: helper_exit_code.simps list.map)
next
  assume "\<exists>e. n = helper_exit_code e"
  then obtain e where "n = helper_exit_code e" ..
  then show "helper_exit_is_valid n"
    by (cases e) (simp_all add: helper_exit_is_valid_def)
qed

end
