(* ===== verification/Deadline.thy ===== *)
theory Deadline
  imports Names
begin

text \<open>
  Operation budgets and deadlines (\<open>amneziawg/deadline.c\<close>). Times are \<open>gint64\<close>
  milliseconds, kept as integers with the overflow tests of the code written out; durations are
  \<open>guint\<close>. An operation is the verb sent over the bus, \<open>None\<close> for \<open>NULL\<close>.
\<close>

section \<open>Operations and budgets\<close>

definition OP_IMPORT :: string where "OP_IMPORT = ''import''"
definition OP_REPLACE :: string where "OP_REPLACE = ''replace''"
definition OP_UP :: string where "OP_UP = ''up''"
definition OP_DOWN :: string where "OP_DOWN = ''down''"
definition OP_DELETE :: string where "OP_DELETE = ''delete''"
definition OP_LIST_PROFILES :: string where "OP_LIST_PROFILES = ''list-profiles''"

lemmas op_defs = OP_IMPORT_def OP_REPLACE_def OP_UP_def OP_DOWN_def OP_DELETE_def
  OP_LIST_PROFILES_def

definition IMPORT_FORWARD_TIMEOUT_MSEC :: nat where "IMPORT_FORWARD_TIMEOUT_MSEC = 30 * 1000"
definition DELETE_PROFILE_TIMEOUT_MSEC :: nat where "DELETE_PROFILE_TIMEOUT_MSEC = 15 * 1000"
definition LIST_FORWARD_TIMEOUT_MSEC :: nat where "LIST_FORWARD_TIMEOUT_MSEC = 120 * 1000"
definition TUNNEL_FORWARD_TIMEOUT_MSEC :: nat where "TUNNEL_FORWARD_TIMEOUT_MSEC = 180 * 1000"
definition SWITCH_FORWARD_TIMEOUT_MSEC :: nat where "SWITCH_FORWARD_TIMEOUT_MSEC = 360 * 1000"
definition TUNNEL_CLEANUP_RESERVE_MSEC :: nat where "TUNNEL_CLEANUP_RESERVE_MSEC = 150 * 1000"
definition HARD_ENFORCEMENT_TIMEOUT_MSEC :: nat where "HARD_ENFORCEMENT_TIMEOUT_MSEC = 5 * 1000"
definition CLIENT_TIMEOUT_MARGIN_MSEC :: nat where "CLIENT_TIMEOUT_MARGIN_MSEC = 20 * 1000"
definition PREEMPT_TIMEOUT_MSEC :: nat where "PREEMPT_TIMEOUT_MSEC = 5000"

lemmas timeout_defs =
  IMPORT_FORWARD_TIMEOUT_MSEC_def DELETE_PROFILE_TIMEOUT_MSEC_def LIST_FORWARD_TIMEOUT_MSEC_def
  TUNNEL_FORWARD_TIMEOUT_MSEC_def SWITCH_FORWARD_TIMEOUT_MSEC_def
  TUNNEL_CLEANUP_RESERVE_MSEC_def HARD_ENFORCEMENT_TIMEOUT_MSEC_def
  CLIENT_TIMEOUT_MARGIN_MSEC_def PREEMPT_TIMEOUT_MSEC_def

definition checked_add_msec :: "int \<Rightarrow> nat \<Rightarrow> int option" where
  "checked_add_msec start duration =
     (if start < 0 \<or> start > G_MAXINT64 - int duration then None else Some (start + int duration))"

text \<open>The forward and the cleanup budget of an operation; \<open>None\<close> for an unknown verb.\<close>

definition operation_budgets :: "string option \<Rightarrow> (nat \<times> nat) option" where
  "operation_budgets operation =
     (if operation = Some OP_IMPORT \<or> operation = Some OP_REPLACE then
        Some (IMPORT_FORWARD_TIMEOUT_MSEC, 0)
      else if operation = Some OP_DELETE then
        Some (TUNNEL_FORWARD_TIMEOUT_MSEC + DELETE_PROFILE_TIMEOUT_MSEC,
              TUNNEL_CLEANUP_RESERVE_MSEC)
      else if operation = Some OP_LIST_PROFILES then Some (LIST_FORWARD_TIMEOUT_MSEC, 0)
      else if operation = Some OP_UP then
        Some (SWITCH_FORWARD_TIMEOUT_MSEC, TUNNEL_CLEANUP_RESERVE_MSEC)
      else if operation = Some OP_DOWN then
        Some (TUNNEL_FORWARD_TIMEOUT_MSEC, TUNNEL_CLEANUP_RESERVE_MSEC)
      else None)"

record deadlines =
  forward_at :: int
  cleanup_at :: int
  hard_at :: int

definition deadlines_init :: "string option \<Rightarrow> int \<Rightarrow> deadlines option" where
  "deadlines_init operation start_msec =
     (case operation_budgets operation of None \<Rightarrow> None
      | Some (forward_msec, cleanup_msec) \<Rightarrow>
        (case checked_add_msec start_msec forward_msec of None \<Rightarrow> None
         | Some f \<Rightarrow>
           (case checked_add_msec f cleanup_msec of None \<Rightarrow> None
            | Some c \<Rightarrow>
              (case checked_add_msec c HARD_ENFORCEMENT_TIMEOUT_MSEC of None \<Rightarrow> None
               | Some h \<Rightarrow> Some \<lparr>forward_at = f, cleanup_at = c, hard_at = h\<rparr>))))"

definition deadline_cap :: "int \<Rightarrow> int \<Rightarrow> nat \<Rightarrow> int" where
  "deadline_cap now_msec outer_deadline_msec local_budget_msec =
     (if now_msec < 0 \<or> outer_deadline_msec < 0 \<or> now_msec \<ge> outer_deadline_msec
      then outer_deadline_msec
      else (case checked_add_msec now_msec local_budget_msec of
              None \<Rightarrow> outer_deadline_msec
            | Some local_deadline \<Rightarrow> min local_deadline outer_deadline_msec))"

definition deadline_remaining_msec :: "int \<Rightarrow> int \<Rightarrow> nat \<Rightarrow> int" where
  "deadline_remaining_msec now_msec deadline_msec maximum_msec =
     (if now_msec < 0 \<or> deadline_msec \<le> now_msec \<or> maximum_msec = 0 then 0
      else min (min (deadline_msec - now_msec) (int maximum_msec)) G_MAXINT)"

definition service_timeout_msec :: "string option \<Rightarrow> nat" where
  "service_timeout_msec operation =
     (case deadlines_init operation 0 of
        Some d \<Rightarrow> nat (hard_at d mod 2 ^ 32)
      | None \<Rightarrow> 0)"

definition client_timeout_msec :: "string option \<Rightarrow> nat" where
  "client_timeout_msec operation =
     (let service_timeout = service_timeout_msec operation;
          margin = (if operation \<noteq> Some OP_LIST_PROFILES
                    then CLIENT_TIMEOUT_MARGIN_MSEC + PREEMPT_TIMEOUT_MSEC
                    else CLIENT_TIMEOUT_MARGIN_MSEC)
      in if service_timeout = 0 \<or> service_timeout > G_MAXUINT - margin then 0
         else service_timeout + margin)"

section \<open>Properties\<close>

lemma checked_add_msec_Some:
  "checked_add_msec s d = Some r \<longleftrightarrow> 0 \<le> s \<and> s + int d \<le> G_MAXINT64 \<and> r = s + int d"
  by (auto simp: checked_add_msec_def)

lemma checked_add_msec_None:
  "checked_add_msec s d = None \<longleftrightarrow> s < 0 \<or> s + int d > G_MAXINT64"
  by (auto simp: checked_add_msec_def)

lemma operation_budgets_forward_pos: "operation_budgets opn = Some (f, c) \<Longrightarrow> 0 < f"
  by (auto simp: operation_budgets_def timeout_defs split: if_splits)

lemma operation_budgets_bound:
  "operation_budgets opn = Some (f, c) \<Longrightarrow> f + c \<le> 510000"
  by (auto simp: operation_budgets_def timeout_defs split: if_splits)

lemma deadlines_init_Some:
  "deadlines_init opn start = Some d \<longleftrightarrow>
     (\<exists>f c. operation_budgets opn = Some (f, c) \<and> 0 \<le> start \<and>
        start + int f + int c + 5000 \<le> G_MAXINT64 \<and>
        d = \<lparr>forward_at = start + int f, cleanup_at = start + int f + int c,
             hard_at = start + int f + int c + 5000\<rparr>)"
  by (auto simp: deadlines_init_def checked_add_msec_Some checked_add_msec_None
      HARD_ENFORCEMENT_TIMEOUT_MSEC_def split: option.splits)

text \<open>
  C33. The three deadlines of an operation come in order, all after its start, none past the
  largest \<open>gint64\<close>, with the hard limit five seconds after the cleanup deadline; and the only
  ways to get none are an unknown operation, a negative clock or a sum that would overflow.
\<close>

theorem deadlines_ordered:
  "case deadlines_init opn start of
     Some d \<Rightarrow> 0 \<le> start \<and> start < forward_at d \<and> forward_at d \<le> cleanup_at d \<and>
       hard_at d = cleanup_at d + 5000 \<and> hard_at d \<le> G_MAXINT64
   | None \<Rightarrow> operation_budgets opn = None \<or> start < 0 \<or> start > G_MAXINT64 - 515000"
proof (cases "deadlines_init opn start")
  case (Some d)
  then obtain f c where "operation_budgets opn = Some (f, c)"
    and "0 \<le> start" and "start + int f + int c + 5000 \<le> G_MAXINT64"
    and "d = \<lparr>forward_at = start + int f, cleanup_at = start + int f + int c,
             hard_at = start + int f + int c + 5000\<rparr>"
    by (auto simp: deadlines_init_Some)
  with Some operation_budgets_forward_pos [of opn f c] show ?thesis by simp
next
  case None
  have "start > G_MAXINT64 - 515000" if b: "operation_budgets opn = Some (f, c)" and "0 \<le> start"
    for f c
  proof (rule ccontr)
    assume "\<not> start > G_MAXINT64 - 515000"
    with operation_budgets_bound [OF b] have "start + int f + int c + 5000 \<le> G_MAXINT64" by simp
    with that have "deadlines_init opn start \<noteq> None"
      using deadlines_init_Some [of opn start] by auto
    with None show False by simp
  qed
  with None show ?thesis by (cases "operation_budgets opn") force+
qed

lemma deadline_cap_bounds:
  "deadline_cap now outer b \<le> outer \<and>
   (0 \<le> now \<and> now < outer \<longrightarrow>
      now \<le> deadline_cap now outer b \<and>
      (outer \<le> G_MAXINT64 \<longrightarrow> deadline_cap now outer b = min (now + int b) outer))"
  by (auto simp: deadline_cap_def checked_add_msec_Some checked_add_msec_None min_def
      split: option.splits)

lemma deadline_remaining_pos_iff:
  "0 < deadline_remaining_msec now deadline maximum \<longleftrightarrow>
     0 \<le> now \<and> now < deadline \<and> 0 < maximum"
  by (auto simp: deadline_remaining_msec_def)

lemma deadline_remaining_bounds:
  "0 \<le> deadline_remaining_msec now deadline maximum \<and>
   deadline_remaining_msec now deadline maximum \<le> G_MAXINT \<and>
   deadline_remaining_msec now deadline maximum \<le> int maximum"
  by (auto simp: deadline_remaining_msec_def)

lemma client_timeout_covers_service:
  "client_timeout_msec opn =
     (case operation_budgets opn of None \<Rightarrow> 0
      | Some (f, c) \<Rightarrow>
          service_timeout_msec opn + 20000 + (if opn = Some OP_LIST_PROFILES then 0 else 5000)) \<and>
   service_timeout_msec opn =
     (case operation_budgets opn of None \<Rightarrow> 0 | Some (f, c) \<Rightarrow> f + c + 5000)"
proof (cases "operation_budgets opn")
  case None
  then have "deadlines_init opn 0 = None" by (simp add: deadlines_init_def)
  with None show ?thesis by (simp add: client_timeout_msec_def service_timeout_msec_def)
next
  case (Some fc)
  obtain f c where fc: "fc = (f, c)" by (cases fc)
  have bound: "f + c \<le> 510000" using Some fc operation_budgets_bound by simp
  then have "deadlines_init opn 0 = Some \<lparr>forward_at = int f, cleanup_at = int f + int c,
      hard_at = int f + int c + 5000\<rparr>"
    using Some fc by (subst deadlines_init_Some) auto
  then have "service_timeout_msec opn = f + c + 5000"
    using bound by (simp add: service_timeout_msec_def)
  with Some fc bound show ?thesis by (simp add: client_timeout_msec_def timeout_defs)
qed

end
