(* ===== verification/Codec.thy ===== *)
theory Codec
  imports Main
begin

text \<open>
  The contract between a writer and a reader of one of the program's wire or disk formats: the
  DNS payload, the runtime journal and the profile report. \<open>enc\<close> and \<open>dec\<close> return \<open>None\<close>
  where the code returns \<open>FALSE\<close> or \<open>NULL\<close>; \<open>ok\<close> is the invariant under which the
  format is used. A canonical format has one spelling per value: what the reader accepts is what
  the writer writes.
\<close>

locale codec =
  fixes enc :: "'a \<Rightarrow> 'b option"
    and dec :: "'b \<Rightarrow> 'a option"
    and ok :: "'a \<Rightarrow> bool"
  assumes dec_enc: "ok a \<Longrightarrow> enc a = Some b \<Longrightarrow> dec b = Some a"
    and dec_ok: "dec b = Some a \<Longrightarrow> ok a"
begin

lemma enc_injective:
  "ok a \<Longrightarrow> ok a' \<Longrightarrow> enc a = Some b \<Longrightarrow> enc a' = Some b \<Longrightarrow> a = a'"
  by (metis dec_enc option.inject)

lemma enc_accepted: "ok a \<Longrightarrow> enc a = Some b \<Longrightarrow> dec b \<noteq> None"
  by (simp add: dec_enc)

end

locale canonical_codec = codec +
  assumes enc_dec: "dec b = Some a \<Longrightarrow> enc a = Some b"
begin

lemma dec_injective: "dec b = Some a \<Longrightarrow> dec b' = Some a \<Longrightarrow> b = b'"
  by (metis enc_dec option.inject)

lemma dec_iff_enc: "dec b = Some a \<longleftrightarrow> ok a \<and> enc a = Some b"
  by (metis dec_enc dec_ok enc_dec)

end

end
