(* ===== verification/Dns_Config.thy ===== *)
theory Dns_Config
  imports Names Codec
begin

text \<open>
  DNS settings of a profile and their binary payload (\<open>amneziawg/dns_config.c\<close>). The arrays of
  \<open>NetworkSidebarAmneziaWGDnsConfig\<close> are lists; a configuration here is always an initialized
  one, so the tests for absent arrays have no counterpart. \<open>inet_pton\<close> belongs to the C library
  and is the argument \<open>pton\<close>: it maps a family and a string to the bytes it writes, or to
  \<open>None\<close>.
\<close>

section \<open>Data\<close>

definition AF_INET :: int where "AF_INET = 2"
definition AF_INET6 :: int where "AF_INET6 = 10"

lemmas af_defs = AF_INET_def AF_INET6_def

record dns_server =
  family :: int
  addr_length :: nat
  address :: bytes

record dns_config =
  servers :: "dns_server list"
  domains :: "string list"

datatype measure_error = MEASURE_INVALID | MEASURE_TOO_LARGE

definition MAX_DNS_PAYLOAD :: nat where "MAX_DNS_PAYLOAD = 256 * 1024"
definition DNS_PAYLOAD_HEADER_SIZE :: nat where "DNS_PAYLOAD_HEADER_SIZE = 16"
definition DNS_PAYLOAD_MIN_RECORD_SIZE :: nat where "DNS_PAYLOAD_MIN_RECORD_SIZE = 5"
definition DNS_PAYLOAD_MAX_RECORDS :: nat where
  "DNS_PAYLOAD_MAX_RECORDS =
     (MAX_DNS_PAYLOAD - DNS_PAYLOAD_HEADER_SIZE) div DNS_PAYLOAD_MIN_RECORD_SIZE"

lemmas payload_defs = MAX_DNS_PAYLOAD_def DNS_PAYLOAD_HEADER_SIZE_def
  DNS_PAYLOAD_MIN_RECORD_SIZE_def DNS_PAYLOAD_MAX_RECORDS_def

definition dns_config_init :: dns_config where
  "dns_config_init = \<lparr>servers = [], domains = []\<rparr>"

section \<open>Domain names\<close>

text \<open>
  The loop of \<open>value_is_domain\<close>: the length of the current label, the previous byte and the
  rest of the span; the length of the last label, or \<open>None\<close> where the code returns \<open>FALSE\<close>.
\<close>

fun domain_loop :: "nat \<Rightarrow> byte \<Rightarrow> bytes \<Rightarrow> nat option" where
  "domain_loop label_length prev [] = Some label_length"
| "domain_loop label_length prev (c # cs) =
     (if c = CHR ''.'' then
        (if label_length = 0 \<or> prev = CHR ''-'' then None else domain_loop 0 c cs)
      else if \<not> ascii_isalnum c \<and> c \<noteq> CHR ''-'' then None
      else if label_length = 0 \<and> c = CHR ''-'' then None
      else if label_length + 1 > 63 then None
      else domain_loop (label_length + 1) c cs)"

definition value_is_domain :: "bytes \<Rightarrow> bool" where
  "value_is_domain s =
     (if length s = 0 \<or> length s > 253 then False
      else let s' = (if last s = CHR ''.'' then butlast s else s)
           in if length s' = 0 then False
              else (case domain_loop 0 CHR ''.'' s' of
                      None \<Rightarrow> False
                    | Some label_length \<Rightarrow> label_length > 0 \<and> last s' \<noteq> CHR ''-''))"

definition value_looks_like_ipv4 :: "bytes \<Rightarrow> bool" where
  "value_looks_like_ipv4 s \<longleftrightarrow> s \<noteq> [] \<and> list_all (\<lambda>c. ascii_isdigit c \<or> c = CHR ''.'') s"

section \<open>Comma-separated values\<close>

type_synonym pton = "int \<Rightarrow> string \<Rightarrow> bytes option"

definition item_family :: "string \<Rightarrow> int" where
  "item_family item = (if CHR '':'' \<in> set item then AF_INET6 else AF_INET)"

function value_is_dns_list :: "pton \<Rightarrow> bytes \<Rightarrow> bool" where
  "value_is_dns_list pton s =
     (if s = [] then False
      else let span = trim_span (takeWhile (\<lambda>c. c \<noteq> CHR '','') s);
               item = c_string span
           in if span = [] then False
              else if pton (item_family item) item = None \<and>
                      (value_looks_like_ipv4 span \<or> \<not> value_is_domain span) then False
              else (case dropWhile (\<lambda>c. c \<noteq> CHR '','') s of
                      [] \<Rightarrow> True
                    | _ # rest \<Rightarrow> value_is_dns_list pton rest))"
  by pat_completeness auto
termination
  by (relation "measure (\<lambda>(p, s). length s)")
    (auto dest: dropWhile_rest_shorter)

declare value_is_dns_list.simps [simp del]

text \<open>Reading one item; \<open>address\<close> is the whole 16-byte field, zero beyond what is written.\<close>

definition add_item :: "pton \<Rightarrow> dns_config \<Rightarrow> bytes \<Rightarrow> dns_config" where
  "add_item pton dns span =
     (let item = c_string span; fam = item_family item;
          len = (if fam = AF_INET then 4 else 16)
      in (case pton fam item of
            Some a \<Rightarrow> dns\<lparr>servers := servers dns @
              [\<lparr>family = fam, addr_length = len,
                address = a @ replicate (16 - length a) CHR 0x00\<rparr>]\<rparr>
          | None \<Rightarrow> dns\<lparr>domains := domains dns @ [item]\<rparr>))"

function add_items :: "pton \<Rightarrow> dns_config \<Rightarrow> bytes \<Rightarrow> bool \<times> dns_config" where
  "add_items pton dns s =
     (if s = [] then (False, dns)
      else let dns' = add_item pton dns (trim_span (takeWhile (\<lambda>c. c \<noteq> CHR '','') s))
           in (case dropWhile (\<lambda>c. c \<noteq> CHR '','') s of
                 [] \<Rightarrow> (True, dns')
               | _ # rest \<Rightarrow> add_items pton dns' rest))"
  by pat_completeness auto
termination
  by (relation "measure (\<lambda>(p, d, s). length s)")
    (auto dest: dropWhile_rest_shorter)

declare add_items.simps [simp del]

definition dns_config_add_value ::
  "pton \<Rightarrow> dns_config \<Rightarrow> bytes \<Rightarrow> bool \<times> dns_config" where
  "dns_config_add_value pton dns s =
     (if \<not> value_is_dns_list pton s then (False, dns) else add_items pton dns s)"

section \<open>Payload size\<close>

definition server_shape_ok :: "dns_server \<Rightarrow> bool" where
  "server_shape_ok s \<longleftrightarrow>
     \<not> ((family s \<noteq> AF_INET \<or> addr_length s \<noteq> 4) \<and> (family s \<noteq> AF_INET6 \<or> addr_length s \<noteq> 16))"

fun measure_servers :: "nat \<Rightarrow> dns_server list \<Rightarrow> measure_error + nat" where
  "measure_servers measured [] = Inr measured"
| "measure_servers measured (s # ss) =
     (if \<not> server_shape_ok s then Inl MEASURE_INVALID
      else let encoded_length = 1 + addr_length s
           in if measured > MAX_DNS_PAYLOAD - encoded_length then Inl MEASURE_TOO_LARGE
              else measure_servers (measured + encoded_length) ss)"

fun measure_domains :: "nat \<Rightarrow> string list \<Rightarrow> measure_error + nat" where
  "measure_domains measured [] = Inr measured"
| "measure_domains measured (d # ds) =
     (if length d = 0 \<or> length d > 253 \<or> \<not> value_is_domain d then Inl MEASURE_INVALID
      else let encoded_length = 4 + length d
           in if measured > MAX_DNS_PAYLOAD - encoded_length then Inl MEASURE_TOO_LARGE
              else measure_domains (measured + encoded_length) ds)"

definition dns_config_measure :: "dns_config \<Rightarrow> measure_error + nat" where
  "dns_config_measure dns =
     (if length (servers dns) + length (domains dns) > DNS_PAYLOAD_MAX_RECORDS
      then Inl MEASURE_TOO_LARGE
      else if length (domains dns) > 0 \<and> length (servers dns) = 0 then Inl MEASURE_INVALID
      else (case measure_servers DNS_PAYLOAD_HEADER_SIZE (servers dns) of
              Inl e \<Rightarrow> Inl e
            | Inr m \<Rightarrow> measure_domains m (domains dns)))"

section \<open>Payload encoding\<close>

definition write_be32 :: "nat \<Rightarrow> bytes" where
  "write_be32 v = [byte_of (v div 2 ^ 24), byte_of (v div 2 ^ 16), byte_of (v div 2 ^ 8), byte_of v]"

text \<open>The shifted bytes of \<open>read_be32\<close> occupy disjoint bits, so their disjunction is a sum.\<close>

fun read_be32 :: "bytes \<Rightarrow> nat" where
  "read_be32 (a # b # c # d # _) =
     byte_val a * 2 ^ 24 + byte_val b * 2 ^ 16 + byte_val c * 2 ^ 8 + byte_val d"
| "read_be32 _ = 0"

definition dns_magic :: bytes where
  "dns_magic = ''NMSDNS1'' @ [CHR 0x00]"

definition encode_server :: "dns_server \<Rightarrow> bytes" where
  "encode_server s =
     (if family s = AF_INET then byte_of 4 else byte_of 6) # take (addr_length s) (address s)"

definition encode_domain :: "string \<Rightarrow> bytes" where
  "encode_domain d = write_be32 (length d) @ d"

definition dns_config_serialize :: "dns_config \<Rightarrow> bytes option" where
  "dns_config_serialize dns =
     (case dns_config_measure dns of
        Inl _ \<Rightarrow> None
      | Inr measured \<Rightarrow>
          Some (dns_magic @ write_be32 (length (servers dns)) @ write_be32 (length (domains dns)) @
                concat (map encode_server (servers dns)) @
                concat (map encode_domain (domains dns))))"

section \<open>Payload decoding\<close>

definition tag_family :: "byte \<Rightarrow> int" where
  "tag_family t = (if byte_val t = 4 then AF_INET else if byte_val t = 6 then AF_INET6 else 0)"

definition family_length :: "int \<Rightarrow> nat" where
  "family_length f = (if f = AF_INET then 4 else if f = AF_INET6 then 16 else 0)"

fun parse_servers :: "nat \<Rightarrow> bytes \<Rightarrow> (dns_server list \<times> bytes) option" where
  "parse_servers 0 rest = Some ([], rest)"
| "parse_servers (Suc n) [] = None"
| "parse_servers (Suc n) (t # rest) =
     (let fam = tag_family t; len = family_length fam
      in if len = 0 \<or> len > length rest then None
         else (case parse_servers n (drop len rest) of
                 None \<Rightarrow> None
               | Some (ss, rest') \<Rightarrow>
                   Some (\<lparr>family = fam, addr_length = len,
                          address = take len rest @ replicate (16 - len) CHR 0x00\<rparr> # ss, rest')))"

fun parse_domains :: "nat \<Rightarrow> bytes \<Rightarrow> (string list \<times> bytes) option" where
  "parse_domains 0 rest = Some ([], rest)"
| "parse_domains (Suc n) rest =
     (if length rest < 4 then None
      else let len = read_be32 rest; rest' = drop 4 rest
           in if len = 0 \<or> len > 253 \<or> len > length rest' \<or> \<not> value_is_domain (take len rest')
              then None
              else (case parse_domains n (drop len rest') of
                      None \<Rightarrow> None
                    | Some (ds, rest'') \<Rightarrow> Some (take len rest' # ds, rest'')))"

definition dns_config_parse :: "bytes \<Rightarrow> dns_config option" where
  "dns_config_parse data =
     (if length data < DNS_PAYLOAD_HEADER_SIZE \<or> length data > MAX_DNS_PAYLOAD \<or>
         take 8 data \<noteq> dns_magic then None
      else let server_count = read_be32 (drop 8 data);
               domain_count = read_be32 (drop 12 data)
           in if server_count > length data \<or> domain_count > length data \<or>
                 domain_count > 0 \<and> server_count = 0 then None
              else (case parse_servers server_count (drop DNS_PAYLOAD_HEADER_SIZE data) of
                      None \<Rightarrow> None
                    | Some (ss, rest) \<Rightarrow>
                        (case parse_domains domain_count rest of
                           None \<Rightarrow> None
                         | Some (ds, rest') \<Rightarrow>
                             if rest' \<noteq> [] then None
                             else Some \<lparr>servers = ss, domains = ds\<rparr>)))"

section \<open>Big-endian counts\<close>

lemma be32_digits:
  assumes "(n::nat) < 2 ^ 32"
  shows "(n div 2 ^ 24) mod 256 * 2 ^ 24 + (n div 2 ^ 16) mod 256 * 2 ^ 16 +
     (n div 2 ^ 8) mod 256 * 2 ^ 8 + n mod 256 = n"
proof -
  define a where "a = n div 256"
  define b where "b = a div 256"
  define c where "c = b div 256"
  have "n div 2 ^ 8 = a" "n div 2 ^ 16 = b" "n div 2 ^ 24 = c"
    by (simp_all add: a_def b_def c_def flip: div_mult2_eq)
  moreover have "c mod 256 = c"
    using assms by (simp add: a_def b_def c_def less_mult_imp_div_less flip: div_mult2_eq)
  moreover have "n = 256 * a + n mod 256" "a = 256 * b + a mod 256" "b = 256 * c + b mod 256"
    by (simp_all add: a_def b_def c_def)
  ultimately show ?thesis by simp
qed

lemma be32_bytes:
  assumes "a < 256" "b < 256" "c < 256" "d < (256::nat)"
  defines "n \<equiv> a * 2 ^ 24 + b * 2 ^ 16 + c * 2 ^ 8 + d"
  shows "n div 2 ^ 24 mod 256 = a \<and> n div 2 ^ 16 mod 256 = b \<and> n div 2 ^ 8 mod 256 = c \<and>
    n mod 256 = d"
proof -
  have "n = d + 256 * (c + 256 * (b + 256 * a))" by (simp add: n_def)
  moreover have "m div 2 ^ 8 = m div 256" "m div 2 ^ 16 = m div 256 div 256"
    "m div 2 ^ 24 = m div 256 div 256 div 256" for m :: nat
    by (simp_all flip: div_mult2_eq)
  moreover have "(y + 256 * x) div 256 = x" "(y + 256 * x) mod 256 = y" if "y < 256" for x y :: nat
    using that by simp_all
  ultimately show ?thesis using assms(1-4) by (simp only: mod_less)
qed

lemma byte_of_eqI: "n mod 256 = byte_val c \<Longrightarrow> byte_of n = c"
  by (metis of_char_eq_iff of_char_of)

lemma read_write_be32: "n < 2 ^ 32 \<Longrightarrow> read_be32 (write_be32 n @ r) = n"
  using be32_digits [of n] by (simp add: write_be32_def)

lemma length_write_be32 [simp]: "length (write_be32 n) = 4"
  by (simp add: write_be32_def)

lemma write_read_be32: "4 \<le> length s \<Longrightarrow> write_be32 (read_be32 s) = take 4 s"
proof -
  assume "4 \<le> length s"
  then obtain a b c d r where s: "s = a # b # c # d # r"
    by (auto simp: numeral_eq_Suc Suc_le_length_iff)
  show ?thesis
    using be32_bytes [of "byte_val a" "byte_val b" "byte_val c" "byte_val d"]
    by (simp add: write_be32_def s byte_of_eqI)
qed

section \<open>The payload is a canonical format\<close>

definition server_wf :: "dns_server \<Rightarrow> bool" where
  "server_wf s \<longleftrightarrow>
     server_shape_ok s \<and> length (address s) = 16 \<and>
     drop (addr_length s) (address s) = replicate (16 - addr_length s) CHR 0x00"

definition servers_wf :: "dns_config \<Rightarrow> bool" where
  "servers_wf dns \<longleftrightarrow> list_all server_wf (servers dns)"

lemma server_shape_cases:
  "server_shape_ok s \<Longrightarrow>
   family s = AF_INET \<and> addr_length s = 4 \<or> family s = AF_INET6 \<and> addr_length s = 16"
  by (auto simp: server_shape_ok_def)

lemma server_wf_cases:
  "server_wf s \<Longrightarrow>
   (family s = AF_INET \<and> addr_length s = 4 \<or> family s = AF_INET6 \<and> addr_length s = 16) \<and>
   length (address s) = 16 \<and>
   take (addr_length s) (address s) @ replicate (16 - addr_length s) CHR 0x00 = address s"
  by (auto simp: server_wf_def dest!: server_shape_cases)
    (metis append_take_drop_id)

lemma value_is_domain_length: "value_is_domain d \<Longrightarrow> 0 < length d \<and> length d \<le> 253"
  by (auto simp: value_is_domain_def split: if_splits)

lemma parse_servers_step:
  assumes "server_wf s"
  shows "parse_servers (Suc n) (encode_server s @ rest) =
    map_option (\<lambda>(ss, r). (s # ss, r)) (parse_servers n rest)"
proof -
  define p where "p = take (addr_length s) (address s)"
  have addr: "address s = p @ replicate (16 - addr_length s) CHR 0x00" "length p = addr_length s"
    using server_wf_cases [OF assms] by (auto simp: p_def)
  have enc: "encode_server s = (if family s = AF_INET then byte_of 4 else byte_of 6) # p"
    by (simp add: encode_server_def p_def)
  from server_wf_cases [OF assms] addr show ?thesis
    unfolding enc
    by (cases s) (auto simp: tag_family_def family_length_def af_defs split: option.split)
qed

lemma parse_servers_encode:
  "list_all server_wf ss \<Longrightarrow>
   parse_servers (length ss) (concat (map encode_server ss) @ r) = Some (ss, r)"
  by (induction ss) (simp_all add: parse_servers_step del: parse_servers.simps(3))

lemma parse_domains_step:
  assumes d: "value_is_domain d"
  shows "parse_domains (Suc n) (encode_domain d @ rest) =
    map_option (\<lambda>(ds, r). (d # ds, r)) (parse_domains n rest)"
proof -
  let ?s = "encode_domain d @ rest"
  have "read_be32 ?s = length d"
    using value_is_domain_length [OF d] read_write_be32 [of "length d" "d @ rest"]
    by (simp add: encode_domain_def)
  moreover have "drop 4 ?s = d @ rest" and "\<not> length ?s < 4" by (simp_all add: encode_domain_def)
  ultimately show ?thesis
    using d value_is_domain_length [OF d]
    by (simp add: Let_def split: option.split)
qed

lemma parse_domains_encode:
  "list_all value_is_domain ds \<Longrightarrow>
   parse_domains (length ds) (concat (map encode_domain ds) @ r) = Some (ds, r)"
  by (induction ds) (simp_all add: parse_domains_step del: parse_domains.simps(2))

definition decoded_server :: "byte \<Rightarrow> bytes \<Rightarrow> dns_server" where
  "decoded_server t rest =
     (let len = family_length (tag_family t)
      in \<lparr>family = tag_family t, addr_length = len,
          address = take len rest @ replicate (16 - len) CHR 0x00\<rparr>)"

lemma decoded_server:
  assumes "0 < family_length (tag_family t)" and "family_length (tag_family t) \<le> length rest"
  shows "server_wf (decoded_server t rest)"
    and "encode_server (decoded_server t rest) = t # take (family_length (tag_family t)) rest"
proof -
  from assms(1) consider "byte_val t = 4" | "byte_val t = 6"
    by (auto simp: family_length_def tag_family_def af_defs split: if_splits)
  then have "server_wf (decoded_server t rest) \<and>
    encode_server (decoded_server t rest) = t # take (family_length (tag_family t)) rest"
    using assms(2)
    by cases (auto simp: decoded_server_def server_wf_def server_shape_ok_def encode_server_def
        family_length_def tag_family_def af_defs intro: byte_of_eqI)
  then show "server_wf (decoded_server t rest)"
    and "encode_server (decoded_server t rest) = t # take (family_length (tag_family t)) rest"
    by blast+
qed

lemma parse_servers_sound:
  "parse_servers n s = Some (ss, r) \<Longrightarrow>
   length ss = n \<and> list_all server_wf ss \<and> s = concat (map encode_server ss) @ r"
proof (induction n s arbitrary: ss r rule: parse_servers.induct)
  case (3 n t rest)
  let ?len = "family_length (tag_family t)"
  from "3.prems" obtain ss' where
    len: "0 < ?len" "?len \<le> length rest" and
    rec: "parse_servers n (drop ?len rest) = Some (ss', r)" and
    ss: "ss = decoded_server t rest # ss'"
    by (auto simp: Let_def decoded_server_def not_less split: if_splits option.splits)
  from "3.IH" [OF refl refl _ rec] len
  have IH: "length ss' = n" "list_all server_wf ss'"
    "concat (map encode_server ss') @ r = drop ?len rest" by auto
  with decoded_server [OF len] show ?case by (simp add: ss)
qed auto

lemma parse_domains_sound:
  "parse_domains n s = Some (ds, r) \<Longrightarrow>
   length ds = n \<and> list_all value_is_domain ds \<and> s = concat (map encode_domain ds) @ r"
proof (induction n s arbitrary: ds r rule: parse_domains.induct)
  case (2 n rest)
  let ?len = "read_be32 rest" and ?rest = "drop 4 rest"
  from "2.prems" obtain ds' where
    len: "4 \<le> length rest" "?len \<le> length ?rest" "value_is_domain (take ?len ?rest)" and
    rec: "parse_domains n (drop ?len ?rest) = Some (ds', r)" and ds: "ds = take ?len ?rest # ds'"
    by (auto simp: Let_def not_less split: if_splits option.splits)
  from "2.prems" "2.IH" rec
  have IH: "length ds' = n" "list_all value_is_domain ds'"
    "drop ?len ?rest = concat (map encode_domain ds') @ r"
    by (auto simp: Let_def split: if_splits)
  have "write_be32 ?len @ take ?len ?rest @ drop ?len ?rest = rest"
    using len(1) by (simp add: write_read_be32 del: drop_drop)
  moreover have "encode_domain (take ?len ?rest) = write_be32 ?len @ take ?len ?rest"
    using len(2) by (simp add: encode_domain_def)
  ultimately show ?case using len(3) IH by (simp add: ds)
qed auto

text \<open>The two measuring loops add up the encoded records, within the limit.\<close>

lemma length_encode_server:
  "server_shape_ok s \<Longrightarrow> length (address s) = 16 \<Longrightarrow> length (encode_server s) = 1 + addr_length s"
  by (auto simp: encode_server_def dest!: server_shape_cases)

lemma length_encode_domain: "length (encode_domain d) = 4 + length d"
  by (simp add: encode_domain_def)

lemma measure_servers_Inr:
  "list_all (\<lambda>s. length (address s) = 16) ss \<Longrightarrow> m \<le> MAX_DNS_PAYLOAD \<Longrightarrow>
   measure_servers m ss = Inr k \<longleftrightarrow>
     list_all server_shape_ok ss \<and> k = m + length (concat (map encode_server ss)) \<and>
     k \<le> MAX_DNS_PAYLOAD"
proof (induction ss arbitrary: m)
  case (Cons s ss)
  show ?case
  proof (cases "server_shape_ok s")
    case True
    with Cons.prems have e: "length (encode_server s) = 1 + addr_length s" "addr_length s \<le> 16"
      by (auto simp: length_encode_server dest!: server_shape_cases)
    then have "m > MAX_DNS_PAYLOAD - (1 + addr_length s) \<longleftrightarrow>
        m + length (encode_server s) > MAX_DNS_PAYLOAD"
      by (simp add: MAX_DNS_PAYLOAD_def) arith
    with True e Cons show ?thesis by (auto simp: Let_def)
  qed simp
qed auto

lemma measure_domains_Inr:
  "m \<le> MAX_DNS_PAYLOAD \<Longrightarrow>
   measure_domains m ds = Inr k \<longleftrightarrow>
     list_all value_is_domain ds \<and> k = m + length (concat (map encode_domain ds)) \<and>
     k \<le> MAX_DNS_PAYLOAD"
proof (induction ds arbitrary: m)
  case (Cons d ds)
  show ?case
  proof (cases "value_is_domain d")
    case True
    with value_is_domain_length have l: "0 < length d" "length d \<le> 253" by auto
    then have "m > MAX_DNS_PAYLOAD - (4 + length d) \<longleftrightarrow>
        m + length (encode_domain d) > MAX_DNS_PAYLOAD"
      by (simp add: MAX_DNS_PAYLOAD_def length_encode_domain) arith
    with True l Cons show ?thesis by (auto simp: Let_def length_encode_domain)
  qed simp
qed auto

lemma encode_server_min: "server_wf s \<Longrightarrow> 5 \<le> length (encode_server s)"
  by (auto simp: length_encode_server server_wf_def dest!: server_shape_cases)

lemma encode_domain_min: "value_is_domain d \<Longrightarrow> 5 \<le> length (encode_domain d)"
  using value_is_domain_length [of d] by (simp add: length_encode_domain Suc_le_eq)

lemma concat_encoded_min:
  "list_all P xs \<Longrightarrow> (\<And>x. P x \<Longrightarrow> 5 \<le> length (f x)) \<Longrightarrow> 5 * length xs \<le> length (concat (map f xs))"
  by (induction xs) (auto intro: add_mono)

lemma encoded_records_min:
  "list_all server_wf ss \<Longrightarrow> list_all value_is_domain ds \<Longrightarrow>
   5 * (length ss + length ds) \<le>
     length (concat (map encode_server ss)) + length (concat (map encode_domain ds))"
  using concat_encoded_min [of server_wf ss encode_server, OF _ encode_server_min]
    concat_encoded_min [of value_is_domain ds encode_domain, OF _ encode_domain_min]
  by simp

definition payload :: "dns_config \<Rightarrow> bytes" where
  "payload dns = dns_magic @ write_be32 (length (servers dns)) @ write_be32 (length (domains dns)) @
     concat (map encode_server (servers dns)) @ concat (map encode_domain (domains dns))"

lemma length_dns_magic [simp]: "length dns_magic = 8"
  by (simp add: dns_magic_def)

lemma dns_config_serialize_Some:
  assumes "servers_wf dns"
  shows "dns_config_serialize dns = Some b \<longleftrightarrow>
    b = payload dns \<and> length b \<le> MAX_DNS_PAYLOAD \<and> list_all value_is_domain (domains dns) \<and>
    (domains dns = [] \<or> servers dns \<noteq> [])"
proof -
  have a: "list_all (\<lambda>s. length (address s) = 16) (servers dns)" "list_all server_shape_ok (servers dns)"
    using assms by (auto simp: servers_wf_def server_wf_def list_all_iff)
  let ?S = "length (concat (map encode_server (servers dns)))"
  let ?D = "length (concat (map encode_domain (domains dns)))"
  have len: "length (payload dns) = 16 + ?S + ?D" by (simp add: payload_def)
  have rec: "length (servers dns) + length (domains dns) \<le> DNS_PAYLOAD_MAX_RECORDS"
    if "list_all value_is_domain (domains dns)" "16 + ?S + ?D \<le> MAX_DNS_PAYLOAD"
    using encoded_records_min [of "servers dns" "domains dns"] that assms
    by (simp add: servers_wf_def payload_defs)
  have s: "measure_servers 16 (servers dns) = Inr k \<longleftrightarrow> k = 16 + ?S \<and> k \<le> MAX_DNS_PAYLOAD" for k
    using measure_servers_Inr [OF a(1), of 16 k] a(2) by (simp add: MAX_DNS_PAYLOAD_def)
  have "dns_config_measure dns = Inr k \<longleftrightarrow>
      length (servers dns) + length (domains dns) \<le> DNS_PAYLOAD_MAX_RECORDS \<and>
      (domains dns = [] \<or> servers dns \<noteq> []) \<and> 16 + ?S \<le> MAX_DNS_PAYLOAD \<and>
      measure_domains (16 + ?S) (domains dns) = Inr k" for k
  proof (cases "measure_servers 16 (servers dns)")
    case (Inl e)
    with s [of "16 + ?S"] show ?thesis
      by (auto simp: dns_config_measure_def DNS_PAYLOAD_HEADER_SIZE_def)
  next
    case (Inr m)
    with s [of m] have "m = 16 + ?S" "16 + ?S \<le> MAX_DNS_PAYLOAD" by auto
    with Inr show ?thesis
      by (auto simp: dns_config_measure_def DNS_PAYLOAD_HEADER_SIZE_def)
  qed
  then have "dns_config_measure dns = Inr k \<longleftrightarrow>
      list_all value_is_domain (domains dns) \<and> (domains dns = [] \<or> servers dns \<noteq> []) \<and>
      k = length (payload dns) \<and> k \<le> MAX_DNS_PAYLOAD" for k
    using rec measure_domains_Inr [of "16 + ?S" "domains dns" k] len by auto
  moreover have "dns_config_serialize dns = Some b \<longleftrightarrow>
      b = payload dns \<and> (\<exists>k. dns_config_measure dns = Inr k)"
    by (cases "dns_config_measure dns") (auto simp: dns_config_serialize_def payload_def)
  ultimately show ?thesis by auto
qed

lemma payload_counts:
  assumes "length (servers dns) + length (domains dns) < 2 ^ 32"
  shows "read_be32 (drop 8 (payload dns)) = length (servers dns)"
    and "read_be32 (drop 12 (payload dns)) = length (domains dns)"
    and "drop 16 (payload dns) =
      concat (map encode_server (servers dns)) @ concat (map encode_domain (domains dns))"
    and "take 8 (payload dns) = dns_magic"
  using assms by (simp_all add: payload_def read_write_be32)

lemma dns_parse_serialize_step:
  assumes wf: "servers_wf dns" and enc: "dns_config_serialize dns = Some b"
  shows "dns_config_parse b = Some dns"
proof -
  from enc wf have b: "b = payload dns" and max: "length b \<le> MAX_DNS_PAYLOAD"
    and dom: "list_all value_is_domain (domains dns)"
    and some: "domains dns = [] \<or> servers dns \<noteq> []"
    using dns_config_serialize_Some [OF wf, of b] by blast+
  have min: "5 * (length (servers dns) + length (domains dns)) + 16 \<le> length b"
    using encoded_records_min [of "servers dns" "domains dns"] wf dom
    by (simp add: b payload_def servers_wf_def)
  with max have small: "length (servers dns) + length (domains dns) < 2 ^ 32"
    by (simp add: MAX_DNS_PAYLOAD_def)
  have "parse_servers (length (servers dns)) (drop 16 b) =
      Some (servers dns, concat (map encode_domain (domains dns)))"
    using wf unfolding b payload_counts [OF small] servers_wf_def by (rule parse_servers_encode)
  moreover have "parse_domains (length (domains dns)) (concat (map encode_domain (domains dns))) =
      Some (domains dns, [])"
    using parse_domains_encode [OF dom, of "[]"] by simp
  ultimately show ?thesis
    using max min some payload_counts [OF small]
    by (simp add: b dns_config_parse_def DNS_PAYLOAD_HEADER_SIZE_def Let_def)
qed

lemma dns_config_parse_sound:
  assumes "dns_config_parse b = Some dns"
  shows "servers_wf dns \<and> dns_config_serialize dns = Some b"
proof -
  let ?n = "read_be32 (drop 8 b)" and ?m = "read_be32 (drop 12 b)"
  from assms obtain rest where
    size: "16 \<le> length b" "length b \<le> MAX_DNS_PAYLOAD" "take 8 b = dns_magic"
    and some: "?m = 0 \<or> ?n \<noteq> 0"
    and srv: "parse_servers ?n (drop 16 b) = Some (servers dns, rest)"
    and dom: "parse_domains ?m rest = Some (domains dns, [])"
    by (auto simp: dns_config_parse_def Let_def DNS_PAYLOAD_HEADER_SIZE_def not_less
        split: if_splits option.splits)
  from parse_servers_sound [OF srv] parse_domains_sound [OF dom]
  have wf: "list_all server_wf (servers dns)" "list_all value_is_domain (domains dns)"
    and n: "length (servers dns) = ?n" "length (domains dns) = ?m"
    and rest: "drop 16 b = concat (map encode_server (servers dns)) @
      concat (map encode_domain (domains dns))"
    by auto
  have "write_be32 ?n = take 4 (drop 8 b)" "write_be32 ?m = take 4 (drop 12 b)"
    using size(1) by (simp_all add: write_read_be32)
  moreover have "take 8 b @ take 4 (drop 8 b) @ take 4 (drop 12 b) @ drop 16 b = b"
  proof -
    have "take 4 (drop 12 b) @ drop 16 b = drop 12 b" "take 4 (drop 8 b) @ drop 12 b = drop 8 b"
      using append_take_drop_id [of 4 "drop 12 b"] append_take_drop_id [of 4 "drop 8 b"]
      by (simp_all del: append_take_drop_id)
    then show ?thesis by simp
  qed
  ultimately have "payload dns = b" unfolding payload_def n rest [symmetric] size(3) by simp
  moreover have "domains dns = [] \<or> servers dns \<noteq> []" using some n by auto
  ultimately show ?thesis
    using wf size(2) dns_config_serialize_Some [of dns b] by (auto simp: servers_wf_def)
qed

interpretation dns_payload: canonical_codec dns_config_serialize dns_config_parse servers_wf
  by unfold_locales (blast dest: dns_config_parse_sound intro: dns_parse_serialize_step)+


text \<open>
  C29. The DNS payload survives the trip through its binary form in both directions, and is
  canonical: what the reader accepts is exactly what the writer produces for the configuration
  read, so no two payloads mean the same configuration.
\<close>

theorem dns_payload_roundtrip:
  "dns_config_parse b = Some dns \<longleftrightarrow> servers_wf dns \<and> dns_config_serialize dns = Some b"
  by (rule dns_payload.dec_iff_enc)

section \<open>Domain names are the dotted host names of the DNS\<close>

text \<open>A label: 1 to 63 letters, digits and dashes, with no dash at either end.\<close>

definition dns_label :: "bytes \<Rightarrow> bool" where
  "dns_label l \<longleftrightarrow> l \<noteq> [] \<and> length l \<le> 63 \<and> list_all (\<lambda>c. ascii_isalnum c \<or> c = CHR ''-'') l \<and>
     hd l \<noteq> CHR ''-'' \<and> last l \<noteq> CHR ''-''"

text \<open>Inside a label of which \<open>n\<close> bytes ending in \<open>prev\<close> have been read.\<close>

definition label_rest :: "nat \<Rightarrow> byte \<Rightarrow> bytes \<Rightarrow> bool" where
  "label_rest n prev l \<longleftrightarrow> n + length l > 0 \<and> n + length l \<le> 63 \<and>
     list_all (\<lambda>c. ascii_isalnum c \<or> c = CHR ''-'') l \<and>
     (n = 0 \<longrightarrow> hd l \<noteq> CHR ''-'') \<and> last (prev # l) \<noteq> CHR ''-''"

lemma label_rest_0: "prev \<noteq> CHR ''-'' \<Longrightarrow> label_rest 0 prev l \<longleftrightarrow> dns_label l"
  by (auto simp: label_rest_def dns_label_def)

lemma alnum_not_dot [simp]: "\<not> ascii_isalnum CHR ''.''"
  by (simp add: ascii_class_defs)

lemma domain_loop_labels:
  "n \<le> 63 \<Longrightarrow>
   (\<exists>k. domain_loop n prev s = Some k \<and> 0 < k \<and> last (prev # s) \<noteq> CHR ''-'') \<longleftrightarrow>
   label_rest n prev (hd (split_on CHR ''.'' s)) \<and> list_all dns_label (tl (split_on CHR ''.'' s))"
proof (induction n prev s rule: domain_loop.induct)
  case (1 n prev)
  then show ?case by (auto simp: label_rest_def)
next
  case (2 n prev c cs)
  obtain w ws where w: "split_on CHR ''.'' cs = w # ws"
    by (cases "split_on CHR ''.'' cs") auto
  show ?case
  proof (cases "c = CHR ''.''")
    case True
    then show ?thesis
      using "2.IH"(1) "2.prems" w by (auto simp: label_rest_0 label_rest_def [of n prev])
  next
    case False
    then show ?thesis
      using "2.IH"(2) "2.prems" w by (auto simp: label_rest_def)
  qed
qed

text \<open>
  C34. The byte loop of \<open>value_is_domain\<close> accepts exactly the host names of the DNS: at most 253
  bytes, one optional final dot, and between the dots labels of 1 to 63 letters, digits and
  dashes that neither begin nor end with a dash.
\<close>

theorem value_is_domain_iff_labels:
  "value_is_domain s \<longleftrightarrow>
     s \<noteq> [] \<and> length s \<le> 253 \<and>
     list_all dns_label (split_on CHR ''.'' (if last s = CHR ''.'' then butlast s else s))"
proof -
  define s' where "s' = (if last s = CHR ''.'' then butlast s else s)"
  obtain w ws where w: "split_on CHR ''.'' s' = w # ws"
    by (cases "split_on CHR ''.'' s'") auto
  have "(\<exists>k. domain_loop 0 CHR ''.'' s' = Some k \<and> 0 < k \<and> last (CHR ''.'' # s') \<noteq> CHR ''-'') \<longleftrightarrow>
      list_all dns_label (split_on CHR ''.'' s')"
    using domain_loop_labels [of 0 "CHR ''.''" s'] w by (simp add: label_rest_0)
  moreover have "value_is_domain s \<longleftrightarrow> s \<noteq> [] \<and> length s \<le> 253 \<and> s' \<noteq> [] \<and>
      (\<exists>k. domain_loop 0 CHR ''.'' s' = Some k \<and> 0 < k \<and> last s' \<noteq> CHR ''-'')"
    by (auto simp: value_is_domain_def s'_def [symmetric] Let_def split: option.splits)
  ultimately show ?thesis unfolding s'_def [symmetric]
    by (cases "s' = []") (auto simp: dns_label_def)
qed

section \<open>Reading a comma-separated value\<close>

text \<open>What the code relies on: \<open>inet_pton\<close> writes 4 bytes for IPv4 and 16 for IPv6.\<close>

definition pton_lengths :: "pton \<Rightarrow> bool" where
  "pton_lengths pton \<longleftrightarrow>
     (\<forall>s a. pton AF_INET s = Some a \<longrightarrow> length a = 4) \<and>
     (\<forall>s a. pton AF_INET6 s = Some a \<longrightarrow> length a = 16)"

definition item_address :: "pton \<Rightarrow> bytes \<Rightarrow> bytes option" where
  "item_address pton span = pton (item_family (c_string span)) (c_string span)"

definition item_ok :: "pton \<Rightarrow> bytes \<Rightarrow> bool" where
  "item_ok pton span \<longleftrightarrow> span \<noteq> [] \<and>
     (item_address pton span \<noteq> None \<or> \<not> value_looks_like_ipv4 span \<and> value_is_domain span)"

definition value_items :: "bytes \<Rightarrow> bytes list" where
  "value_items s = map trim_span (split_on CHR '','' s)"

abbreviation first_item :: "bytes \<Rightarrow> bytes" where
  "first_item s \<equiv> trim_span (takeWhile (\<lambda>c. c \<noteq> CHR '','') s)"

lemma value_items_last:
  "dropWhile (\<lambda>c. c \<noteq> CHR '','') s = [] \<Longrightarrow> value_items s = [first_item s]"
proof -
  assume d: "dropWhile (\<lambda>c. c \<noteq> CHR '','') s = []"
  then have "takeWhile (\<lambda>c. c \<noteq> CHR '','') s = s" by auto
  with d show ?thesis by (simp only: value_items_def split_on_unfold [of _ s] list.case list.map)
qed

lemma value_items_more:
  "dropWhile (\<lambda>c. c \<noteq> CHR '','') s = c # rest \<Longrightarrow> value_items s = first_item s # value_items rest"
  by (simp only: value_items_def split_on_unfold [of _ s] list.case list.map)

lemma value_items_first: "\<exists>r. value_items s = first_item s # r"
  using value_items_last [of s] value_items_more [of s]
  by (cases "dropWhile (\<lambda>c. c \<noteq> CHR '','') s") blast+

lemma value_is_dns_list_step:
  "value_is_dns_list pton s \<longleftrightarrow> s \<noteq> [] \<and> item_ok pton (first_item s) \<and>
     (case dropWhile (\<lambda>c. c \<noteq> CHR '','') s of
        [] \<Rightarrow> True | _ # rest \<Rightarrow> value_is_dns_list pton rest)"
  by (subst value_is_dns_list.simps) (simp only: Let_def item_ok_def item_address_def, argo)

lemma value_is_dns_list_items:
  "value_is_dns_list pton s \<longleftrightarrow> list_all (item_ok pton) (value_items s)"
proof (induction pton s rule: value_is_dns_list.induct)
  case (1 pton s)
  show ?case
  proof (cases "s = [] \<or> \<not> item_ok pton (first_item s)")
    case True
    moreover obtain r where "value_items s = first_item s # r" using value_items_first by blast
    moreover have "s = [] \<Longrightarrow> \<not> item_ok pton (first_item s)" by (simp add: item_ok_def)
    ultimately show ?thesis by (simp only: value_is_dns_list_step [of pton s] list.pred_inject) blast
  next
    case False
    then have ok: "s \<noteq> []" "first_item s \<noteq> []"
      "\<not> (pton (item_family (c_string (first_item s))) (c_string (first_item s)) = None \<and>
          (value_looks_like_ipv4 (first_item s) \<or> \<not> value_is_domain (first_item s)))"
      by (auto simp: item_ok_def item_address_def)
    show ?thesis
    proof (cases "dropWhile (\<lambda>c. c \<noteq> CHR '','') s")
      case Nil
      with False show ?thesis
        by (simp only: value_is_dns_list_step [of pton s] value_items_last list.case list.pred_inject simp_thms)
          blast
    next
      case (Cons c rest)
      with False "1.IH" [OF ok(1) refl refl ok(2,3) Cons] show ?thesis
        by (simp only: value_is_dns_list_step [of pton s] value_items_more list.case list.pred_inject simp_thms)
          blast
    qed
  qed
qed

text \<open>The second loop, once the list has been accepted, reads every item in order.\<close>

lemma add_items_fold:
  "value_is_dns_list pton s \<Longrightarrow>
   add_items pton' dns s = (True, foldl (add_item pton') dns (value_items s))"
proof (induction pton' dns s rule: add_items.induct)
  case (1 pton' dns s)
  from "1.prems" have ne: "s \<noteq> []" by (auto simp: value_is_dns_list.simps)
  have step: "add_items pton' dns s = (case dropWhile (\<lambda>c. c \<noteq> CHR '','') s of
      [] \<Rightarrow> (True, add_item pton' dns (first_item s))
    | _ # rest \<Rightarrow> add_items pton' (add_item pton' dns (first_item s)) rest)"
    using ne by (subst add_items.simps) (simp only: Let_def if_False simp_thms)
  show ?case
  proof (cases "dropWhile (\<lambda>c. c \<noteq> CHR '','') s")
    case Nil
    then show ?thesis by (simp only: step value_items_last list.case foldl.simps)
  next
    case (Cons c rest)
    with "1.prems" have "value_is_dns_list pton rest"
      by (simp only: value_is_dns_list_step [of pton s] list.case)
    with "1.IH" [OF ne refl Cons] Cons show ?thesis
      by (simp only: step value_items_more list.case foldl.simps)
  qed
qed

text \<open>What one item adds: an address record where \<open>inet_pton\<close> reads it, a domain otherwise.\<close>

definition numeric_server :: "bytes \<Rightarrow> bytes \<Rightarrow> dns_server" where
  "numeric_server span a =
     \<lparr>family = item_family (c_string span),
      addr_length = (if item_family (c_string span) = AF_INET then 4 else 16),
      address = a @ replicate (16 - length a) CHR 0x00\<rparr>"

lemma foldl_add_item:
  "foldl (add_item pton) dns spans =
     dns\<lparr>servers := servers dns @ List.map_filter (\<lambda>i. map_option (numeric_server i) (item_address pton i)) spans,
         domains := domains dns @ map c_string (filter (\<lambda>i. item_address pton i = None) spans)\<rparr>"
  by (induction spans arbitrary: dns)
    (auto simp: add_item_def item_address_def numeric_server_def map_filter_simps Let_def
      split: option.splits)

lemma numeric_server_wf:
  "pton_lengths pton \<Longrightarrow> item_address pton i = Some a \<Longrightarrow> server_wf (numeric_server i a)"
  by (auto simp: pton_lengths_def item_address_def numeric_server_def server_wf_def
      server_shape_ok_def item_family_def af_defs split: if_splits)

lemma domain_loop_chars:
  "domain_loop n p s = Some k \<Longrightarrow> list_all (\<lambda>c. c = CHR ''.'' \<or> ascii_isalnum c \<or> c = CHR ''-'') s"
  by (induction n p s rule: domain_loop.induct) (auto split: if_splits)

lemma value_is_domain_chars:
  assumes "value_is_domain d"
  shows "list_all (\<lambda>c. c = CHR ''.'' \<or> ascii_isalnum c \<or> c = CHR ''-'') d"
proof -
  obtain ds c where d: "d = ds @ [c]"
    using value_is_domain_length [OF assms] by (cases d rule: rev_cases) auto
  have "\<exists>k. domain_loop 0 CHR ''.'' (if c = CHR ''.'' then ds else d) = Some k"
    using assms by (auto simp: d value_is_domain_def Let_def split: if_splits option.splits)
  then have "list_all (\<lambda>c. c = CHR ''.'' \<or> ascii_isalnum c \<or> c = CHR ''-'')
      (if c = CHR ''.'' then ds else d)"
    using domain_loop_chars by blast
  then show ?thesis by (auto simp: d split: if_splits)
qed

lemma value_is_domain_no_nul: "value_is_domain d \<Longrightarrow> CHR 0x00 \<notin> set d"
proof
  assume "value_is_domain d" and "CHR 0x00 \<in> set d"
  then have "CHR 0x00 = CHR ''.'' \<or> ascii_isalnum CHR 0x00 \<or> CHR 0x00 = CHR ''-''"
    using value_is_domain_chars [of d] unfolding list_all_iff by blast
  then show False by (simp add: ascii_class_defs)
qed

lemma dns_add_value_eq:
  "dns_config_add_value pton dns s =
     (if list_all (item_ok pton) (value_items s)
      then (True, dns\<lparr>
        servers := servers dns @
          List.map_filter (\<lambda>i. map_option (numeric_server i) (item_address pton i)) (value_items s),
        domains := domains dns @ filter (\<lambda>i. item_address pton i = None) (value_items s)\<rparr>)
      else (False, dns))"
proof (cases "list_all (item_ok pton) (value_items s)")
  case True
  then have list: "value_is_dns_list pton s" by (simp add: value_is_dns_list_items)
  have "map c_string (filter (\<lambda>i. item_address pton i = None) (value_items s)) =
      filter (\<lambda>i. item_address pton i = None) (value_items s)"
    using True by (intro map_idI) (auto simp: list_all_iff item_ok_def intro!: c_string_id
        dest: value_is_domain_no_nul)
  with list True show ?thesis
    by (simp add: dns_config_add_value_def add_items_fold foldl_add_item)
qed (simp add: dns_config_add_value_def value_is_dns_list_items)

lemma dns_add_value_spec:
  "dns_config_add_value pton dns s =
     (if list_all (item_ok pton) (value_items s)
      then (True, dns\<lparr>
        servers := servers dns @
          List.map_filter (\<lambda>i. map_option (numeric_server i) (item_address pton i)) (value_items s),
        domains := domains dns @ filter (\<lambda>i. item_address pton i = None) (value_items s)\<rparr>)
      else (False, dns))"
  by (rule dns_add_value_eq)

text \<open>Every value read keeps the records well formed and the names host names.\<close>

definition dns_config_wf :: "dns_config \<Rightarrow> bool" where
  "dns_config_wf dns \<longleftrightarrow> servers_wf dns \<and> list_all value_is_domain (domains dns)"

lemma dns_config_wf_init [wf_intros]: "dns_config_wf dns_config_init"
  by (simp add: dns_config_wf_def servers_wf_def dns_config_init_def)

lemma map_filter_servers_wf:
  "pton_lengths pton \<Longrightarrow>
   list_all server_wf (List.map_filter (\<lambda>i. map_option (numeric_server i) (item_address pton i)) is)"
  by (induction "is") (auto simp: map_filter_simps numeric_server_wf split: option.split)

lemma filter_items_domains:
  "list_all (item_ok pton) is \<Longrightarrow>
   list_all value_is_domain (filter (\<lambda>i. item_address pton i = None) is)"
  by (induction "is") (auto simp: item_ok_def)

lemma dns_config_wf_add_value [wf_intros]:
  assumes "pton_lengths pton" and "dns_config_wf dns"
    and "dns_config_add_value pton dns s = (ok, dns')"
  shows "dns_config_wf dns'"
proof (cases "list_all (item_ok pton) (value_items s)")
  case True
  with assms map_filter_servers_wf filter_items_domains show ?thesis
    by (auto simp: dns_add_value_eq dns_config_wf_def servers_wf_def)
next
  case False
  with assms show ?thesis by (simp add: dns_add_value_eq)
qed

end
