(* ===== verification/Config.thy ===== *)
theory Config
  imports Dns_Config
begin

text \<open>
  The envelope check of a profile and the construction of the runtime snapshot
  (\<open>amneziawg/config.c\<close>). A configuration is a byte list; the pointers of the code into it are
  the spans between them. The line loop is the recursion \<open>scan_lines\<close>, its body \<open>scan_line\<close>
  on a \<open>scan_state\<close>: what the code keeps in local variables and in its output arguments. A
  \<open>GError\<close> is a \<open>config_error\<close> with the line number kept beside the message instead of printed
  into it. Wiping buffers is not modelled.
\<close>

section \<open>Data\<close>

datatype config_error_code =
  ERROR_INVALID_DATA | ERROR_TOO_LARGE | ERROR_UNSAFE_DIRECTIVE | ERROR_MISSING_STRUCTURE

record config_error =
  err_code :: config_error_code
  err_line :: "nat option"
  err_message :: string

datatype config_section = SECTION_NONE | SECTION_INTERFACE | SECTION_OTHER

record envelope =
  quick_config :: bytes
  env_dns :: dns_config
  interface_line_end :: nat

record scan_state =
  sect :: config_section
  interface_seen :: bool
  quick :: bytes
  scan_dns :: dns_config
  line_end :: nat
  offset :: nat
  line_number :: nat

definition span_equal :: "bytes \<Rightarrow> string \<Rightarrow> bool" where
  "span_equal span text \<longleftrightarrow> length span = length text \<and> ascii_caseless_eq span text"

definition set_parse_error :: "config_error_code \<Rightarrow> nat \<Rightarrow> string \<Rightarrow> config_error + 'a" where
  "set_parse_error c n m = Inl \<lparr>err_code = c, err_line = Some n, err_message = m\<rparr>"

definition set_error_literal :: "config_error_code \<Rightarrow> string \<Rightarrow> config_error + 'a" where
  "set_error_literal c m = Inl \<lparr>err_code = c, err_line = None, err_message = m\<rparr>"

lemmas error_defs = set_parse_error_def set_error_literal_def

definition unsafe_keys :: "string list" where
  "unsafe_keys = [''PreUp'', ''PostUp'', ''PreDown'', ''PostDown'']"

definition is_unsafe_directive :: "bytes \<Rightarrow> bool" where
  "is_unsafe_directive key \<longleftrightarrow> list_ex (span_equal key) unsafe_keys"

definition quick_keys :: "string list" where
  "quick_keys = [''Address'', ''MTU'', ''Table'', ''SaveConfig'']"

definition safe_quick_directive :: "bytes \<Rightarrow> string option" where
  "safe_quick_directive key = List.find (span_equal key) quick_keys"

definition token_is_safe :: "bytes \<Rightarrow> bool" where
  "token_is_safe t \<longleftrightarrow> length t \<noteq> 0 \<and>
     list_all (\<lambda>c. \<not> (ascii_isspace c \<or> c = CHR ''['' \<or> c = CHR '']'' \<or> c = CHR ''='' \<or> c = CHR ''#'')) t"

section \<open>Scanning\<close>

definition scan_section_header ::
  "scan_state \<Rightarrow> bytes \<Rightarrow> config_error + scan_state" where
  "scan_section_header st t =
     (let name = butlast (tl t)
      in if last t \<noteq> CHR '']'' \<or> \<not> token_is_safe name
         then set_parse_error ERROR_INVALID_DATA (line_number st) ''has a malformed section''
         else if span_equal name ''Interface'' then
           (if interface_seen st \<or> sect st \<noteq> SECTION_NONE
            then set_parse_error ERROR_INVALID_DATA (line_number st)
                   ''has a duplicate or misplaced interface section''
            else Inr (st\<lparr>interface_seen := True, sect := SECTION_INTERFACE,
                        line_end := offset st\<rparr>))
         else if \<not> interface_seen st
           then set_parse_error ERROR_INVALID_DATA (line_number st)
                  ''has a section before the interface section''
         else Inr (st\<lparr>sect := SECTION_OTHER\<rparr>))"

text \<open>\<open>sizeof(separator)\<close> is 4: it counts the final NUL that is not appended.\<close>

definition append_quick :: "scan_state \<Rightarrow> string \<Rightarrow> bytes \<Rightarrow> config_error + scan_state" where
  "append_quick st quick_name val =
     (if length val > max_config_size - length quick_name - 4 \<or>
         length (quick st) > max_config_size - length quick_name - 4 - length val
      then set_parse_error ERROR_TOO_LARGE (line_number st) ''has too many quick-only directives''
      else Inr (st\<lparr>quick := quick st @ quick_name @ '' = '' @ val @ [CHR 0x0A]\<rparr>))"

definition scan_directive ::
  "pton \<Rightarrow> scan_state \<Rightarrow> bytes \<Rightarrow> config_error + scan_state" where
  "scan_directive pton st t =
     (if CHR ''='' \<notin> set t \<or> sect st = SECTION_NONE
      then set_parse_error ERROR_INVALID_DATA (line_number st) ''has a malformed directive''
      else let key = trim_span (takeWhile (\<lambda>c. c \<noteq> CHR ''='') t);
               val = trim_span (tl (dropWhile (\<lambda>c. c \<noteq> CHR ''='') t))
           in if \<not> token_is_safe key
              then set_parse_error ERROR_INVALID_DATA (line_number st)
                     ''has an invalid directive name''
              else if is_unsafe_directive key
              then set_parse_error ERROR_UNSAFE_DIRECTIVE (line_number st)
                     ''uses a prohibited command directive''
              else if sect st = SECTION_INTERFACE then
                (if span_equal key ''DNS'' then
                   (case dns_config_add_value pton (scan_dns st) val of
                      (False, _) \<Rightarrow> set_parse_error ERROR_INVALID_DATA (line_number st)
                                      ''has an invalid DNS directive value''
                    | (True, dns) \<Rightarrow> Inr (st\<lparr>scan_dns := dns\<rparr>))
                 else (case safe_quick_directive key of
                         Some quick_name \<Rightarrow> append_quick st quick_name val
                       | None \<Rightarrow> Inr st))
              else Inr st)"

text \<open>One turn of the loop: \<open>line\<close> without its newline, \<open>width\<close> bytes with it.\<close>

definition scan_line ::
  "pton \<Rightarrow> scan_state \<Rightarrow> bytes \<Rightarrow> nat \<Rightarrow> config_error + scan_state" where
  "scan_line pton st0 line width =
     (let st = st0\<lparr>line_number := line_number st0 + 1, offset := offset st0 + width\<rparr>;
          visible = takeWhile (\<lambda>c. c \<noteq> CHR ''#'') line
      in if list_ex (\<lambda>c. byte_val c < 0x20 \<and> c \<noteq> CHR 0x09 \<and> c \<noteq> CHR 0x0D) visible
         then set_parse_error ERROR_INVALID_DATA (line_number st) ''contains unsupported characters''
         else let t = trim_span visible
              in if t = [] then Inr st
                 else if hd t = CHR ''['' then scan_section_header st t
                 else scan_directive pton st t)"

function scan_lines :: "pton \<Rightarrow> scan_state \<Rightarrow> bytes \<Rightarrow> config_error + scan_state" where
  "scan_lines pton st data =
     (if data = [] then Inr st
      else let line = takeWhile (\<lambda>c. c \<noteq> CHR 0x0A) data
           in (case dropWhile (\<lambda>c. c \<noteq> CHR 0x0A) data of
                 [] \<Rightarrow> scan_line pton st line (length line)
               | _ # rest \<Rightarrow>
                   (case scan_line pton st line (length line + 1) of
                      Inl e \<Rightarrow> Inl e
                    | Inr st' \<Rightarrow> scan_lines pton st' rest)))"
  by pat_completeness auto
termination
  by (relation "measure (\<lambda>(p, st, d). length d)") (auto dest: dropWhile_rest_shorter)

declare scan_lines.simps [simp del]

definition scan_init :: scan_state where
  "scan_init = \<lparr>sect = SECTION_NONE, interface_seen = False, quick = [],
     scan_dns = dns_config_init, line_end = 0, offset = 0, line_number = 0\<rparr>"

definition scan_config_envelope :: "pton \<Rightarrow> bytes \<Rightarrow> config_error + scan_state" where
  "scan_config_envelope pton data =
     (if length data > max_config_size
      then set_error_literal ERROR_TOO_LARGE ''configuration exceeds the size limit''
      else if data = [] then set_error_literal ERROR_INVALID_DATA ''configuration is empty''
      else if CHR 0x00 \<in> set data
      then set_error_literal ERROR_INVALID_DATA ''configuration contains binary data''
      else (case scan_lines pton scan_init data of
              Inl e \<Rightarrow> Inl e
            | Inr st \<Rightarrow>
                if \<not> interface_seen st
                then set_error_literal ERROR_MISSING_STRUCTURE
                       ''configuration has no interface section''
                else if length (domains (scan_dns st)) > 0 \<and> length (servers (scan_dns st)) = 0
                then set_error_literal ERROR_INVALID_DATA
                  ''configuration has DNS search domains without a numeric DNS server''
                else Inr st))"

section \<open>Envelopes and snapshots\<close>

definition config_parse_envelope :: "pton \<Rightarrow> bytes \<Rightarrow> config_error + envelope" where
  "config_parse_envelope pton data =
     (case scan_config_envelope pton data of
        Inl e \<Rightarrow> Inl e
      | Inr st \<Rightarrow>
          (case dns_config_measure (scan_dns st) of
             Inl MEASURE_TOO_LARGE \<Rightarrow> set_error_literal ERROR_TOO_LARGE
               ''configuration DNS data exceeds the 256 KiB runtime limit''
           | Inl MEASURE_INVALID \<Rightarrow> set_error_literal ERROR_INVALID_DATA
               ''configuration DNS data cannot be represented safely''
           | Inr _ \<Rightarrow> Inr \<lparr>quick_config = quick st, env_dns = scan_dns st,
                             interface_line_end = line_end st\<rparr>))"

definition config_validate :: "pton \<Rightarrow> bytes \<Rightarrow> config_error + unit" where
  "config_validate pton data =
     (case config_parse_envelope pton data of Inl e \<Rightarrow> Inl e | Inr _ \<Rightarrow> Inr ())"

definition runtime_snapshot_build ::
  "pton \<Rightarrow> bytes \<Rightarrow> envelope \<Rightarrow> nat \<Rightarrow> config_error + bytes" where
  "runtime_snapshot_build pton protocol_config env size_reserve =
     (case scan_config_envelope pton protocol_config of
        Inl e \<Rightarrow> Inl e
      | Inr st \<Rightarrow>
          if length (quick st) > 0 \<or> length (servers (scan_dns st)) > 0 \<or>
             length (domains (scan_dns st)) > 0
          then set_error_literal ERROR_INVALID_DATA
                 ''awg-quick strip output contains quick-only directives''
          else let quick_length = length (quick_config env);
                   protocol_length = length protocol_config;
                   end = line_end st;
                   separator = (if quick_length > 0 \<and> end > 0 \<and>
                                   protocol_config ! (end - 1) \<noteq> CHR 0x0A
                                then [CHR 0x0A] else [])
               in if size_reserve > max_config_size \<or>
                     quick_length > max_config_size - size_reserve \<or>
                     protocol_length > max_config_size - size_reserve - quick_length \<or>
                     length separator >
                       max_config_size - size_reserve - quick_length - protocol_length
                  then set_error_literal ERROR_TOO_LARGE
                         ''runtime configuration exceeds the size limit''
                  else Inr (take end protocol_config @ separator @ quick_config env @
                            drop end protocol_config))"

section \<open>Lines\<close>

abbreviation NL :: byte where "NL \<equiv> CHR 0x0A"

definition res_bind :: "'e + 'a \<Rightarrow> ('a \<Rightarrow> 'e + 'b) \<Rightarrow> 'e + 'b" where
  "res_bind r f = (case r of Inl e \<Rightarrow> Inl e | Inr x \<Rightarrow> f x)"

lemma res_bind_simps [simp]: "res_bind (Inl e) f = Inl e" "res_bind (Inr x) f = f x"
  by (simp_all add: res_bind_def)

lemma res_bind_Inr: "res_bind r f = Inr y \<longleftrightarrow> (\<exists>x. r = Inr x \<and> f x = Inr y)"
  by (cases r) simp_all

lemma dropWhile_NL: "NL \<notin> set l \<Longrightarrow> dropWhile (\<lambda>c. c \<noteq> NL) l = []"
  by auto

lemma scan_lines_Nil [simp]: "scan_lines pton st [] = Inr st"
  by (simp add: scan_lines.simps)

lemma scan_lines_last:
  "NL \<notin> set l \<Longrightarrow> l \<noteq> [] \<Longrightarrow> scan_lines pton st l = scan_line pton st l (length l)"
proof -
  assume "NL \<notin> set l" and ne: "l \<noteq> []"
  then have "takeWhile (\<lambda>c. c \<noteq> NL) l = l" and "dropWhile (\<lambda>c. c \<noteq> NL) l = []"
    by (auto simp: takeWhile_eq_all_conv)
  with ne show ?thesis by (subst scan_lines.simps) (simp only: Let_def list.case if_False)
qed

lemma scan_lines_Cons:
  assumes "NL \<notin> set l"
  shows "scan_lines pton st (l @ NL # rest) =
    res_bind (scan_line pton st l (length l + 1)) (\<lambda>st'. scan_lines pton st' rest)"
proof -
  have "takeWhile (\<lambda>c. c \<noteq> NL) (l @ NL # rest) = l" and "dropWhile (\<lambda>c. c \<noteq> NL) (l @ NL # rest) = NL # rest"
    using assms by (induction l) auto
  then show ?thesis by (subst scan_lines.simps) (simp add: res_bind_def)
qed

lemma lines_induct [case_names Nil Last Cons]:
  assumes "P []" and "\<And>l. NL \<notin> set l \<Longrightarrow> l \<noteq> [] \<Longrightarrow> P l"
    and "\<And>l rest. NL \<notin> set l \<Longrightarrow> P rest \<Longrightarrow> P (l @ NL # rest)"
  shows "P (data :: bytes)"
proof (induction data rule: length_induct)
  case (1 data)
  show ?case
  proof (cases "NL \<in> set data")
    case True
    then obtain l rest where "data = l @ NL # rest" "NL \<notin> set l" by (metis split_list_first)
    with 1 assms(3) show ?thesis by simp
  next
    case False
    with assms(1,2) show ?thesis by blast
  qed
qed

lemma scan_lines_append:
  "scan_lines pton st (a @ NL # b) =
     res_bind (scan_lines pton st (a @ [NL])) (\<lambda>st'. scan_lines pton st' b)"
proof (induction a arbitrary: st rule: lines_induct)
  case Nil
  then show ?case using scan_lines_Cons [of "[]"] by (simp add: res_bind_def split: sum.split)
next
  case (Last l)
  then show ?case by (simp add: scan_lines_Cons res_bind_def split: sum.split)
next
  case (Cons l rest)
  then show ?case
    by (simp add: scan_lines_Cons res_bind_def split: sum.split)
qed

lemma res_bind_assoc: "res_bind (res_bind r f) g = res_bind r (\<lambda>x. res_bind (f x) g)"
  by (cases r) simp_all

section \<open>What one line does\<close>

lemma append_quick_Inr:
  "length n \<le> 10 \<Longrightarrow> append_quick st n v = Inr st' \<longleftrightarrow>
     length (quick st) + length n + length v + 4 \<le> max_config_size \<and>
     st' = st\<lparr>quick := quick st @ n @ '' = '' @ v @ [NL]\<rparr>"
  by (auto simp: append_quick_def error_defs max_config_size_def)

lemma append_quick_grows:
  "append_quick st n v = Inr st' \<Longrightarrow> st' = st\<lparr>quick := quick st @ n @ '' = '' @ v @ [NL]\<rparr>"
  by (auto simp: append_quick_def error_defs split: if_splits)

lemmas scan_defs = scan_line_def scan_section_header_def scan_directive_def Let_def error_defs

lemma scan_line_frame:
  assumes "scan_line pton st l w = Inr st'"
  shows "offset st' = offset st + w" and "line_number st' = line_number st + 1"
    and "interface_seen st \<Longrightarrow> interface_seen st'" and "interface_seen st \<Longrightarrow> line_end st' = line_end st"
    and "length (quick st) \<le> length (quick st')"
  using assms
  by (auto simp: scan_defs dest!: append_quick_grows
      split: if_splits option.splits prod.splits bool.splits)

section \<open>No command hooks\<close>

text \<open>The directive name on a line, if the line has one.\<close>

definition line_key :: "bytes \<Rightarrow> bytes option" where
  "line_key line =
     (let t = trim_span (takeWhile (\<lambda>c. c \<noteq> CHR ''#'') line)
      in if t = [] \<or> hd t = CHR ''['' \<or> CHR ''='' \<notin> set t then None
         else Some (trim_span (takeWhile (\<lambda>c. c \<noteq> CHR ''='') t)))"

definition hook_line :: "bytes \<Rightarrow> bool" where
  "hook_line line = (case line_key line of None \<Rightarrow> False
     | Some k \<Rightarrow> map ascii_tolower k \<in> {''preup'', ''postup'', ''predown'', ''postdown''})"

lemma hook_key:
  "map ascii_tolower k \<in> {''preup'', ''postup'', ''predown'', ''postdown''} \<longleftrightarrow> is_unsafe_directive k"
proof -
  have names: "map (map ascii_tolower) unsafe_keys = [''preup'', ''postup'', ''predown'', ''postdown'']"
    by code_simp
  have "is_unsafe_directive k \<longleftrightarrow> map ascii_tolower k \<in> set (map (map ascii_tolower) unsafe_keys)"
    by (auto simp: is_unsafe_directive_def span_equal_def ascii_caseless_eq_def list_ex_iff dest: map_eq_imp_length_eq)
  then show ?thesis by (simp add: names)
qed

lemma scan_line_no_hook: "scan_line pton st l w = Inr st' \<Longrightarrow> \<not> hook_line l"
  by (auto simp: hook_line_def hook_key line_key_def scan_line_def scan_directive_def Let_def error_defs
      simp del: insert_iff split: if_splits)

lemma scan_lines_no_hook:
  "scan_lines pton st data = Inr st' \<Longrightarrow> list_all (\<lambda>l. \<not> hook_line l) (split_on NL data)"
proof (induction data arbitrary: st rule: lines_induct)
  case Nil
  then show ?case by (simp add: hook_line_def line_key_def)
next
  case (Last l)
  then show ?case by (simp add: split_on_no_sep scan_lines_last scan_line_no_hook)
next
  case (Cons l rest)
  then show ?case
    by (auto simp: split_on_append scan_lines_Cons res_bind_Inr scan_line_no_hook)
qed

lemma config_parse_envelope_Inr:
  "config_parse_envelope pton data = Inr env \<longleftrightarrow>
     (\<exists>st. scan_config_envelope pton data = Inr st \<and> (\<exists>n. dns_config_measure (scan_dns st) = Inr n) \<and>
        env = \<lparr>quick_config = quick st, env_dns = scan_dns st, interface_line_end = line_end st\<rparr>)"
  by (auto simp: config_parse_envelope_def error_defs split: sum.splits measure_error.splits)

lemma scan_config_envelope_Inr:
  "scan_config_envelope pton data = Inr st \<longleftrightarrow>
     length data \<le> max_config_size \<and> data \<noteq> [] \<and> CHR 0x00 \<notin> set data \<and>
     scan_lines pton scan_init data = Inr st \<and> interface_seen st \<and>
     (domains (scan_dns st) = [] \<or> servers (scan_dns st) \<noteq> [])"
  by (auto simp: scan_config_envelope_def error_defs split: sum.splits if_splits)

text \<open>
  C4. No command hook gets past the envelope check: if a configuration is accepted, then no line
  of it, with its comment and white space removed, assigns to \<open>PreUp\<close>, \<open>PostUp\<close>, \<open>PreDown\<close>
  or \<open>PostDown\<close> in any capitalization and in any section.
\<close>

theorem validated_config_has_no_hooks:
  assumes "config_validate pton data = Inr ()"
  shows "list_all (\<lambda>line. \<not> hook_line line) (split_on NL data)"
proof -
  from assms obtain st where "scan_config_envelope pton data = Inr st"
    by (auto simp: config_validate_def config_parse_envelope_Inr split: sum.splits)
  then show ?thesis by (auto simp: scan_config_envelope_Inr intro: scan_lines_no_hook)
qed

theorem validated_config_has_no_hooks_witness:
  "list_all (\<lambda>line. \<not> hook_line line)
     (split_on NL (''[Interface]'' @ [NL] @ ''MTU = 1280 # PostUp = x'' @ [NL] @ ''[Peer]''))"
proof (rule validated_config_has_no_hooks)
  show "config_validate (\<lambda>f s. None)
      (''[Interface]'' @ [NL] @ ''MTU = 1280 # PostUp = x'' @ [NL] @ ''[Peer]'') = Inr ()"
    by code_simp
qed


section \<open>Where the interface section begins\<close>

definition plain_line :: "bytes \<Rightarrow> bool" where
  "plain_line l \<longleftrightarrow> \<not> list_ex (\<lambda>c. byte_val c < 0x20 \<and> c \<noteq> CHR 0x09 \<and> c \<noteq> CHR 0x0D)
     (takeWhile (\<lambda>c. c \<noteq> CHR ''#'') l)"

definition line_text :: "bytes \<Rightarrow> bytes" where
  "line_text l = trim_span (takeWhile (\<lambda>c. c \<noteq> CHR ''#'') l)"

definition header_line :: "bytes \<Rightarrow> bool" where
  "header_line l \<longleftrightarrow> plain_line l \<and> line_text l \<noteq> [] \<and> hd (line_text l) = CHR ''['' \<and>
     last (line_text l) = CHR '']'' \<and> token_is_safe (butlast (tl (line_text l))) \<and>
     span_equal (butlast (tl (line_text l))) ''Interface''"

definition advance :: "scan_state \<Rightarrow> nat \<Rightarrow> scan_state" where
  "advance st w = st\<lparr>line_number := line_number st + 1, offset := offset st + w\<rparr>"

definition header_state :: "scan_state \<Rightarrow> nat \<Rightarrow> scan_state" where
  "header_state st w = (advance st w)\<lparr>sect := SECTION_INTERFACE, interface_seen := True,
     line_end := offset st + w\<rparr>"

lemma scan_line_eq:
  "scan_line pton st l w =
     (if \<not> plain_line l
      then set_parse_error ERROR_INVALID_DATA (line_number st + 1) ''contains unsupported characters''
      else if line_text l = [] then Inr (advance st w)
      else if hd (line_text l) = CHR ''['' then scan_section_header (advance st w) (line_text l)
      else scan_directive pton (advance st w) (line_text l))"
  by (simp add: scan_line_def plain_line_def line_text_def advance_def Let_def)

lemma advance_simps [simp]:
  "sect (advance st w) = sect st" "interface_seen (advance st w) = interface_seen st"
  "quick (advance st w) = quick st" "scan_dns (advance st w) = scan_dns st"
  "line_end (advance st w) = line_end st" "offset (advance st w) = offset st + w"
  "line_number (advance st w) = line_number st + 1"
  by (simp_all add: advance_def)

lemma header_line_not_Nil: "header_line l \<Longrightarrow> l \<noteq> []"
  by (auto simp: header_line_def line_text_def)

lemma scan_line_header:
  "header_line l \<Longrightarrow> sect st = SECTION_NONE \<Longrightarrow> \<not> interface_seen st \<Longrightarrow>
   scan_line pton st l w = Inr (header_state st w)"
  by (simp add: scan_line_eq header_line_def scan_section_header_def Let_def header_state_def)

lemma scan_line_before_header:
  assumes "scan_line pton st l w = Inr st'" and "sect st = SECTION_NONE" and "\<not> interface_seen st"
  shows "st' = advance st w \<or> header_line l"
  using assms
  by (auto simp: scan_line_eq header_line_def scan_section_header_def scan_directive_def Let_def
      error_defs split: if_splits)

text \<open>
  A scan that finds the interface section splits at its header line \<open>h\<close>: blank lines \<open>pre\<close>,
  the header, and the rest \<open>rst\<close>, scanned from the state the header leaves.
\<close>

definition header_split ::
  "pton \<Rightarrow> scan_state \<Rightarrow> bytes \<Rightarrow> scan_state \<Rightarrow> bytes \<Rightarrow> bytes \<Rightarrow> bytes \<Rightarrow> scan_state \<Rightarrow> bool" where
  "header_split pton st p st' pre h rst st0 \<longleftrightarrow>
     p = pre @ h @ rst \<and> NL \<notin> set h \<and> header_line h \<and> (pre = [] \<or> last pre = NL) \<and>
     scan_lines pton st pre = Inr st0 \<and> sect st0 = SECTION_NONE \<and> \<not> interface_seen st0 \<and>
     quick st0 = quick st \<and> scan_dns st0 = scan_dns st \<and> offset st0 = offset st + length pre \<and>
     (rst = [] \<and> st' = header_state st0 (length h) \<or>
      (\<exists>b. rst = NL # b \<and> scan_lines pton (header_state st0 (length h + 1)) b = Inr st'))"

lemma header_split_here:
  assumes "header_line h" and "NL \<notin> set h" and "sect st = SECTION_NONE" and "\<not> interface_seen st"
  shows "scan_lines pton st h = Inr st' \<Longrightarrow> header_split pton st h st' [] h [] st"
    and "scan_lines pton st (h @ NL # b) = Inr st' \<Longrightarrow> header_split pton st (h @ NL # b) st' [] h (NL # b) st"
  using assms header_line_not_Nil [OF assms(1)]
  by (simp_all add: header_split_def scan_lines_last scan_lines_Cons scan_line_header)

lemma header_split_later:
  assumes "scan_line pton st l (length l + 1) = Inr (advance st (length l + 1))" and "NL \<notin> set l"
    and "header_split pton (advance st (length l + 1)) rest st' pre h rst st0"
  shows "header_split pton st (l @ NL # rest) st' (l @ NL # pre) h rst st0"
  using assms by (auto simp: header_split_def scan_lines_Cons)

lemma scan_lines_split_header:
  "scan_lines pton st p = Inr st' \<Longrightarrow> sect st = SECTION_NONE \<Longrightarrow> \<not> interface_seen st \<Longrightarrow>
   interface_seen st' \<Longrightarrow> \<exists>pre h rst st0. header_split pton st p st' pre h rst st0"
proof (induction p arbitrary: st rule: lines_induct)
  case Nil
  then show ?case by simp
next
  case (Last l)
  then have "scan_line pton st l (length l) = Inr st'" by (simp add: scan_lines_last)
  from scan_line_before_header [OF this] Last have "header_line l" by auto
  with Last header_split_here(1) show ?case by blast
next
  case (Cons l rest)
  then obtain st1 where l: "scan_line pton st l (length l + 1) = Inr st1"
    and rest: "scan_lines pton st1 rest = Inr st'"
    by (auto simp: scan_lines_Cons res_bind_Inr)
  show ?case
  proof (cases "header_line l")
    case True
    with Cons header_split_here(2) show ?thesis by blast
  next
    case False
    with scan_line_before_header [OF l] Cons.prems have "st1 = advance st (length l + 1)" by blast
    moreover from this Cons.IH [OF rest] Cons.prems
    obtain pre h rst st0 where "header_split pton st1 rest st' pre h rst st0" by auto
    ultimately show ?thesis using header_split_later l Cons.hyps by blast
  qed
qed

section \<open>The quick-only lines of an envelope\<close>

definition clean_value :: "bytes \<Rightarrow> bool" where
  "clean_value v \<longleftrightarrow> trim_span v = v \<and> NL \<notin> set v \<and> CHR ''#'' \<notin> set v \<and> CHR 0x00 \<notin> set v \<and>
     \<not> list_ex (\<lambda>c. byte_val c < 0x20 \<and> c \<noteq> CHR 0x09 \<and> c \<noteq> CHR 0x0D) v"

definition quick_line :: "string \<times> bytes \<Rightarrow> bytes" where
  "quick_line nv = fst nv @ '' = '' @ snd nv"

definition quick_lines :: "(string \<times> bytes) list \<Rightarrow> bytes" where
  "quick_lines nvs = concat (map (\<lambda>nv. quick_line nv @ [NL]) nvs)"

definition quick_entry :: "string \<times> bytes \<Rightarrow> bool" where
  "quick_entry nv \<longleftrightarrow> fst nv \<in> set quick_keys \<and> clean_value (snd nv)"

definition quick_wf :: "bytes \<Rightarrow> bool" where
  "quick_wf q \<longleftrightarrow> (\<exists>nvs. list_all quick_entry nvs \<and> q = quick_lines nvs)"

lemma quick_wf_Nil [wf_intros]: "quick_wf []"
  by (auto simp: quick_wf_def quick_lines_def intro: exI [of _ "[]"])

lemma quick_wf_snoc [wf_intros]:
  "quick_wf q \<Longrightarrow> n \<in> set quick_keys \<Longrightarrow> clean_value v \<Longrightarrow> quick_wf (q @ n @ '' = '' @ v @ [NL])"
  unfolding quick_wf_def
  by (elim exE conjE, rule_tac x = "nvs @ [(n, v)]" in exI)
    (simp add: quick_lines_def quick_line_def quick_entry_def)

lemma plain_line_control:
  "plain_line l \<Longrightarrow> c \<in> set (line_text l) \<Longrightarrow> \<not> (byte_val c < 0x20 \<and> c \<noteq> CHR 0x09 \<and> c \<noteq> CHR 0x0D)"
  using set_trim_span [of "takeWhile (\<lambda>c. c \<noteq> CHR ''#'') l"]
  by (auto simp: plain_line_def line_text_def list_ex_iff)

lemma line_text_no_comment: "CHR ''#'' \<notin> set (line_text l)"
  using set_trim_span [of "takeWhile (\<lambda>c. c \<noteq> CHR ''#'') l"]
  by (auto simp: line_text_def dest: set_takeWhileD)

lemma set_line_text: "set (line_text l) \<subseteq> set l"
  using set_trim_span [of "takeWhile (\<lambda>c. c \<noteq> CHR ''#'') l"]
  by (auto simp: line_text_def dest: set_takeWhileD)

lemma clean_value_of_line:
  assumes "plain_line l"
  shows "clean_value (trim_span (tl (dropWhile P (line_text l))))"
proof -
  let ?v = "trim_span (tl (dropWhile P (line_text l)))"
  have sub: "set ?v \<subseteq> set (line_text l)"
  proof -
    have "set (tl xs) \<subseteq> set xs" for xs :: bytes by (cases xs) auto
    then have "set (tl (dropWhile P (line_text l))) \<subseteq> set (line_text l)"
      using set_dropWhileD [of _ P "line_text l"] by blast
    with set_trim_span show ?thesis by (rule order_trans)
  qed
  then have ctl: "\<not> (byte_val c < 0x20 \<and> c \<noteq> CHR 0x09 \<and> c \<noteq> CHR 0x0D)" if "c \<in> set ?v" for c
    using plain_line_control [OF assms] that by blast
  have "NL \<notin> set ?v" "CHR 0x00 \<notin> set ?v" using ctl by fastforce+
  moreover have "CHR ''#'' \<notin> set ?v" using sub line_text_no_comment by blast
  ultimately show ?thesis using ctl by (simp add: clean_value_def list_ex_iff)
qed

lemma safe_quick_directive_key: "safe_quick_directive k = Some n \<Longrightarrow> n \<in> set quick_keys"
  by (auto simp: safe_quick_directive_def find_Some_iff)

lemma scan_line_quick_wf [wf_intros]:
  assumes "scan_line pton st l w = Inr st'" and "quick_wf (quick st)"
  shows "quick_wf (quick st')"
  using assms
  by (auto simp: scan_line_eq scan_section_header_def scan_directive_def Let_def error_defs
      dest!: append_quick_grows safe_quick_directive_key
      intro!: quick_wf_snoc [simplified] clean_value_of_line
      split: if_splits option.splits prod.splits bool.splits)

lemma scan_lines_quick_wf [wf_intros]:
  "scan_lines pton st data = Inr st' \<Longrightarrow> quick_wf (quick st) \<Longrightarrow> quick_wf (quick st')"
proof (induction data arbitrary: st rule: lines_induct)
  case (Last l)
  then show ?case by (auto simp: scan_lines_last intro: wf_intros)
next
  case (Cons l rest)
  then show ?case by (auto simp: scan_lines_Cons res_bind_Inr intro: wf_intros)
qed simp

lemma quick_wf_no_nul: "quick_wf q \<Longrightarrow> CHR 0x00 \<notin> set q"
proof -
  have "CHR 0x00 \<notin> set (quick_lines nvs)" if "list_all quick_entry nvs" for nvs
    using that
  proof (induction nvs)
    case (Cons nv nvs)
    have "CHR 0x00 \<notin> set n" if "n \<in> set quick_keys" for n
      using that by (auto simp: quick_keys_def)
    with Cons show ?case
      by (auto simp: quick_lines_def quick_line_def quick_entry_def clean_value_def)
  qed (simp add: quick_lines_def)
  moreover assume "quick_wf q"
  ultimately show ?thesis by (auto simp: quick_wf_def)
qed

section \<open>Scanning the quick-only lines again\<close>

lemma quick_keys_props:
  "n \<in> set quick_keys \<Longrightarrow> length n \<le> 10 \<and> n \<noteq> [] \<and> list_all ascii_isalnum n \<and>
     safe_quick_directive n = Some n \<and> \<not> is_unsafe_directive n \<and> \<not> span_equal n ''DNS'' \<and>
     token_is_safe n"
  by (auto simp: quick_keys_def)
    (code_simp+)


lemma list_ex_append_iff [simp]: "list_ex P (xs @ ys) \<longleftrightarrow> list_ex P xs \<or> list_ex P ys"
  by (auto simp: list_ex_iff)

lemma quick_key_no_control:
  "n \<in> set quick_keys \<Longrightarrow> \<not> list_ex (\<lambda>c. byte_val c < 0x20 \<and> c \<noteq> CHR 0x09 \<and> c \<noteq> CHR 0x0D) n \<and>
    CHR ''#'' \<notin> set n \<and> CHR ''='' \<notin> set n \<and> NL \<notin> set n \<and> CHR 0x00 \<notin> set n \<and>
    hd n \<noteq> CHR ''['' \<and> \<not> ascii_isspace (hd n) \<and> \<not> ascii_isspace (last n)"
  by (auto simp: quick_keys_def ascii_class_defs)

text \<open>The visible text of a quick-only line; an empty value leaves no blank after the sign.\<close>

lemma quick_line_text:
  assumes "quick_entry (n, v)"
  shows "line_text (quick_line (n, v)) = n @ '' ='' @ (if v = [] then [] else CHR '' '' # v)"
proof -
  have nv: "n \<in> set quick_keys" "clean_value v" using assms by (simp_all add: quick_entry_def)
  note n = quick_keys_props [OF nv(1)] quick_key_no_control [OF nv(1)]
  have "takeWhile (\<lambda>c. c \<noteq> CHR ''#'') (quick_line (n, v)) = quick_line (n, v)"
    using n nv(2) by (auto simp: takeWhile_eq_all_conv quick_line_def clean_value_def)
  moreover have "trim_span (quick_line (n, v)) =
      n @ '' ='' @ (if v = [] then [] else CHR '' '' # v)"
  proof (cases "v = []")
    case True
    have "dropWhile ascii_isspace (n @ '' = '') = n @ '' = ''"
      using n by (cases n) auto
    with True show ?thesis by (simp add: quick_line_def trim_span_def ascii_class_defs)
  next
    case False
    with nv(2) have "\<not> ascii_isspace (last v)" using trim_span_last [of v] by (simp add: clean_value_def)
    with False n show ?thesis
      by (subst trim_span_id) (auto simp: quick_line_def)
  qed
  ultimately show ?thesis by (simp only: line_text_def)
qed

lemma takeWhile_dropWhile_sep:
  "x \<notin> set a \<Longrightarrow> takeWhile (\<lambda>c. c \<noteq> x) (a @ x # b) = a \<and> dropWhile (\<lambda>c. c \<noteq> x) (a @ x # b) = x # b"
  by (induction a) auto

lemma scan_quick_line:
  assumes q: "quick_entry (n, v)" and sect: "sect st = SECTION_INTERFACE"
  shows "scan_line pton st (quick_line (n, v)) w = append_quick (advance st w) n v"
proof -
  have nv: "n \<in> set quick_keys" "clean_value v" using q by (simp_all add: quick_entry_def)
  note n = quick_keys_props [OF nv(1)] quick_key_no_control [OF nv(1)]
  let ?t = "n @ '' ='' @ (if v = [] then [] else CHR '' '' # v)"
  have plain: "plain_line (quick_line (n, v))"
    using n nv(2)
    by (auto simp: plain_line_def quick_line_def clean_value_def list_ex_iff dest!: set_takeWhileD)
  have split: "takeWhile (\<lambda>c. c \<noteq> CHR ''='') ?t = n @ '' ''"
    "dropWhile (\<lambda>c. c \<noteq> CHR ''='') ?t = CHR ''='' # (if v = [] then [] else CHR '' '' # v)"
    using takeWhile_dropWhile_sep [of "CHR ''=''" "n @ '' ''"] n by simp_all
  have key: "trim_span (n @ '' '') = n"
  proof -
    have "dropWhile ascii_isspace (n @ '' '') = n @ '' ''" using n by (cases n) auto
    moreover have "dropWhile ascii_isspace (rev n) = rev n"
      using n by (auto simp: dropWhile_eq_self_iff hd_rev)
    ultimately show ?thesis by (simp add: trim_span_def ascii_class_defs)
  qed
  have val: "trim_span (if v = [] then [] else CHR '' '' # v) = v"
  proof -
    have "trim_span (CHR '' '' # v) = trim_span v" by (simp add: trim_span_def ascii_class_defs)
    with nv(2) show ?thesis by (simp add: clean_value_def)
  qed
  have "scan_directive pton (advance st w) ?t = append_quick (advance st w) n v"
    using n sect by (simp only: scan_directive_def split key val Let_def list.sel) simp
  then show ?thesis
    using plain n by (simp add: scan_line_eq quick_line_text [OF q])
qed

lemma quick_line_no_NL: "quick_entry nv \<Longrightarrow> NL \<notin> set (quick_line nv)"
  by (cases nv) (auto simp: quick_entry_def quick_line_def clean_value_def dest: quick_key_no_control)

lemma scan_quick_lines:
  "list_all quick_entry nvs \<Longrightarrow> sect st = SECTION_INTERFACE \<Longrightarrow>
   length (quick st) + length (quick_lines nvs) \<le> max_config_size \<Longrightarrow>
   scan_lines pton st (quick_lines nvs @ rest) =
     scan_lines pton (st\<lparr>quick := quick st @ quick_lines nvs,
       offset := offset st + length (quick_lines nvs),
       line_number := line_number st + length nvs\<rparr>) rest"
proof (induction nvs arbitrary: st)
  case Nil
  then show ?case by (simp add: quick_lines_def)
next
  case (Cons nv nvs)
  obtain n v where nv: "nv = (n, v)" by (cases nv)
  with Cons.prems have q: "quick_entry (n, v)" by simp
  then have n: "length n \<le> 10" using quick_keys_props by (auto simp: quick_entry_def)
  let ?w = "length (quick_line (n, v)) + 1"
  let ?st = "(advance st ?w)\<lparr>quick := quick st @ quick_line (n, v) @ [NL]\<rparr>"
  have "append_quick (advance st ?w) n v = Inr ?st"
    using Cons.prems(3) n
    by (simp add: append_quick_Inr nv quick_lines_def quick_line_def)
  then have "scan_lines pton st (quick_lines (nv # nvs) @ rest) = scan_lines pton ?st (quick_lines nvs @ rest)"
    using scan_lines_Cons [OF quick_line_no_NL [OF q], of pton st] scan_quick_line [OF q Cons.prems(2)]
    by (simp add: quick_lines_def nv)
  also have "\<dots> = scan_lines pton (?st\<lparr>quick := quick ?st @ quick_lines nvs,
       offset := offset ?st + length (quick_lines nvs),
       line_number := line_number ?st + length nvs\<rparr>) rest"
    using Cons.prems by (intro Cons.IH) (simp_all add: nv quick_lines_def)
  finally show ?case
    by (simp add: nv quick_lines_def advance_def ac_simps)
qed


section \<open>The rest of the protocol configuration\<close>

text \<open>
  After the header, a scan that adds no quick-only line does the same from a state that differs
  in its quick-only lines and its position.
\<close>

definition shifted :: "scan_state \<Rightarrow> bytes \<Rightarrow> nat \<Rightarrow> nat \<Rightarrow> nat \<Rightarrow> scan_state" where
  "shifted st q o' n e = st\<lparr>quick := q, offset := o', line_number := n, line_end := e\<rparr>"

lemma scan_line_shifted:
  assumes "scan_line pton st l w = Inr st'" and "interface_seen st" and "quick st' = quick st"
  shows "scan_line pton (shifted st q off n e) l w = Inr (shifted st' q (off + w) (n + 1) e)"
  using assms
  by (auto simp: scan_line_eq scan_section_header_def scan_directive_def Let_def error_defs
      shifted_def advance_def dest!: append_quick_grows
      split: if_splits option.splits prod.splits bool.splits)

lemma scan_lines_quick_mono:
  "scan_lines pton st d = Inr st' \<Longrightarrow> length (quick st) \<le> length (quick st') \<and>
     (interface_seen st \<longrightarrow> interface_seen st')"
proof (induction d arbitrary: st rule: lines_induct)
  case (Last l)
  then show ?case using scan_line_frame by (simp add: scan_lines_last)
next
  case (Cons l rest)
  then obtain st1 where "scan_line pton st l (length l + 1) = Inr st1"
    and "scan_lines pton st1 rest = Inr st'" by (auto simp: scan_lines_Cons res_bind_Inr)
  with Cons.IH [of st1] scan_line_frame show ?case by (meson order_trans)
qed simp

lemma scan_lines_line_end:
  "scan_lines pton st d = Inr st' \<Longrightarrow> interface_seen st \<Longrightarrow> line_end st' = line_end st"
proof (induction d arbitrary: st rule: lines_induct)
  case (Last l)
  then show ?case using scan_line_frame(4) by (simp add: scan_lines_last)
next
  case (Cons l rest)
  then obtain st1 where "scan_line pton st l (length l + 1) = Inr st1"
    and "scan_lines pton st1 rest = Inr st'" by (auto simp: scan_lines_Cons res_bind_Inr)
  with Cons scan_line_frame(3,4) show ?case by metis
qed simp

lemma scan_line_quick_same:
  "scan_line pton st l w = Inr st' \<Longrightarrow> length (quick st') \<le> length (quick st) \<Longrightarrow> quick st' = quick st"
  by (auto simp: scan_line_eq scan_section_header_def scan_directive_def Let_def error_defs
      dest!: append_quick_grows split: if_splits option.splits prod.splits bool.splits)

lemma scan_lines_shifted:
  "scan_lines pton st d = Inr st' \<Longrightarrow> interface_seen st \<Longrightarrow> quick st' = quick st \<Longrightarrow>
   \<exists>off' n'. scan_lines pton (shifted st q off n e) d = Inr (shifted st' q off' n' e)"
proof (induction d arbitrary: st off n rule: lines_induct)
  case Nil
  then show ?case by auto
next
  case (Last l)
  then show ?case using scan_line_shifted by (simp add: scan_lines_last) blast
next
  case (Cons l rest)
  then obtain st1 where l: "scan_line pton st l (length l + 1) = Inr st1"
    and rest: "scan_lines pton st1 rest = Inr st'" by (auto simp: scan_lines_Cons res_bind_Inr)
  have q: "quick st1 = quick st"
    using scan_line_quick_same [OF l] scan_lines_quick_mono [OF rest] Cons.prems(3) by simp
  have "scan_line pton (shifted st q off n e) l (length l + 1) =
      Inr (shifted st1 q (off + (length l + 1)) (n + 1) e)"
    using l Cons.prems(2) q by (rule scan_line_shifted)
  moreover have "interface_seen st1" using scan_line_frame(3) [OF l] Cons.prems(2) by simp
  ultimately show ?case
    using Cons.IH [OF rest, of "off + (length l + 1)" "n + 1"] Cons q by (simp add: scan_lines_Cons)
qed

text \<open>Inserting well-formed quick-only lines right after the header of a clean configuration.\<close>

lemma scan_snapshot:
  assumes p: "scan_lines pton scan_init p = Inr st'" and seen: "interface_seen st'"
    and none: "quick st' = []" and q: "quick_wf q"
    and max: "length q \<le> max_config_size"
  shows "\<exists>st. scan_lines pton scan_init
      (take (line_end st') p @ (if q \<noteq> [] \<and> line_end st' > 0 \<and> p ! (line_end st' - 1) \<noteq> NL then [NL] else []) @
       q @ drop (line_end st') p) = Inr st \<and>
    quick st = q \<and> scan_dns st = scan_dns st' \<and> interface_seen st"
proof -
  obtain pre h rst st0 where hs: "header_split pton scan_init p st' pre h rst st0"
    using scan_lines_split_header [OF p _ _ seen] by (auto simp: scan_init_def)
  then have h: "NL \<notin> set h" "header_line h" "p = pre @ h @ rst" "scan_lines pton scan_init pre = Inr st0"
    "sect st0 = SECTION_NONE" "\<not> interface_seen st0" "quick st0 = []" "offset st0 = length pre"
    "pre = [] \<or> last pre = NL" "scan_dns st0 = dns_config_init"
    by (auto simp: header_split_def scan_init_def)
  have hn: "h \<noteq> []" using h(2) header_line_not_Nil by blast
  obtain nvs where nvs: "list_all quick_entry nvs" "q = quick_lines nvs"
    using q by (auto simp: quick_wf_def)
  have pre: "scan_lines pton scan_init (pre @ x) = scan_lines pton st0 x" for x
  proof (cases "pre = []")
    case False
    then obtain a where "pre = a @ [NL]" using h(9) by (metis append_butlast_last_id)
    then show ?thesis using scan_lines_append [of pton scan_init a x] h(4) by simp
  qed (use h(4) in simp)
  let ?w = "length h + 1"
  have head: "scan_lines pton scan_init (pre @ h @ NL # x) = scan_lines pton (header_state st0 ?w) x"
    for x
    using scan_lines_Cons [OF h(1)] scan_line_header [OF h(2,5,6)] by (simp add: pre)
  have ins: "scan_lines pton (header_state st0 ?w) (q @ x) =
      scan_lines pton (shifted (header_state st0 ?w) q (length pre + ?w + length q)
        (line_number st0 + 1 + length nvs) (length pre + ?w)) x" for x
    using scan_quick_lines [OF nvs(1), of "header_state st0 ?w" pton x] max h(7,8)
    by (cases st0) (simp add: nvs(2) header_state_def shifted_def advance_def)
  show ?thesis
  proof (cases "rst")
    case Nil
    with hs have st': "st' = header_state st0 (length h)" by (simp add: header_split_def)
    then have e: "line_end st' = length p" using h Nil by (simp add: header_state_def)
    have last: "p ! (length p - 1) \<noteq> NL"
    proof -
      have "p \<noteq> []" and "last p \<in> set h" using hn h(3) Nil by auto
      with h(1) show ?thesis by (auto simp: last_conv_nth)
    qed
    have len: "length p > 0" using hn h(3) by simp
    have "scan_lines pton scan_init (p @ NL # q) = Inr (shifted (header_state st0 ?w) q
        (length pre + ?w + length q) (line_number st0 + 1 + length nvs) (length pre + ?w))"
      using head [of q] ins [of "[]"] h(3) Nil by simp
    with p seen none e last len h(7,10) st' show ?thesis
      by (cases "q = []") (auto simp: header_state_def shifted_def)
  next
    case (Cons c b)
    with hs have b: "c = NL" "scan_lines pton (header_state st0 ?w) b = Inr st'"
      by (auto simp: header_split_def)
    have seen1: "interface_seen (header_state st0 ?w)" by (simp add: header_state_def)
    have "line_end st' = length pre + ?w"
      using scan_lines_line_end [OF b(2) seen1] h(8) by (simp add: header_state_def)
    then have e: "take (line_end st') p = pre @ h @ [NL]" "drop (line_end st') p = b"
      "p ! (line_end st' - 1) = NL"
      using h(3) Cons b(1) by (simp_all add: nth_append)
    obtain off n where "scan_lines pton (shifted (header_state st0 ?w) q (length pre + ?w + length q)
        (line_number st0 + 1 + length nvs) (length pre + ?w)) b =
        Inr (shifted st' q off n (length pre + ?w))"
      using scan_lines_shifted [OF b(2) seen1] none h(7) by (force simp: header_state_def)
    then have "scan_lines pton scan_init (pre @ h @ NL # q @ b) =
        Inr (shifted st' q off n (length pre + ?w))"
      unfolding head ins .
    with e seen show ?thesis by (simp add: shifted_def)
  qed
qed


text \<open>
  C27. The runtime snapshot can be trusted like the profile it came from. When \<open>awg-quick strip\<close>
  output and the envelope of an accepted profile are combined, the result keeps within the size
  limit less the reserve, passes the envelope check itself, and an envelope parsed from it has
  exactly the quick-only lines of the profile and no DNS settings. In particular no hook can be
  smuggled in between the two.
\<close>

theorem runtime_snapshot_is_valid_envelope:
  assumes env: "config_parse_envelope pton data = Inr env"
    and snap: "runtime_snapshot_build pton protocol_config env reserve = Inr snapshot"
  shows "length snapshot + reserve \<le> max_config_size \<and>
    (\<exists>env'. config_parse_envelope pton snapshot = Inr env' \<and>
       quick_config env' = quick_config env \<and> env_dns env' = dns_config_init)"
proof -
  obtain st0 where "scan_config_envelope pton data = Inr st0" and qc: "quick_config env = quick st0"
    using env by (auto simp: config_parse_envelope_Inr)
  then have scan0: "scan_lines pton scan_init data = Inr st0" and nul0: "CHR 0x00 \<notin> set data"
    by (auto simp: scan_config_envelope_Inr)
  then have q: "quick_wf (quick_config env)"
    using scan_lines_quick_wf [OF scan0] by (simp add: qc scan_init_def quick_wf_Nil)
  from snap obtain st' where st': "scan_config_envelope pton protocol_config = Inr st'"
    by (auto simp: runtime_snapshot_build_def split: sum.splits)
  let ?sep = "if quick_config env \<noteq> [] \<and> line_end st' > 0 \<and> protocol_config ! (line_end st' - 1) \<noteq> NL
    then [NL] else []"
  from snap st' have none: "quick st' = []" "scan_dns st' = dns_config_init"
    and s: "snapshot = take (line_end st') protocol_config @ ?sep @ quick_config env @
      drop (line_end st') protocol_config"
    and r: "reserve \<le> max_config_size" "length (quick_config env) \<le> max_config_size - reserve"
      "length protocol_config \<le> max_config_size - reserve - length (quick_config env)"
      "length ?sep \<le> max_config_size - reserve - length (quick_config env) - length protocol_config"
    by (auto simp: runtime_snapshot_build_def error_defs Let_def dns_config_init_def not_less
        intro!: dns_config.equality split: if_splits)
  from st' have p: "scan_lines pton scan_init protocol_config = Inr st'" "interface_seen st'"
    "protocol_config \<noteq> []" "CHR 0x00 \<notin> set protocol_config"
    by (auto simp: scan_config_envelope_Inr)
  have len: "length snapshot + reserve \<le> max_config_size"
  proof -
    have "length snapshot = length protocol_config + length ?sep + length (quick_config env)"
      unfolding s by (simp del: append_assoc add: length_append)
    with r show ?thesis by linarith
  qed
  have "length (quick_config env) \<le> max_config_size" using r by linarith
  from scan_snapshot [OF p(1,2) none(1) q this] obtain st where
    st: "scan_lines pton scan_init snapshot = Inr st" "quick st = quick_config env"
      "scan_dns st = dns_config_init" "interface_seen st"
    unfolding s none(2) by blast
  have "CHR 0x00 \<notin> set snapshot"
    using p(4) quick_wf_no_nul [OF q] unfolding s by (auto dest: in_set_takeD in_set_dropD)
  moreover have "snapshot \<noteq> []" using p(3) unfolding s by (metis append_is_Nil_conv append_take_drop_id)
  ultimately have "scan_config_envelope pton snapshot = Inr st"
    using st len by (simp add: scan_config_envelope_Inr dns_config_init_def)
  moreover have "dns_config_measure dns_config_init = Inr 16"
    by (simp add: dns_config_measure_def dns_config_init_def payload_defs)
  ultimately show ?thesis
    using len st(2,3) by (auto simp: config_parse_envelope_Inr)
qed

theorem runtime_snapshot_is_valid_envelope_witness:
  "\<exists>env snapshot.
    config_parse_envelope (\<lambda>_ _. None)
      (''[Interface]'' @ [CHR 0x0A] @ ''MTU = 1420'' @ [CHR 0x0A] @ ''Address = 10.0.0.2/32'') = Inr env \<and>
    runtime_snapshot_build (\<lambda>_ _. None)
      (''[Interface]'' @ [CHR 0x0A] @ ''PrivateKey = k'' @ [CHR 0x0A] @ ''[Peer]'') env 32 = Inr snapshot \<and>
    length snapshot + 32 \<le> max_config_size \<and>
    (\<exists>env'. config_parse_envelope (\<lambda>_ _. None) snapshot = Inr env' \<and>
       quick_config env' = quick_config env \<and> env_dns env' = dns_config_init)"
proof -
  let ?pton = "\<lambda>_ _. None"
  let ?data = "''[Interface]'' @ [CHR 0x0A] @ ''MTU = 1420'' @ [CHR 0x0A] @ ''Address = 10.0.0.2/32''"
  let ?proto = "''[Interface]'' @ [CHR 0x0A] @ ''PrivateKey = k'' @ [CHR 0x0A] @ ''[Peer]''"
  have both: "case config_parse_envelope ?pton ?data of Inl _ \<Rightarrow> False
    | Inr env \<Rightarrow> (case runtime_snapshot_build ?pton ?proto env 32 of Inl _ \<Rightarrow> False | Inr _ \<Rightarrow> True)"
    by code_simp
  then obtain env snapshot where env: "config_parse_envelope ?pton ?data = Inr env"
    and snap: "runtime_snapshot_build ?pton ?proto env 32 = Inr snapshot"
    by (cases "config_parse_envelope ?pton ?data"; simp split: sum.splits; blast)
  show ?thesis
    using env snap runtime_snapshot_is_valid_envelope [OF env snap] by blast
qed

end
