(* ===== verification/Runtime_Journal.thy ===== *)
theory Runtime_Journal
  imports Names Codec
begin

text \<open>
  \<open>amneziawg/runtime_journal.h\<close> and \<open>.c\<close>: the durable marker the privileged helper keeps while an
  interface is up, its text format, and the classification of a marker against an independently
  observed link. A pointer that may be \<open>NULL\<close> is an option. The \<open>default\<close> branches of the three
  naming functions, for values outside the enumerations, have no constructor to model them.
\<close>

section \<open>Data\<close>

definition max_runtime_marker_size :: nat where "max_runtime_marker_size = 256"

datatype runtime_state =
  RUNTIME_INACTIVE | RUNTIME_ACTIVE | RUNTIME_RECOVERY_REQUIRED | RUNTIME_MANUAL_INTERVENTION
| RUNTIME_CONFLICT | RUNTIME_UNKNOWN | RUNTIME_FIREWALL_PENDING

datatype journal_state =
  JOURNAL_ACTIVATING | JOURNAL_ACTIVE | JOURNAL_CLEANUP_REQUIRED | JOURNAL_CLEANUP_UNCONFIRMED
| JOURNAL_CLEANUP_COMPLETE | JOURNAL_FIREWALL_PENDING

definition FIREWALL_NONE :: flags where "FIREWALL_NONE = 0"
definition FIREWALL_NFT :: flags where "FIREWALL_NFT = push_bit 0 1"
definition FIREWALL_IP4_LEGACY :: flags where "FIREWALL_IP4_LEGACY = push_bit 1 1"
definition FIREWALL_IP6_LEGACY :: flags where "FIREWALL_IP6_LEGACY = push_bit 2 1"
definition FIREWALL_IP4_NFT :: flags where "FIREWALL_IP4_NFT = push_bit 3 1"
definition FIREWALL_IP6_NFT :: flags where "FIREWALL_IP6_NFT = push_bit 4 1"
definition FIREWALL_ALL :: flags where "FIREWALL_ALL = push_bit 5 1 - 1"

datatype dns_backend = DNS_BACKEND_NONE | DNS_BACKEND_RESOLVED | DNS_BACKEND_RESOLVCONF

datatype journal_dns_state = JOURNAL_DNS_ABSENT | JOURNAL_DNS_APPLIED | JOURNAL_DNS_UNKNOWN

record runtime_marker =
  link_token :: string
  ifindex :: nat
  dns_backend :: dns_backend
  marker_state :: journal_state
  dns_state :: journal_dns_state
  was_active :: bool
  firewall_scope :: flags

section \<open>Operations\<close>

text \<open>The digit loop of the interface index parser, with its overflow check.\<close>

fun ifindex_digits :: "nat \<Rightarrow> bytes \<Rightarrow> nat option" where
  "ifindex_digits v [] = Some v"
| "ifindex_digits v (c # cs) =
     (if \<not> ascii_isdigit c then None
      else if v > (G_MAXUINT - digit_value c) div 10 then None
      else ifindex_digits (v * 10 + digit_value c) cs)"

definition ifindex_parse :: "bytes \<Rightarrow> nat option" where
  "ifindex_parse data =
     (let span = trim_span data
      in if span = [] then None
         else case ifindex_digits 0 span of
                None \<Rightarrow> None
              | Some v \<Rightarrow> if v = 0 then None else Some v)"

fun dns_backend_name :: "dns_backend \<Rightarrow> string" where
  "dns_backend_name DNS_BACKEND_NONE = ''none''"
| "dns_backend_name DNS_BACKEND_RESOLVED = ''resolved''"
| "dns_backend_name DNS_BACKEND_RESOLVCONF = ''resolvconf''"

fun journal_state_name :: "journal_state \<Rightarrow> string" where
  "journal_state_name JOURNAL_ACTIVATING = ''activating''"
| "journal_state_name JOURNAL_ACTIVE = ''active''"
| "journal_state_name JOURNAL_CLEANUP_REQUIRED = ''cleanup-required''"
| "journal_state_name JOURNAL_CLEANUP_UNCONFIRMED = ''cleanup-unconfirmed''"
| "journal_state_name JOURNAL_CLEANUP_COMPLETE = ''cleanup-complete''"
| "journal_state_name JOURNAL_FIREWALL_PENDING = ''firewall-verification-pending''"

fun journal_dns_state_name :: "journal_dns_state \<Rightarrow> string" where
  "journal_dns_state_name JOURNAL_DNS_ABSENT = ''absent''"
| "journal_dns_state_name JOURNAL_DNS_APPLIED = ''applied''"
| "journal_dns_state_name JOURNAL_DNS_UNKNOWN = ''unknown''"

definition runtime_marker_fields_are_valid :: "runtime_marker \<Rightarrow> bool" where
  "runtime_marker_fields_are_valid m =
     (if and (firewall_scope m) (not FIREWALL_ALL) \<noteq> 0 \<or> \<not> link_token_is_valid (Some (link_token m))
      then False
      else if dns_backend m = DNS_BACKEND_NONE \<and> dns_state m \<noteq> JOURNAL_DNS_ABSENT then False
      else if marker_state m = JOURNAL_ACTIVATING \<and> was_active m then False
      else if marker_state m = JOURNAL_ACTIVE \<and>
        (ifindex m = 0 \<or> \<not> was_active m \<or>
         dns_backend m \<noteq> DNS_BACKEND_NONE \<and> dns_state m \<noteq> JOURNAL_DNS_APPLIED) then False
      else if (marker_state m = JOURNAL_CLEANUP_COMPLETE \<or> marker_state m = JOURNAL_FIREWALL_PENDING) \<and>
        (was_active m \<or> dns_state m \<noteq> JOURNAL_DNS_ABSENT) then False
      else True)"

definition runtime_marker_text :: "runtime_marker \<Rightarrow> bytes" where
  "runtime_marker_text m =
     ''state='' @ journal_state_name (marker_state m) @ [LF] @
     ''token='' @ link_token m @ [LF] @
     ''ifindex='' @ uint_text (ifindex m) @ [LF] @
     ''dns='' @ dns_backend_name (dns_backend m) @ [LF] @
     ''was-active='' @ uint_text (if was_active m then 1 else 0) @ [LF] @
     ''dns-state='' @ journal_dns_state_name (dns_state m) @ [LF] @
     ''firewall-scope='' @ uint_text (unat (firewall_scope m)) @ [LF]"

definition runtime_marker_serialize :: "runtime_marker option \<Rightarrow> bytes option" where
  "runtime_marker_serialize marker =
     (case marker of None \<Rightarrow> None
      | Some m \<Rightarrow>
          (if \<not> runtime_marker_fields_are_valid m then None
           else let written = length (runtime_marker_text m)
                in if written = 0 \<or> written \<ge> max_runtime_marker_size then None
                   else Some (runtime_marker_text m)))"

text \<open>
  The parser's cursors: \<open>take_line\<close> is \<open>memchr (start, '\n', rest)\<close> with the bytes before it and
  after it, and \<open>marker_field\<close> the check of a field's least length and of its prefix before it.
\<close>

definition take_line :: "bytes \<Rightarrow> (bytes \<times> bytes) option" where
  "take_line s =
     (case dropWhile (\<lambda>c. c \<noteq> LF) s of
        [] \<Rightarrow> None
      | _ # rest \<Rightarrow> Some (takeWhile (\<lambda>c. c \<noteq> LF) s, rest))"

definition marker_field :: "string \<Rightarrow> nat \<Rightarrow> bytes \<Rightarrow> (bytes \<times> bytes) option" where
  "marker_field prefix least s =
     (if length s < least \<or> take (length prefix) s \<noteq> prefix then None
      else take_line (drop (length prefix) s))"

definition journal_state_of_name :: "bytes \<Rightarrow> journal_state option" where
  "journal_state_of_name s =
     (if s = ''activating'' then Some JOURNAL_ACTIVATING
      else if s = ''active'' then Some JOURNAL_ACTIVE
      else if s = ''cleanup-required'' then Some JOURNAL_CLEANUP_REQUIRED
      else if s = ''cleanup-unconfirmed'' then Some JOURNAL_CLEANUP_UNCONFIRMED
      else if s = ''cleanup-complete'' then Some JOURNAL_CLEANUP_COMPLETE
      else if s = ''firewall-verification-pending'' then Some JOURNAL_FIREWALL_PENDING
      else None)"

definition dns_backend_of_name :: "bytes \<Rightarrow> dns_backend option" where
  "dns_backend_of_name s =
     (if s = ''none'' then Some DNS_BACKEND_NONE
      else if s = ''resolved'' then Some DNS_BACKEND_RESOLVED
      else if s = ''resolvconf'' then Some DNS_BACKEND_RESOLVCONF
      else None)"

definition journal_dns_state_of_name :: "bytes \<Rightarrow> journal_dns_state option" where
  "journal_dns_state_of_name s =
     (if s = ''absent'' then Some JOURNAL_DNS_ABSENT
      else if s = ''applied'' then Some JOURNAL_DNS_APPLIED
      else if s = ''unknown'' then Some JOURNAL_DNS_UNKNOWN
      else None)"

definition marker_token :: "bytes \<Rightarrow> string option" where
  "marker_token s =
     (if length s \<noteq> link_token_length then None
      else let token = c_string s
           in if \<not> link_token_is_valid (Some token) then None else Some token)"

definition marker_ifindex :: "bytes \<Rightarrow> nat option" where
  "marker_ifindex s =
     (if s = [] then None
      else if s = ''0'' then Some 0
      else if hd s = CHR ''0'' \<or> \<not> list_all ascii_isdigit s then None
      else ifindex_parse s)"

definition marker_was_active :: "bytes \<Rightarrow> bool option" where
  "marker_was_active s =
     (if s = ''0'' then Some False else if s = ''1'' then Some True else None)"

text \<open>The scope has no terminator of its own: it ends where the buffer's last line feed stands.\<close>

definition marker_scope :: "bytes \<Rightarrow> flags option" where
  "marker_scope s =
     (if length s < length ''firewall-scope=0'' + 1 \<or>
         take (length ''firewall-scope='') s \<noteq> ''firewall-scope='' then None
      else let digits = butlast (drop (length ''firewall-scope='') s)
           in if length digits > 2 \<or> length digits > 1 \<and> hd digits = CHR ''0'' then None
              else if \<not> list_all ascii_isdigit digits then None
              else Some (foldl (\<lambda>v c. v * 10 + of_nat (digit_value c)) 0 digits))"

definition runtime_marker_body :: "bytes \<Rightarrow> runtime_marker option" where
  "runtime_marker_body body =
     Option.bind (take_line body) (\<lambda>(f1, rest).
     Option.bind (journal_state_of_name f1) (\<lambda>st.
     Option.bind (marker_field ''token='' (length ''token='' + link_token_length + 1) rest) (\<lambda>(f2, rest).
     Option.bind (marker_token f2) (\<lambda>token.
     Option.bind (marker_field ''ifindex='' 9 rest) (\<lambda>(f3, rest).
     Option.bind (marker_ifindex f3) (\<lambda>index.
     Option.bind (marker_field ''dns='' 5 rest) (\<lambda>(f4, rest).
     Option.bind (if f4 = [] then None else dns_backend_of_name f4) (\<lambda>backend.
     Option.bind (marker_field ''was-active='' (length ''was-active=0'' + 1) rest) (\<lambda>(f5, rest).
     Option.bind (marker_was_active f5) (\<lambda>active.
     Option.bind (marker_field ''dns-state='' (length ''dns-state=x'' + 1) rest) (\<lambda>(f6, rest).
     Option.bind (if f6 = [] then None else journal_dns_state_of_name f6) (\<lambda>dns.
     Option.bind (marker_scope rest) (\<lambda>scope.
       let parsed = \<lparr>link_token = token, ifindex = index, dns_backend = backend, marker_state = st,
                     dns_state = dns, was_active = active, firewall_scope = scope\<rparr>
       in if runtime_marker_fields_are_valid parsed then Some parsed else None)))))))))))))"

definition runtime_marker_parse :: "bytes \<Rightarrow> runtime_marker option" where
  "runtime_marker_parse data =
     (if length data \<le> length ''state='' \<or> data ! (length data - 1) \<noteq> LF \<or>
         take (length ''state='') data \<noteq> ''state='' then None
      else runtime_marker_body (drop (length ''state='') data))"

definition runtime_state_classify ::
    "bool \<Rightarrow> bool \<Rightarrow> runtime_marker option \<Rightarrow> link_observation option \<Rightarrow> runtime_state" where
  "runtime_state_classify marker_exists marker_valid marker observation =
     (if \<not> marker_exists then
        (case observation of
           Some obs \<Rightarrow> if named_exists obs then RUNTIME_CONFLICT else RUNTIME_INACTIVE
         | None \<Rightarrow> RUNTIME_INACTIVE)
      else if \<not> marker_valid then RUNTIME_MANUAL_INTERVENTION
      else (case (marker, observation) of
        (Some m, Some obs) \<Rightarrow>
          (if marker_state m = JOURNAL_CLEANUP_UNCONFIRMED \<or>
              dns_backend m = DNS_BACKEND_RESOLVED \<and> dns_state m = JOURNAL_DNS_UNKNOWN
           then RUNTIME_MANUAL_INTERVENTION
           else if token_matches obs > 1 then RUNTIME_MANUAL_INTERVENTION
           else if token_matches obs = 0 then
             (if named_exists obs then RUNTIME_CONFLICT
              else if marker_state m = JOURNAL_FIREWALL_PENDING then
                (if dns_state m = JOURNAL_DNS_ABSENT \<and> \<not> was_active m
                 then RUNTIME_FIREWALL_PENDING else RUNTIME_MANUAL_INTERVENTION)
              else if marker_state m = JOURNAL_CLEANUP_COMPLETE then RUNTIME_RECOVERY_REQUIRED
              else RUNTIME_MANUAL_INTERVENTION)
           else if named_exists obs \<and> named_ifindex obs \<noteq> token_ifindex obs \<or>
                   ifindex m \<noteq> 0 \<and> ifindex m \<noteq> token_ifindex obs then RUNTIME_CONFLICT
           else if \<not> token_has_expected_name obs then RUNTIME_MANUAL_INTERVENTION
           else if marker_state m = JOURNAL_CLEANUP_COMPLETE \<or> marker_state m = JOURNAL_FIREWALL_PENDING
           then RUNTIME_CONFLICT
           else if marker_state m \<noteq> JOURNAL_ACTIVE \<or> ifindex m = 0 then RUNTIME_RECOVERY_REQUIRED
           else RUNTIME_ACTIVE)
      | _ \<Rightarrow> RUNTIME_MANUAL_INTERVENTION))"

definition runtime_state_is_recoverable :: "runtime_state \<Rightarrow> bool" where
  "runtime_state_is_recoverable s \<longleftrightarrow>
     s = RUNTIME_RECOVERY_REQUIRED \<or> s = RUNTIME_FIREWALL_PENDING"

section \<open>The marker's text\<close>

lemma take_line_iff: "take_line s = Some (l, r) \<longleftrightarrow> s = l @ LF # r \<and> LF \<notin> set l"
proof
  assume "take_line s = Some (l, r)"
  then obtain c where d: "dropWhile (\<lambda>c. c \<noteq> LF) s = c # r" and l: "l = takeWhile (\<lambda>c. c \<noteq> LF) s"
    by (auto simp: take_line_def split: list.splits)
  have "c = LF" using hd_dropWhile [of "\<lambda>c. c \<noteq> LF" s] d by simp
  moreover have "s = l @ c # r" using takeWhile_dropWhile_id [of "\<lambda>c. c \<noteq> LF" s] d l by simp
  ultimately show "s = l @ LF # r \<and> LF \<notin> set l" using l by (auto dest: set_takeWhileD)
qed (auto simp: take_line_def dropWhile_append takeWhile_append takeWhile_eq_all_conv)

lemma marker_field_iff:
  "marker_field p n s = Some (l, r) \<longleftrightarrow> s = p @ l @ LF # r \<and> LF \<notin> set l \<and> n \<le> length s"
proof -
  have "take (length p) s = p \<longleftrightarrow> (\<exists>t. s = p @ t)"
    by (metis append_eq_conv_conj)
  then show ?thesis by (auto simp: marker_field_def take_line_iff not_less)
qed

lemma journal_state_of_name_iff: "journal_state_of_name s = Some st \<longleftrightarrow> s = journal_state_name st"
  by (cases st) (auto simp: journal_state_of_name_def split: if_splits)

lemma dns_backend_of_name_iff: "dns_backend_of_name s = Some b \<longleftrightarrow> s = dns_backend_name b"
  by (cases b) (auto simp: dns_backend_of_name_def split: if_splits)

lemma journal_dns_state_of_name_iff:
  "journal_dns_state_of_name s = Some d \<longleftrightarrow> s = journal_dns_state_name d"
  by (cases d) (auto simp: journal_dns_state_of_name_def split: if_splits)

lemma marker_token_iff: "marker_token s = Some t \<longleftrightarrow> s = t \<and> link_token_is_valid (Some t)"
proof
  assume "marker_token s = Some t"
  then have s: "length s = link_token_length" "t = c_string s" "link_token_is_valid (Some t)"
    by (auto simp: marker_token_def Let_def split: if_splits)
  then have "length (takeWhile (\<lambda>c. c \<noteq> CHR 0x00) s) = length s"
    by (auto simp: link_token_is_valid_def c_string_def)
  then have "t = s" unfolding s(2) c_string_def by (metis takeWhile_eq_take take_all order_refl)
  with s show "s = t \<and> link_token_is_valid (Some t)" by simp
next
  assume "s = t \<and> link_token_is_valid (Some t)"
  moreover from this have "CHR 0x00 \<notin> set t"
    by (force simp: link_token_is_valid_def list_all_iff ascii_isdigit_def less_char_def)
  ultimately show "marker_token s = Some t"
    by (simp add: marker_token_def c_string_id Let_def) (simp add: link_token_is_valid_def)
qed

lemma ifindex_digits_spec:
  "v \<le> G_MAXUINT \<Longrightarrow> ifindex_digits v s =
     (if list_all ascii_isdigit s \<and> digits_value v s \<le> G_MAXUINT then Some (digits_value v s) else None)"
proof (induction s arbitrary: v)
  case (Cons c s)
  show ?case
  proof (cases "ascii_isdigit c")
    case True
    then have d: "digit_value c < 10" by (rule digit_value_less)
    have iff: "v > (G_MAXUINT - digit_value c) div 10 \<longleftrightarrow> G_MAXUINT < v * 10 + digit_value c"
      using d by (simp add: div_less_iff_less_mult) linarith
    show ?thesis
    proof (cases "v * 10 + digit_value c \<le> G_MAXUINT")
      case True
      then show ?thesis using \<open>ascii_isdigit c\<close> Cons.IH [OF True] iff by simp
    next
      case False
      then have "G_MAXUINT < digits_value (v * 10 + digit_value c) s"
        using digits_value_mono [of "v * 10 + digit_value c" s] by linarith
      then show ?thesis using False \<open>ascii_isdigit c\<close> iff by simp
    qed
  qed simp
qed simp

lemma digits_trim_span: "list_all ascii_isdigit s \<Longrightarrow> trim_span s = s"
proof -
  have "ascii_isdigit c \<Longrightarrow> \<not> ascii_isspace c" for c
    by (auto simp: ascii_isdigit_def ascii_isspace_def)
  moreover assume "list_all ascii_isdigit s"
  ultimately show ?thesis
    by (intro trim_span_id) (metis list_all_iff hd_in_set last_in_set)
qed

lemma marker_ifindex_iff: "marker_ifindex s = Some v \<longleftrightarrow> s = uint_text v \<and> v \<le> G_MAXUINT"
proof (cases "s = ''0'' \<or> s = []")
  case True
  have "s = uint_text v \<longleftrightarrow> s = ''0'' \<and> v = 0"
    using True uint_text_0 digits_value_uint_text [of v] digits_value_uint_text [of 0] uint_text_not_Nil [of v] by metis
  with True show ?thesis by (auto simp: marker_ifindex_def)
next
  case False
  then have "marker_ifindex s = Some v \<longleftrightarrow>
      hd s \<noteq> CHR ''0'' \<and> list_all ascii_isdigit s \<and> digits_value 0 s \<le> G_MAXUINT \<and>
      v = digits_value 0 s \<and> v \<noteq> 0"
    by (auto simp: marker_ifindex_def ifindex_parse_def digits_trim_span ifindex_digits_spec Let_def
        simp del: digits_value_Cons)
  also have "\<dots> \<longleftrightarrow> s = uint_text v \<and> v \<le> G_MAXUINT"
  proof
    assume *: "s = uint_text v \<and> v \<le> G_MAXUINT"
    with False have "v \<noteq> 0" using uint_text_0 by (cases "v = 0") auto
    with * show "hd s \<noteq> CHR ''0'' \<and> list_all ascii_isdigit s \<and> digits_value 0 s \<le> G_MAXUINT \<and>
      v = digits_value 0 s \<and> v \<noteq> 0" by (simp add: uint_text_digits uint_text_hd)
  qed (use False in \<open>auto simp: uint_text_value\<close>)
  finally show ?thesis .
qed

lemma marker_was_active_iff:
  "marker_was_active s = Some b \<longleftrightarrow> s = uint_text (if b then 1 else 0)"
proof -
  have "uint_text 1 = ''1''" by code_simp
  then show ?thesis by (auto simp: marker_was_active_def uint_text_0)
qed

lemma scope_value:
  "foldl (\<lambda>v c. v * 10 + of_nat (digit_value c)) (of_nat n :: flags) s = of_nat (digits_value n s)"
proof (induction s arbitrary: n)
  case (Cons c s)
  have "of_nat n * 10 + of_nat (digit_value c) = (of_nat (n * 10 + digit_value c) :: flags)"
    by (simp only: of_nat_add of_nat_mult of_nat_numeral)
  with Cons show ?case by (simp only: foldl_Cons digits_value_Cons)
qed simp

lemma firewall_all: "and f (not FIREWALL_ALL) = 0 \<longleftrightarrow> unat f < 32"
proof -
  have "FIREWALL_ALL = mask 5" by (simp add: FIREWALL_ALL_def mask_eq_exp_minus_1 push_bit_eq_mult)
  then have "and f (not FIREWALL_ALL) = 0 \<longleftrightarrow> take_bit 5 f = f"
    by (auto simp: bit_eq_iff bit_simps)
  also have "\<dots> \<longleftrightarrow> unat f < 32"
  proof -
    have "unat (take_bit 5 f) = take_bit 5 (unat f)" by (rule unsigned_take_bit_eq)
    moreover have "take_bit 5 f = f \<longleftrightarrow> unat (take_bit 5 f) = unat f" by (metis unsigned_word_eqI)
    ultimately show ?thesis by (simp add: take_bit_nat_eq_self_iff)
  qed
  finally show ?thesis .
qed


lemma digits_value_bound: "list_all ascii_isdigit s \<Longrightarrow> digits_value 0 s < 10 ^ length s"
proof (induction s rule: rev_induct)
  case (snoc c s)
  then have "digits_value 0 s + 1 \<le> 10 ^ length s" "digit_value c < 10"
    using digit_value_less by auto
  then show ?case by (simp add: digits_value_snoc)
qed simp

lemma marker_scope_iff:
  assumes f: "unat f < 32"
  shows "marker_scope s = Some f \<and> (s \<noteq> [] \<longrightarrow> last s = LF) \<longleftrightarrow>
    s = ''firewall-scope='' @ uint_text (unat f) @ [LF]"
proof -
  let ?p = "''firewall-scope=''"
  have fold: "foldl (\<lambda>v c. v * 10 + of_nat (digit_value c)) (0 :: flags) d = of_nat (digits_value 0 d)" for d
    using scope_value [of 0 d] by simp
  show ?thesis
  proof
    assume a: "marker_scope s = Some f \<and> (s \<noteq> [] \<longrightarrow> last s = LF)"
    define d where "d = drop (length ?p) s"
    from a have len: "length s \<ge> length ''firewall-scope=0'' + 1" and "take (length ?p) s = ?p"
      by (auto simp: marker_scope_def split: if_splits)
    then have s: "s = ?p @ d" unfolding d_def by (metis append_take_drop_id)
    with len have d: "length d \<ge> 2" by simp
    then have split: "d = butlast d @ [LF]" using a s by (metis append_butlast_last_id last_appendR
        list.size(3) not_numeral_le_zero append_is_Nil_conv)
    let ?b = "butlast d"
    from a have b: "length ?b \<le> 2" "length ?b \<le> 1 \<or> hd ?b \<noteq> CHR ''0''" "list_all ascii_isdigit ?b"
      "f = of_nat (digits_value 0 ?b)"
      unfolding d_def by (auto simp: marker_scope_def Let_def fold split: if_splits)
    have "digits_value 0 ?b < 10 ^ length ?b" by (rule digits_value_bound) (rule b(3))
    also have "\<dots> \<le> 10 ^ 2" using b(1) by (intro power_increasing) simp_all
    finally have "unat f = digits_value 0 ?b" unfolding b(4) by (simp add: unat_of_nat)
    moreover have "uint_text (digits_value 0 ?b) = ?b"
    proof (rule uint_text_value [OF b(3)])
      show "?b \<noteq> []" using d by (cases d rule: rev_cases) auto
      then show "hd ?b \<noteq> CHR ''0'' \<or> ?b = ''0''" using b(2) by (cases ?b) auto
    qed
    ultimately show "s = ?p @ uint_text (unat f) @ [LF]" using s split by simp
  next
    assume s: "s = ?p @ uint_text (unat f) @ [LF]"
    have "unat f < 10 ^ 2" using f by simp
    then have len: "length (uint_text (unat f)) \<le> 2" by (rule uint_text_length) simp
    have zero: "length (uint_text (unat f)) > 1 \<Longrightarrow> hd (uint_text (unat f)) \<noteq> CHR ''0''"
      using uint_text_hd [of "unat f"] uint_text_0 by (cases "unat f = 0") auto
    show "marker_scope s = Some f \<and> (s \<noteq> [] \<longrightarrow> last s = LF)"
      using len zero uint_text_digits [of "unat f"] fold [of "uint_text (unat f)"]
      by (auto simp: s marker_scope_def Let_def Suc_le_eq butlast_append)
  qed
qed

section \<open>Parsing and writing a marker\<close>

text \<open>What the fields of a C marker hold: an index of 32 bits, and fields that agree.\<close>

definition marker_ok :: "runtime_marker \<Rightarrow> bool" where
  "marker_ok m \<longleftrightarrow> runtime_marker_fields_are_valid m \<and> ifindex m \<le> G_MAXUINT"

lemma names_no_LF [simp]:
  "LF \<notin> set (journal_state_name st)" "LF \<notin> set (dns_backend_name b)"
  "LF \<notin> set (journal_dns_state_name d)"
proof -
  show "LF \<notin> set (journal_state_name st)" by (cases st) simp_all
  show "LF \<notin> set (dns_backend_name b)" by (cases b) simp_all
  show "LF \<notin> set (journal_dns_state_name d)" by (cases d) simp_all
qed

lemma names_not_Nil [simp]: "dns_backend_name b \<noteq> []" "journal_dns_state_name d \<noteq> []"
proof -
  show "dns_backend_name b \<noteq> []" by (cases b) simp_all
  show "journal_dns_state_name d \<noteq> []" by (cases d) simp_all
qed

lemma digits_no_LF: "list_all ascii_isdigit s \<Longrightarrow> LF \<notin> set s"
  by (auto simp: list_all_iff ascii_isdigit_def)

lemma uint_text_no_LF [simp]: "LF \<notin> set (uint_text n)"
  by (rule digits_no_LF) (rule uint_text_digits)

lemma token_valid_no_LF: "link_token_is_valid (Some t) \<Longrightarrow> LF \<notin> set t"
  by (force simp: link_token_is_valid_def list_all_iff ascii_isdigit_def less_char_def)

lemma token_valid_length: "link_token_is_valid (Some t) \<Longrightarrow> length t = 32"
  by (simp add: link_token_is_valid_def link_token_length_def)

lemma fields_valid_token:
  "runtime_marker_fields_are_valid m \<Longrightarrow> link_token_is_valid (Some (link_token m))"
  by (auto simp: runtime_marker_fields_are_valid_def split: if_splits)

lemma fields_valid_scope: "runtime_marker_fields_are_valid m \<Longrightarrow> unat (firewall_scope m) < 32"
  by (auto simp: runtime_marker_fields_are_valid_def firewall_all split: if_splits)


lemmas marker_field_iffs =
  take_line_iff marker_field_iff journal_state_of_name_iff marker_token_iff marker_ifindex_iff
  dns_backend_of_name_iff marker_was_active_iff journal_dns_state_of_name_iff

lemma marker_body_sound:
  assumes body: "runtime_marker_body r0 = Some m" and last: "last r0 = LF"
  shows "marker_ok m \<and> ''state='' @ r0 = runtime_marker_text m"
proof -
  from body obtain f1 r1 st f2 r2 tok f3 r3 idx f4 r4 b f5 r5 act f6 r6 d scope where
    fs: "take_line r0 = Some (f1, r1)" "journal_state_of_name f1 = Some st"
      "marker_field ''token='' (length ''token='' + link_token_length + 1) r1 = Some (f2, r2)"
      "marker_token f2 = Some tok"
      "marker_field ''ifindex='' 9 r2 = Some (f3, r3)" "marker_ifindex f3 = Some idx"
      "marker_field ''dns='' 5 r3 = Some (f4, r4)" "dns_backend_of_name f4 = Some b"
      "marker_field ''was-active='' (length ''was-active=0'' + 1) r4 = Some (f5, r5)"
      "marker_was_active f5 = Some act"
      "marker_field ''dns-state='' (length ''dns-state=x'' + 1) r5 = Some (f6, r6)"
      "journal_dns_state_of_name f6 = Some d" "marker_scope r6 = Some scope"
    and m: "m = \<lparr>link_token = tok, ifindex = idx, dns_backend = b, marker_state = st,
       dns_state = d, was_active = act, firewall_scope = scope\<rparr>"
    and v: "runtime_marker_fields_are_valid m"
    unfolding runtime_marker_body_def Let_def by (elim early_returnE) auto
  note facts = fs [unfolded marker_field_iffs]
  have eqs: "r0 = f1 @ LF # r1" "f1 = journal_state_name st" "r1 = ''token='' @ f2 @ LF # r2"
    "f2 = tok" "r2 = ''ifindex='' @ f3 @ LF # r3" "f3 = uint_text idx"
    "r3 = ''dns='' @ f4 @ LF # r4" "f4 = dns_backend_name b" "r4 = ''was-active='' @ f5 @ LF # r5"
    "f5 = uint_text (if act then 1 else 0)" "r5 = ''dns-state='' @ f6 @ LF # r6"
    "f6 = journal_dns_state_name d"
    using facts by blast+
  have "r6 \<noteq> [] \<longrightarrow> last r6 = LF" proof
    assume "r6 \<noteq> []"
    then have "last r0 = last r6" unfolding eqs(1,3,5,7,9,11) by simp
    with last show "last r6 = LF" by simp
  qed
  moreover have "unat scope < 32" using fields_valid_scope [OF v] m by simp
  ultimately have r6: "r6 = ''firewall-scope='' @ uint_text (unat scope) @ [LF]"
    using fs(13) by (intro iffD1 [OF marker_scope_iff] conjI)
  have "''state='' @ r0 = runtime_marker_text m"
    unfolding runtime_marker_text_def m runtime_marker.simps eqs r6 by (simp only: append.simps append_assoc)
  moreover have "idx \<le> G_MAXUINT" using facts(6) by blast
  ultimately show ?thesis using v by (simp add: marker_ok_def m)
qed

lemma marker_body_complete:
  assumes "marker_ok m"
  obtains r0 where "runtime_marker_text m = ''state='' @ r0" "r0 \<noteq> []" "last r0 = LF"
    "runtime_marker_body r0 = Some m"
proof -
  have v: "runtime_marker_fields_are_valid m" "ifindex m \<le> G_MAXUINT"
    using assms by (auto simp: marker_ok_def)
  note tok = fields_valid_token [OF v(1)]
  define r6 where "r6 = ''firewall-scope='' @ uint_text (unat (firewall_scope m)) @ [LF]"
  define r5 where "r5 = ''dns-state='' @ journal_dns_state_name (dns_state m) @ LF # r6"
  define r4 where "r4 = ''was-active='' @ uint_text (if was_active m then 1 else 0) @ LF # r5"
  define r3 where "r3 = ''dns='' @ dns_backend_name (dns_backend m) @ LF # r4"
  define r2 where "r2 = ''ifindex='' @ uint_text (ifindex m) @ LF # r3"
  define r1 where "r1 = ''token='' @ link_token m @ LF # r2"
  define r0 where "r0 = journal_state_name (marker_state m) @ LF # r1"
  have ne: "0 < length (uint_text n)" "0 < length (dns_backend_name b)"
    "0 < length (journal_dns_state_name d)" for n b d by simp_all
  have s: "marker_scope r6 = Some (firewall_scope m)"
    unfolding r6_def using marker_scope_iff [OF fields_valid_scope [OF v(1)]] by blast
  have l0: "take_line r0 = Some (journal_state_name (marker_state m), r1)"
    by (simp add: r0_def take_line_iff)
  have l1: "marker_field ''token='' (length ''token='' + link_token_length + 1) r1 = Some (link_token m, r2)"
    using token_valid_no_LF [OF tok] token_valid_length [OF tok]
    by (simp add: r1_def marker_field_iff link_token_length_def)
  have l2: "marker_field ''ifindex='' 9 r2 = Some (uint_text (ifindex m), r3)"
    using ne(1) [of "ifindex m"] by (simp add: r2_def marker_field_iff)
  have l3: "marker_field ''dns='' 5 r3 = Some (dns_backend_name (dns_backend m), r4)"
    using ne(2) [of "dns_backend m"] by (simp add: r3_def marker_field_iff)
  have l4: "marker_field ''was-active='' (length ''was-active=0'' + 1) r4 =
      Some (uint_text (if was_active m then 1 else 0), r5)"
    using ne(1) [of "if was_active m then 1 else 0"] by (auto simp: r4_def marker_field_iff Suc_le_eq)
  have l5: "marker_field ''dns-state='' (length ''dns-state=x'' + 1) r5 =
      Some (journal_dns_state_name (dns_state m), r6)"
    by (simp add: r5_def r6_def marker_field_iff)
  have names: "marker_token (link_token m) = Some (link_token m)"
    "journal_state_of_name (journal_state_name (marker_state m)) = Some (marker_state m)"
    "marker_ifindex (uint_text (ifindex m)) = Some (ifindex m)"
    "dns_backend_of_name (dns_backend_name (dns_backend m)) = Some (dns_backend m)"
    "marker_was_active (uint_text (if was_active m then 1 else 0)) = Some (was_active m)"
    "journal_dns_state_of_name (journal_dns_state_name (dns_state m)) = Some (dns_state m)"
    using tok v(2) by (simp_all only: marker_field_iffs simp_thms)
  have "m = \<lparr>link_token = link_token m, ifindex = ifindex m, dns_backend = dns_backend m,
      marker_state = marker_state m, dns_state = dns_state m, was_active = was_active m,
      firewall_scope = firewall_scope m\<rparr>" by simp
  note whole = this [symmetric]
  show ?thesis
  proof (rule that)
    show "runtime_marker_text m = ''state='' @ r0"
      by (simp add: runtime_marker_text_def r0_def r1_def r2_def r3_def r4_def r5_def r6_def)
    show "r0 \<noteq> []" by (simp add: r0_def)
    show "last r0 = LF" by (simp add: r0_def r1_def r2_def r3_def r4_def r5_def r6_def)
    show "runtime_marker_body r0 = Some m"
      using v(1)
      by (simp only: runtime_marker_body_def l0 l1 l2 l3 l4 l5 names s Option.bind.simps
          prod.case names_not_Nil if_False Let_def whole if_True)
  qed
qed

lemma runtime_marker_parse_iff:
  "runtime_marker_parse data = Some m \<longleftrightarrow> marker_ok m \<and> data = runtime_marker_text m"
proof
  assume "runtime_marker_parse data = Some m"
  then have p: "take 6 data = ''state=''" "data ! (length data - 1) = LF" "length data > 6"
    "runtime_marker_body (drop 6 data) = Some m"
    by (auto simp: runtime_marker_parse_def eval_nat_numeral split: if_splits)
  then have data: "data = ''state='' @ drop 6 data" by (metis append_take_drop_id)
  have "data \<noteq> []" "drop 6 data \<noteq> []" using p(3) by auto
  then have "last (drop 6 data) = LF" using p(2,3) by (simp add: last_conv_nth)
  with p(4) data show "marker_ok m \<and> data = runtime_marker_text m"
    using marker_body_sound by metis
next
  assume "marker_ok m \<and> data = runtime_marker_text m"
  then obtain r0 where r: "data = ''state='' @ r0" "r0 \<noteq> []" "last r0 = LF"
    "runtime_marker_body r0 = Some m" using marker_body_complete by metis
  then have "data ! (length data - 1) = LF" by (simp add: nth_append last_conv_nth)
  with r show "runtime_marker_parse data = Some m" by (simp add: runtime_marker_parse_def)
qed

lemma marker_text_short:
  assumes "marker_ok m"
  shows "length (runtime_marker_text m) < max_runtime_marker_size"
proof -
  have v: "runtime_marker_fields_are_valid m" "ifindex m \<le> G_MAXUINT"
    using assms by (auto simp: marker_ok_def)
  have "length (journal_state_name st) \<le> 29" for st by (cases st) simp_all
  moreover have "length (dns_backend_name b) \<le> 10" for b by (cases b) simp_all
  moreover have "length (journal_dns_state_name d) \<le> 7" for d by (cases d) simp_all
  moreover have "length (uint_text (ifindex m)) \<le> 10"
    using v(2) by (intro uint_text_length) simp_all
  moreover have "length (uint_text (unat (firewall_scope m))) \<le> 2"
    using fields_valid_scope [OF v(1)] by (intro uint_text_length) simp_all
  moreover have "length (uint_text (if was_active m then 1 else 0)) \<le> 1"
    by (intro uint_text_length) simp_all
  moreover have "length (link_token m) = 32" using fields_valid_token [OF v(1)] token_valid_length by blast
  ultimately have "length (journal_state_name (marker_state m)) + length (link_token m) +
      length (uint_text (ifindex m)) + length (dns_backend_name (dns_backend m)) +
      length (uint_text (if was_active m then 1 else 0)) + length (journal_dns_state_name (dns_state m)) +
      length (uint_text (unat (firewall_scope m))) \<le> 29 + 32 + 10 + 10 + 1 + 7 + 2"
    by (intro add_mono) simp_all
  then show ?thesis
    by (simp add: runtime_marker_text_def max_runtime_marker_size_def del: if_split)
qed

lemma marker_serialize_ok:
  "marker_ok m \<Longrightarrow> runtime_marker_serialize (Some m) = Some (runtime_marker_text m)"
  using marker_text_short [of m]
  by (auto simp: runtime_marker_serialize_def marker_ok_def Let_def runtime_marker_text_def)

interpretation journal: canonical_codec "\<lambda>m. runtime_marker_serialize (Some m)" runtime_marker_parse marker_ok
  by unfold_locales (auto simp: runtime_marker_parse_iff marker_serialize_ok)

text \<open>
  C28. The journal survives a crash exactly as it was written. A marker whose index is a 32-bit
  number is written whenever its fields agree, never refused for want of room in the buffer, and
  the parser accepts a file as a marker exactly if the writer writes that file for that marker:
  nothing else parses, and no other spelling of a marker is accepted.
\<close>

theorem runtime_marker_roundtrip:
  "(runtime_marker_parse data = Some m) =
     (ifindex m \<le> G_MAXUINT \<and> runtime_marker_serialize (Some m) = Some data) \<and>
   (ifindex m \<le> G_MAXUINT \<and> runtime_marker_fields_are_valid m) =
     (ifindex m \<le> G_MAXUINT \<and> runtime_marker_serialize (Some m) \<noteq> None)"
proof -
  have *: "runtime_marker_serialize (Some m) = Some b \<Longrightarrow> runtime_marker_fields_are_valid m" for b
    by (auto simp: runtime_marker_serialize_def split: if_splits)
  then have "marker_ok m = (ifindex m \<le> G_MAXUINT \<and> runtime_marker_serialize (Some m) \<noteq> None)"
    using marker_serialize_ok [of m] by (auto simp: marker_ok_def)
  moreover have "(runtime_marker_parse data = Some m) =
     (marker_ok m \<and> runtime_marker_serialize (Some m) = Some data)"
    by (rule journal.dec_iff_enc)
  ultimately show ?thesis using * by (auto simp: marker_ok_def)
qed

section \<open>Classification\<close>

lemma classify_active_iff:
  "(runtime_state_classify marker_exists marker_valid marker observation = RUNTIME_ACTIVE) =
   (marker_exists \<and> marker_valid \<and>
    (\<exists>m obs. marker = Some m \<and> observation = Some obs \<and>
       marker_state m = JOURNAL_ACTIVE \<and> ifindex m \<noteq> 0 \<and>
       token_matches obs = 1 \<and> token_ifindex obs = ifindex m \<and> token_has_expected_name obs \<and>
       \<not> (named_exists obs \<and> named_ifindex obs \<noteq> ifindex m) \<and>
       \<not> (dns_backend m = DNS_BACKEND_RESOLVED \<and> dns_state m = JOURNAL_DNS_UNKNOWN)))"
  by (cases marker; cases observation) (auto simp: runtime_state_classify_def)

text \<open>
  C22. Recovery never touches a link that is not ours. A runtime state is offered for recovery only
  with a valid marker and an observation, never once cleanup is unconfirmed, with at most one link
  carrying the token; a link of the interface's name, where one exists, is the link with the token;
  the link with the token, where one exists, has the expected name and the journal's index, if the
  journal has one; and with no such link the journal says that the cleanup was complete or that
  only the firewall is pending.
\<close>

theorem recoverable_is_ours:
  assumes "runtime_state_is_recoverable (runtime_state_classify marker_exists marker_valid marker observation)"
  shows "marker_exists \<and> marker_valid \<and>
    (\<exists>m obs. marker = Some m \<and> observation = Some obs \<and>
       marker_state m \<noteq> JOURNAL_CLEANUP_UNCONFIRMED \<and> token_matches obs \<le> 1 \<and>
       (named_exists obs \<longrightarrow> token_matches obs = 1 \<and> named_ifindex obs = token_ifindex obs) \<and>
       (token_matches obs = 1 \<longrightarrow>
          token_has_expected_name obs \<and> (ifindex m = 0 \<or> ifindex m = token_ifindex obs)) \<and>
       (token_matches obs = 0 \<longrightarrow>
          marker_state m = JOURNAL_CLEANUP_COMPLETE \<or> marker_state m = JOURNAL_FIREWALL_PENDING))"
  using assms
  by (cases marker; cases observation)
    (auto simp: runtime_state_classify_def runtime_state_is_recoverable_def split: if_splits)

theorem recoverable_is_ours_witness:
  "\<exists>m obs. marker_state m \<noteq> JOURNAL_CLEANUP_UNCONFIRMED \<and> (named_exists obs \<longrightarrow> token_matches obs = 1) \<and>
     runtime_state_is_recoverable (runtime_state_classify True True (Some m) (Some obs))"
proof -
  let ?m = "\<lparr>link_token = replicate 32 (CHR ''a''), ifindex = 7, dns_backend = DNS_BACKEND_NONE,
    marker_state = JOURNAL_CLEANUP_REQUIRED, dns_state = JOURNAL_DNS_ABSENT, was_active = True,
    firewall_scope = 1\<rparr>"
  let ?obs = "\<lparr>named_exists = True, named_ifindex = 7, token_matches = 1, token_ifindex = 7,
    token_has_expected_name = True, token_ifname = ''awg0''\<rparr>"
  have "runtime_state_is_recoverable (runtime_state_classify True True (Some ?m) (Some ?obs))"
    by (simp add: runtime_state_classify_def runtime_state_is_recoverable_def)
  with recoverable_is_ours [OF this] show ?thesis by blast
qed

lemma classify_known: "runtime_state_classify e v m obs \<noteq> RUNTIME_UNKNOWN"
  by (auto simp: runtime_state_classify_def split: option.splits)

end
