(* ===== verification/Profile_Report.thy ===== *)
theory Profile_Report
  imports Names Codec
begin

text \<open>
  \<open>amneziawg/profile_report.h\<close> and \<open>.c\<close>: the bounded list of saved profiles that the privileged
  helper reports to the service, and its text format. \<open>g_utf8_validate\<close> is GLib's and an argument
  of the decoder; of its documentation only this is used, that ASCII text is UTF-8. The hash table
  of names the encoder fills is the set of the names before an entry.
\<close>

section \<open>Data and operations\<close>

record report_entry =
  entry_name :: string
  entry_status :: profile_status

record profile_report =
  records :: "report_entry list"
  complete :: bool

definition profile_report_new :: profile_report where
  "profile_report_new = \<lparr>records = [], complete = True\<rparr>"

text \<open>The status arrives as a \<open>guint\<close>; the report is returned with the result of the call.\<close>

definition profile_report_add ::
    "profile_report \<Rightarrow> string option \<Rightarrow> nat \<Rightarrow> bool \<times> profile_report" where
  "profile_report_add r name status =
     (if length (records r) \<ge> report_max_records \<or> \<not> name_is_valid name \<or>
         \<not> profile_status_is_valid status then (False, r)
      else if the name \<in> entry_name ` set (records r) then (False, r)
      else (True, r\<lparr>records := records r @
              [\<lparr>entry_name = the name, entry_status = profile_status_of status\<rparr>]\<rparr>))"

fun encode_records :: "string list \<Rightarrow> report_entry list \<Rightarrow> bytes option" where
  "encode_records names [] = Some []"
| "encode_records names (e # es) =
     (if \<not> name_is_valid (Some (entry_name e)) \<or>
         \<not> profile_status_is_valid (profile_status_code (entry_status e)) \<or>
         entry_name e \<in> set names then None
      else Option.bind (encode_records (entry_name e # names) es) (\<lambda>rest.
        Some (uint_text (profile_status_code (entry_status e)) @ [TAB] @ entry_name e @ [LF] @ rest)))"

definition report_header :: "profile_report \<Rightarrow> bytes" where
  "report_header r =
     report_magic @ [TAB] @ uint_text report_version @ [TAB] @ uint_text (length (records r)) @
     [TAB] @ uint_text (if complete r then 1 else 0)"

definition profile_report_encode :: "profile_report option \<Rightarrow> bytes option" where
  "profile_report_encode report =
     (case report of None \<Rightarrow> None
      | Some r \<Rightarrow>
          (if length (records r) > report_max_records then None
           else Option.bind (encode_records [] (records r)) (\<lambda>lines.
             let output = report_header r @ [LF] @ lines
             in if length output > report_max_size then None else Some output)))"

text \<open>\<open>g_ascii_strtoull\<close> reports a number above \<open>G_MAXUINT64\<close> in \<open>errno\<close>.\<close>

definition parse_uint :: "bytes \<Rightarrow> nat \<Rightarrow> nat option" where
  "parse_uint text maximum =
     (if text = [] \<or> \<not> list_all ascii_isdigit text then None
      else if digits_value 0 text > G_MAXUINT64 \<or> digits_value 0 text > maximum then None
      else Some (digits_value 0 text))"

fun decode_records :: "profile_report \<Rightarrow> bytes list \<Rightarrow> profile_report option" where
  "decode_records r [] = Some r"
| "decode_records r (line # lines) =
     (let fields = g_strsplit line TAB
      in if length fields \<noteq> 2 then None
         else Option.bind (parse_uint (fields ! 0) G_MAXUINT) (\<lambda>status.
           if \<not> fst (profile_report_add r (Some (fields ! 1)) status) then None
           else decode_records (snd (profile_report_add r (Some (fields ! 1)) status)) lines))"

definition profile_report_decode ::
    "(bytes \<Rightarrow> bool) \<Rightarrow> bytes \<Rightarrow> helper_exit \<Rightarrow> profile_report option" where
  "profile_report_decode utf8_validate data status =
     (if status \<noteq> HELPER_SUCCESS \<and> status \<noteq> HELPER_INVENTORY_PARTIAL \<or> length data = 0 \<or>
         length data > report_max_size \<or> data ! (length data - 1) \<noteq> LF \<or>
         CHR 0x00 \<in> set data \<or> \<not> utf8_validate data then None
      else
        let ls = g_strsplit data LF;
            header = g_strsplit (ls ! 0) TAB
        in if length header \<noteq> 4 \<or> header ! 0 \<noteq> report_magic then None
           else
             Option.bind (parse_uint (header ! 1) G_MAXUINT) (\<lambda>version.
             if version \<noteq> report_version then None else
             Option.bind (parse_uint (header ! 2) report_max_records) (\<lambda>count.
             Option.bind (parse_uint (header ! 3) 1) (\<lambda>all.
             if length ls \<noteq> count + 2 \<or> ls ! (count + 1) \<noteq> [] \<or>
                (status = HELPER_SUCCESS) \<noteq> (all \<noteq> 0) then None
             else decode_records (profile_report_new\<lparr>complete := all \<noteq> 0\<rparr>)
                    (take count (drop 1 ls))))))"

section \<open>The invariant of a report\<close>

definition report_wf :: "profile_report \<Rightarrow> bool" where
  "report_wf r \<longleftrightarrow>
     length (records r) \<le> report_max_records \<and> distinct (map entry_name (records r)) \<and>
     list_all (\<lambda>e. name_is_valid (Some (entry_name e))) (records r)"

lemma report_wf_new [wf_intros]: "report_wf (profile_report_new\<lparr>complete := c\<rparr>)"
  by (simp add: report_wf_def profile_report_new_def)

lemma report_wf_add [wf_intros]:
  "report_wf r \<Longrightarrow> report_wf (snd (profile_report_add r name status))"
  by (cases name) (auto simp: report_wf_def profile_report_add_def name_is_valid_def)

lemma profile_report_add_complete [simp]:
  "complete (snd (profile_report_add r name status)) = complete r"
  by (simp add: profile_report_add_def)

lemma decode_records_wf:
  "decode_records r ls = Some r' \<Longrightarrow> report_wf r \<Longrightarrow> report_wf r' \<and> complete r' = complete r \<and>
     length (records r') = length (records r) + length ls"
proof (induction r ls arbitrary: r' rule: decode_records.induct)
  case (2 r line ls)
  let ?fields = "g_strsplit line TAB"
  from 2(2) obtain st where f: "length ?fields = 2" "parse_uint (?fields ! 0) G_MAXUINT = Some st"
    "fst (profile_report_add r (Some (?fields ! 1)) st)"
    "decode_records (snd (profile_report_add r (Some (?fields ! 1)) st)) ls = Some r'"
    by (auto simp: Let_def bind_eq_Some_conv split: if_splits)
  have len: "length (records (snd (profile_report_add r (Some (?fields ! 1)) st))) = length (records r) + 1"
    using f(3) by (auto simp: profile_report_add_def split: if_splits)
  have "report_wf r' \<and> complete r' = complete (snd (profile_report_add r (Some (?fields ! 1)) st)) \<and>
     length (records r') = length (records (snd (profile_report_add r (Some (?fields ! 1)) st))) + length ls"
    using 2(1) [OF refl _ f(2) _ f(4)] f(1,3) report_wf_add [OF 2(3)] by simp
  with len show ?case by simp
qed simp


section \<open>Reading back what was written\<close>

text \<open>What the decoder uses of \<open>g_utf8_validate\<close>.\<close>

definition accepts_ascii :: "(bytes \<Rightarrow> bool) \<Rightarrow> bool" where
  "accepts_ascii utf8_validate \<longleftrightarrow>
     (\<forall>s. list_all (\<lambda>c. byte_val c < 128) s \<longrightarrow> utf8_validate s)"

definition record_line :: "report_entry \<Rightarrow> bytes" where
  "record_line e = uint_text (profile_status_code (entry_status e)) @ TAB # entry_name e"

lemma status_code_valid [simp]: "profile_status_is_valid (profile_status_code s)"
  by (cases s) (simp_all add: profile_status_is_valid_def)

lemma encode_records_spec:
  "list_all (\<lambda>e. name_is_valid (Some (entry_name e))) es \<and> distinct (map entry_name es) \<and>
   set names \<inter> entry_name ` set es = {} \<Longrightarrow>
   encode_records names es = Some (concat (map (\<lambda>e. record_line e @ [LF]) es))"
  by (induction names es rule: encode_records.induct) (auto simp: record_line_def)

lemma encode_records_SomeD:
  "encode_records names es = Some out \<Longrightarrow>
   list_all (\<lambda>e. name_is_valid (Some (entry_name e))) es \<and> distinct (map entry_name es) \<and>
   set names \<inter> entry_name ` set es = {}"
  by (induction names es arbitrary: out rule: encode_records.induct)
    (auto simp: bind_eq_Some_conv split: if_splits)

lemma name_char_plain: "name_tail_char c \<Longrightarrow> c \<noteq> LF \<and> c \<noteq> TAB \<and> c \<noteq> CHR 0x00 \<and> byte_val c < 128"
  by (auto simp: name_tail_char_def ascii_isalnum_def ascii_isdigit_def ascii_isupper_def ascii_islower_def)

lemma name_valid_chars: "name_is_valid (Some s) \<Longrightarrow> list_all name_tail_char s \<and> s \<noteq> [] \<and> length s \<le> 15"
  by (cases s) (auto simp: name_is_valid_def name_tail_char_def max_interface_length_def split: if_splits)

lemma digit_plain: "ascii_isdigit c \<Longrightarrow> c \<noteq> LF \<and> c \<noteq> TAB \<and> c \<noteq> CHR 0x00 \<and> byte_val c < 128"
  by (auto simp: ascii_isdigit_def)

abbreviation plain_text :: "bytes \<Rightarrow> bool" where
  "plain_text s \<equiv> list_all (\<lambda>c. c \<noteq> LF \<and> c \<noteq> TAB \<and> c \<noteq> CHR 0x00 \<and> byte_val c < 128) s"

lemma plain_uint_text: "plain_text (uint_text n)"
  by (rule list.pred_mono_strong [OF uint_text_digits]) (rule digit_plain)

lemma plain_name: "name_is_valid (Some s) \<Longrightarrow> plain_text s"
  by (drule name_valid_chars) (auto simp: list_all_iff dest: name_char_plain)

lemma plain_magic: "plain_text report_magic"
  by (simp add: report_magic_def)

lemma split_lines:
  "list_all (\<lambda>l. LF \<notin> set l) ls \<Longrightarrow> split_on LF (concat (map (\<lambda>l. l @ [LF]) ls)) = ls @ [[]]"
  by (induction ls) (auto simp: split_on_append)

lemma plain_no_sep: "plain_text s \<Longrightarrow> LF \<notin> set s \<and> TAB \<notin> set s \<and> CHR 0x00 \<notin> set s"
  by (auto simp: list_all_iff)

lemma parse_uint_text: "n \<le> maximum \<Longrightarrow> maximum \<le> G_MAXUINT \<Longrightarrow> parse_uint (uint_text n) maximum = Some n"
  by (simp add: parse_uint_def uint_text_digits)

lemma decode_record_lines:
  assumes "report_wf (r\<lparr>records := records r @ es\<rparr>)"
  shows "decode_records r (map record_line es) = Some (r\<lparr>records := records r @ es\<rparr>)"
  using assms
proof (induction es arbitrary: r)
  case (Cons e es)
  let ?c = "uint_text (profile_status_code (entry_status e))"
  have wf: "length (records r) < report_max_records" "name_is_valid (Some (entry_name e))"
    "entry_name e \<notin> entry_name ` set (records r)"
    using Cons.prems by (auto simp: report_wf_def)
  have "g_strsplit (record_line e) TAB = [?c, entry_name e]"
    using plain_no_sep [OF plain_uint_text] plain_no_sep [OF plain_name [OF wf(2)]]
    by (simp add: g_strsplit_def record_line_def split_on_append split_on_no_sep)
  moreover have "profile_status_code (entry_status e) \<le> G_MAXUINT" by (cases "entry_status e") simp_all
  then have "parse_uint ?c G_MAXUINT = Some (profile_status_code (entry_status e))"
    by (rule parse_uint_text) simp
  moreover have "profile_report_add r (Some (entry_name e)) (profile_status_code (entry_status e)) =
      (True, r\<lparr>records := records r @ [e]\<rparr>)"
    using wf by (simp add: profile_report_add_def)
  ultimately show ?case
    using Cons.IH [of "r\<lparr>records := records r @ [e]\<rparr>"] Cons.prems by (simp add: Let_def)
qed simp

definition report_text :: "profile_report \<Rightarrow> bytes" where
  "report_text r = concat (map (\<lambda>l. l @ [LF]) (report_header r # map record_line (records r)))"

lemma concat_short:
  "list_all (\<lambda>l. length l \<le> k) ls \<Longrightarrow> length (concat (map (\<lambda>l. l @ [LF]) ls)) \<le> length ls * (k + 1)"
  by (induction ls) auto

lemma record_line_length: "name_is_valid (Some (entry_name e)) \<Longrightarrow> length (record_line e) \<le> 17"
proof -
  assume "name_is_valid (Some (entry_name e))"
  then have "length (entry_name e) \<le> 15" using name_valid_chars by blast
  moreover have "length (uint_text (profile_status_code (entry_status e))) \<le> 1"
    by (rule uint_text_length) (cases "entry_status e"; simp)+
  ultimately show ?thesis by (simp add: record_line_def)
qed

lemma report_text_length:
  assumes "report_wf r"
  shows "length (report_text r) \<le> report_max_size"
proof -
  have "list_all (\<lambda>l. length l \<le> 17) (map record_line (records r))"
    using assms record_line_length by (auto simp: report_wf_def list_all_iff)
  then have "length (concat (map (\<lambda>l. l @ [LF]) (map record_line (records r)))) \<le>
      length (records r) * 18" using concat_short [of 17 "map record_line (records r)"] by simp
  also have "\<dots> \<le> 256 * 18" using assms by (simp add: report_wf_def report_max_records_def)
  finally have "length (concat (map (\<lambda>l. l @ [LF]) (map record_line (records r)))) \<le> 4608" by simp
  moreover have "length (uint_text (length (records r))) \<le> 3" "length (uint_text report_version) \<le> 1"
    "length (uint_text (if complete r then 1 else 0)) \<le> 1"
    using assms
    by (auto intro!: uint_text_length simp: report_wf_def report_max_records_def report_version_def)
  then have "length (report_header r) \<le> 32"
    by (simp add: report_header_def report_magic_def del: if_split)
  ultimately show ?thesis by (simp add: report_text_def report_max_size_def)
qed

lemma report_encode_iff:
  "profile_report_encode (Some r) = Some data \<longleftrightarrow> report_wf r \<and> data = report_text r"
proof
  assume wf: "report_wf r \<and> data = report_text r"
  then have "encode_records [] (records r) =
      Some (concat (map (\<lambda>l. l @ [LF]) (map record_line (records r))))"
    using encode_records_spec [of "records r" "[]"] by (simp add: report_wf_def comp_def)
  with wf report_text_length [of r] show "profile_report_encode (Some r) = Some data"
    by (simp add: profile_report_encode_def report_wf_def report_text_def Let_def)
next
  assume "profile_report_encode (Some r) = Some data"
  then obtain ls where e: "length (records r) \<le> report_max_records"
    "encode_records [] (records r) = Some ls" "data = report_header r @ [LF] @ ls"
    by (auto simp: profile_report_encode_def Let_def bind_eq_Some_conv split: if_splits)
  then have "report_wf r" using encode_records_SomeD [OF e(2)] by (auto simp: report_wf_def)
  moreover from this have "ls = concat (map (\<lambda>l. l @ [LF]) (map record_line (records r)))"
    using e(2) encode_records_spec [of "records r" "[]"] by (simp add: report_wf_def comp_def)
  ultimately show "report_wf r \<and> data = report_text r" using e(3) by (simp add: report_text_def)
qed

lemma report_header_fields:
  "g_strsplit (report_header r) TAB =
     [report_magic, uint_text report_version, uint_text (length (records r)),
      uint_text (if complete r then 1 else 0)]"
proof -
  have "TAB \<notin> set report_magic" "TAB \<notin> set (uint_text n)" for n
    using plain_no_sep [OF plain_magic] plain_no_sep [OF plain_uint_text] by blast+
  then show ?thesis
    by (simp add: g_strsplit_def report_header_def report_magic_def split_on_append split_on_no_sep
        del: if_split)
qed

lemma plain_weaken:
  "plain_text s \<Longrightarrow> list_all (\<lambda>c. byte_val c < 128 \<and> c \<noteq> CHR 0x00 \<and> c \<noteq> LF) s"
  by (erule list.pred_mono_strong) simp

lemma report_text_bytes:
  assumes "report_wf r"
  shows "list_all (\<lambda>c. byte_val c < 128 \<and> c \<noteq> CHR 0x00) (report_text r)"
    and "list_all (\<lambda>l. LF \<notin> set l) (report_header r # map record_line (records r))"
proof -
  have h: "list_all (\<lambda>c. byte_val c < 128 \<and> c \<noteq> CHR 0x00 \<and> c \<noteq> LF) (report_header r)"
    using plain_magic plain_uint_text by (auto simp: report_header_def list_all_iff)
  have l: "list_all (\<lambda>c. byte_val c < 128 \<and> c \<noteq> CHR 0x00 \<and> c \<noteq> LF) (record_line e)"
    if "e \<in> set (records r)" for e
  proof -
    have "name_is_valid (Some (entry_name e))" using that assms by (auto simp: report_wf_def list_all_iff)
    from plain_weaken [OF plain_name [OF this]] plain_weaken [OF plain_uint_text] show ?thesis
      unfolding record_line_def list_all_append list.pred_inject by simp
  qed
  show "list_all (\<lambda>c. byte_val c < 128 \<and> c \<noteq> CHR 0x00) (report_text r)"
    using h l by (auto simp: report_text_def list_all_iff)
  show "list_all (\<lambda>l. LF \<notin> set l) (report_header r # map record_line (records r))"
    using h l by (auto simp: list_all_iff)
qed

lemma report_decode_text:
  assumes "accepts_ascii utf8_validate" and wf: "report_wf r"
    and status: "status = (if complete r then HELPER_SUCCESS else HELPER_INVENTORY_PARTIAL)"
  shows "profile_report_decode utf8_validate (report_text r) status = Some r"
proof -
  let ?d = "report_text r"
  note b = report_text_bytes [OF wf]
  have u: "utf8_validate ?d" "CHR 0x00 \<notin> set ?d"
    using assms(1) b(1) by (auto simp: accepts_ascii_def list_all_iff)
  have ne: "?d \<noteq> []" by (simp add: report_text_def)
  have "last ?d = LF"
    by (cases "records r" rule: rev_cases) (simp_all add: report_text_def)
  with ne have last: "?d ! (length ?d - 1) = LF" by (simp add: last_conv_nth)
  have ls: "g_strsplit ?d LF = (report_header r # map record_line (records r)) @ [[]]"
    using ne split_lines [OF b(2)] by (simp only: g_strsplit_def if_False report_text_def)
  let ?n = "length (records r)"
  have nums: "parse_uint (uint_text report_version) G_MAXUINT = Some report_version"
    "parse_uint (uint_text ?n) report_max_records = Some ?n"
    "parse_uint (uint_text (if complete r then 1 else 0)) 1 = Some (if complete r then 1 else 0)"
    using wf by (auto intro!: parse_uint_text
        simp: report_version_def report_max_records_def report_wf_def simp del: One_nat_def)
  have recs: "take ?n (drop 1 (g_strsplit ?d LF)) = map record_line (records r)"
    "g_strsplit ?d LF ! (?n + 1) = []" "length (g_strsplit ?d LF) = ?n + 2"
    "g_strsplit ?d LF ! 0 = report_header r"
    unfolding ls by (simp_all add: nth_append)
  have dec: "decode_records (profile_report_new\<lparr>complete := complete r\<rparr>) (map record_line (records r)) = Some r"
    using decode_record_lines [of "profile_report_new\<lparr>complete := complete r\<rparr>" "records r"] wf
    by (cases r) (simp add: profile_report_new_def)
  show "profile_report_decode utf8_validate ?d status = Some r"
    using u ne last report_text_length [OF wf] nums recs dec status
    by (cases "complete r") (simp_all add: profile_report_decode_def Let_def report_header_fields)
qed

lemma report_decode_facts:
  assumes "profile_report_decode utf8_validate data status = Some r"
  shows "report_wf r" and "status = (if complete r then HELPER_SUCCESS else HELPER_INVENTORY_PARTIAL)"
    and "length data \<le> report_max_size"
proof -
  have early: "length data \<le> report_max_size" "status = HELPER_SUCCESS \<or> status = HELPER_INVENTORY_PARTIAL"
    using assms unfolding profile_report_decode_def by (elim return_SomeE, simp)+
  from assms obtain ls c where *: "decode_records (profile_report_new\<lparr>complete := c\<rparr>) ls = Some r"
    "(status = HELPER_SUCCESS) = c"
    unfolding profile_report_decode_def Let_def by (elim early_returnE) (rule that, assumption, simp)
  from decode_records_wf [OF *(1) report_wf_new] have "report_wf r" "complete r = c" by simp_all
  with * early show "report_wf r" "length data \<le> report_max_size"
    "status = (if complete r then HELPER_SUCCESS else HELPER_INVENTORY_PARTIAL)"
    by auto
qed

lemma report_codec:
  assumes "accepts_ascii utf8_validate"
  shows "codec (\<lambda>r. profile_report_encode (Some r)) (\<lambda>data. profile_report_decode utf8_validate data status)
    (\<lambda>r. report_wf r \<and> status = (if complete r then HELPER_SUCCESS else HELPER_INVENTORY_PARTIAL))"
proof
  show "profile_report_decode utf8_validate b status = Some a" if
    "report_wf a \<and> status = (if complete a then HELPER_SUCCESS else HELPER_INVENTORY_PARTIAL)"
    "profile_report_encode (Some a) = Some b" for a b
  proof -
    from that(2) have "b = report_text a" by (simp add: report_encode_iff)
    then show ?thesis using report_decode_text [OF assms, of a status] that(1) by simp
  qed
  show "report_wf a \<and> status = (if complete a then HELPER_SUCCESS else HELPER_INVENTORY_PARTIAL)"
    if "profile_report_decode utf8_validate b status = Some a" for a b
    using report_decode_facts [OF that] by blast
qed





end
