(* ===== verification/Admission.thy ===== *)
theory Admission
  imports Runtime_Journal
begin

text \<open>
  \<open>amneziawg/admission.h\<close> and \<open>.c\<close>: the pure policy that decides which action on a profile is
  offered and which is allowed, from the authorization, the operations in flight, the dependencies
  that are missing and the runtime state of the target. Dependencies are bit flags.
\<close>

section \<open>Data\<close>

definition DEPENDENCY_NONE :: flags where "DEPENDENCY_NONE = 0"
definition DEPENDENCY_HELPER :: flags where "DEPENDENCY_HELPER = push_bit 0 1"
definition DEPENDENCY_SERVICE :: flags where "DEPENDENCY_SERVICE = push_bit 1 1"
definition DEPENDENCY_AWG_QUICK :: flags where "DEPENDENCY_AWG_QUICK = push_bit 2 1"

lemmas dependency_defs [flag_simps] =
  DEPENDENCY_NONE_def DEPENDENCY_HELPER_def DEPENDENCY_SERVICE_def DEPENDENCY_AWG_QUICK_def

datatype action = ACTION_IMPORT | ACTION_REPLACE | ACTION_UP | ACTION_DOWN | ACTION_DELETE

datatype blocked_reason =
  BLOCKED_NONE | BLOCKED_AUTHORIZATION | BLOCKED_BUSY | BLOCKED_CAPABILITIES
| BLOCKED_DEPENDENCIES | BLOCKED_PROFILE_MISSING | BLOCKED_PROFILE_ACTIVATION
| BLOCKED_PROFILE_REMOVAL | BLOCKED_RUNTIME_UNKNOWN | BLOCKED_CONFLICT | BLOCKED_MANUAL_CLEANUP
| BLOCKED_ALREADY_IN_STATE

record admission_context =
  authorized :: bool
  busy :: bool
  capabilities_known :: bool
  missing_dependencies :: flags

record admission_target =
  has_profile :: bool
  profile_status :: profile_status
  runtime_state :: runtime_state
  interface_exists :: bool

record action_availability =
  av_action :: action
  av_offered :: bool
  av_allowed :: bool
  av_blocked_reason :: blocked_reason
  av_missing_dependencies :: flags

section \<open>Operations\<close>

definition runtime_can_disconnect :: "runtime_state \<Rightarrow> bool" where
  "runtime_can_disconnect s \<longleftrightarrow> s = RUNTIME_ACTIVE \<or> runtime_state_is_recoverable s"

definition primary_action :: "runtime_state \<Rightarrow> action" where
  "primary_action s =
     (if runtime_can_disconnect s \<or> s = RUNTIME_MANUAL_INTERVENTION then ACTION_DOWN else ACTION_UP)"

text \<open>The test that exempts an action from \<open>awg-quick\<close>: the link is known to be absent.\<close>

definition target_link_absent :: "admission_target option \<Rightarrow> bool" where
  "target_link_absent target =
     (case target of None \<Rightarrow> False
      | Some t \<Rightarrow> runtime_state t \<noteq> RUNTIME_UNKNOWN \<and> \<not> interface_exists t)"

definition action_missing_dependencies ::
    "action \<Rightarrow> admission_context \<Rightarrow> admission_target option \<Rightarrow> bool \<Rightarrow> flags" where
  "action_missing_dependencies action ctx target runtime_cleanup_only =
     (let missing = missing_dependencies ctx
      in if action = ACTION_DOWN then
           (if \<not> capabilities_known ctx then and missing DEPENDENCY_SERVICE
            else if runtime_cleanup_only \<or> target_link_absent target
            then and missing (not DEPENDENCY_AWG_QUICK)
            else missing)
         else if action = ACTION_DELETE \<and> target_link_absent target
         then and missing (not DEPENDENCY_AWG_QUICK)
         else missing)"

definition dependency_blocked_reason :: "admission_context \<Rightarrow> flags \<Rightarrow> blocked_reason" where
  "dependency_blocked_reason ctx missing =
     (if missing = DEPENDENCY_NONE then BLOCKED_NONE
      else if \<not> capabilities_known ctx \<and> and missing DEPENDENCY_SERVICE = 0 then BLOCKED_CAPABILITIES
      else BLOCKED_DEPENDENCIES)"

definition runtime_blocked_reason ::
    "action \<Rightarrow> admission_context \<Rightarrow> admission_target \<Rightarrow> flags \<Rightarrow> blocked_reason" where
  "runtime_blocked_reason action ctx t missing =
     (if runtime_state t = RUNTIME_UNKNOWN then BLOCKED_RUNTIME_UNKNOWN
      else if runtime_state t = RUNTIME_CONFLICT then BLOCKED_CONFLICT
      else if runtime_state t = RUNTIME_MANUAL_INTERVENTION then BLOCKED_MANUAL_CLEANUP
      else if action = ACTION_DELETE then dependency_blocked_reason ctx missing
      else if runtime_can_disconnect (runtime_state t) = (action = ACTION_UP)
      then BLOCKED_ALREADY_IN_STATE
      else dependency_blocked_reason ctx missing)"

definition action_blocked_reason ::
    "action \<Rightarrow> admission_context \<Rightarrow> admission_target option \<Rightarrow> flags \<Rightarrow> blocked_reason" where
  "action_blocked_reason action ctx target missing =
     (if \<not> authorized ctx then BLOCKED_AUTHORIZATION
      else if busy ctx then BLOCKED_BUSY
      else if action = ACTION_IMPORT \<or> action = ACTION_REPLACE
      then dependency_blocked_reason ctx missing
      else case target of
        None \<Rightarrow>
          (if action = ACTION_UP then BLOCKED_PROFILE_MISSING
           else if action = ACTION_DELETE then BLOCKED_PROFILE_REMOVAL
           else BLOCKED_RUNTIME_UNKNOWN)
      | Some t \<Rightarrow>
          (if action = ACTION_UP \<and> \<not> has_profile t then BLOCKED_PROFILE_MISSING
           else if action = ACTION_UP \<and> profile_status t \<noteq> PROFILE_AVAILABLE
           then BLOCKED_PROFILE_ACTIVATION
           else if action = ACTION_DELETE \<and>
             (\<not> has_profile t \<or> \<not> profile_status_allows_removal (profile_status t))
           then BLOCKED_PROFILE_REMOVAL
           else runtime_blocked_reason action ctx t missing))"

fun action_offered :: "action \<Rightarrow> admission_target option \<Rightarrow> bool" where
  "action_offered ACTION_IMPORT target = True"
| "action_offered ACTION_REPLACE target = True"
| "action_offered ACTION_UP target =
     (case target of None \<Rightarrow> False
      | Some t \<Rightarrow> has_profile t \<and> profile_status t = PROFILE_AVAILABLE)"
| "action_offered ACTION_DOWN target =
     (case target of None \<Rightarrow> False | Some t \<Rightarrow> runtime_can_disconnect (runtime_state t))"
| "action_offered ACTION_DELETE target =
     (case target of None \<Rightarrow> False
      | Some t \<Rightarrow> has_profile t \<and> profile_status_allows_removal (profile_status t))"

definition action_evaluate ::
    "action \<Rightarrow> admission_context \<Rightarrow> admission_target option \<Rightarrow> action_availability" where
  "action_evaluate action ctx target =
     (let missing = action_missing_dependencies action ctx target False;
          reason = action_blocked_reason action ctx target missing
      in \<lparr>av_action = action, av_offered = action_offered action target,
          av_allowed = (reason = BLOCKED_NONE), av_blocked_reason = reason,
          av_missing_dependencies = missing\<rparr>)"

section \<open>What is allowed\<close>

text \<open>The specification of an allowed action, without the order of the tests.\<close>

definition settled :: "runtime_state \<Rightarrow> bool" where
  "settled s \<longleftrightarrow> s \<noteq> RUNTIME_UNKNOWN \<and> s \<noteq> RUNTIME_CONFLICT \<and> s \<noteq> RUNTIME_MANUAL_INTERVENTION"

fun target_permits :: "action \<Rightarrow> admission_target option \<Rightarrow> bool" where
  "target_permits ACTION_IMPORT target = True"
| "target_permits ACTION_REPLACE target = True"
| "target_permits action None = False"
| "target_permits ACTION_UP (Some t) \<longleftrightarrow>
     has_profile t \<and> profile_status t = PROFILE_AVAILABLE \<and> runtime_state t = RUNTIME_INACTIVE"
| "target_permits ACTION_DOWN (Some t) \<longleftrightarrow> runtime_can_disconnect (runtime_state t)"
| "target_permits ACTION_DELETE (Some t) \<longleftrightarrow>
     has_profile t \<and> profile_status_allows_removal (profile_status t) \<and> settled (runtime_state t)"

lemma dependency_blocked_none [simp]:
  "dependency_blocked_reason ctx missing = BLOCKED_NONE \<longleftrightarrow> missing = 0"
  by (simp add: dependency_blocked_reason_def DEPENDENCY_NONE_def)

lemma can_disconnect_iff:
  "runtime_can_disconnect s \<longleftrightarrow>
     s = RUNTIME_ACTIVE \<or> s = RUNTIME_RECOVERY_REQUIRED \<or> s = RUNTIME_FIREWALL_PENDING"
  by (auto simp: runtime_can_disconnect_def runtime_state_is_recoverable_def)

lemma not_disconnect_settled:
  "settled s \<Longrightarrow> \<not> runtime_can_disconnect s \<longleftrightarrow> s = RUNTIME_INACTIVE"
  by (cases s) (simp_all add: settled_def can_disconnect_iff)

lemma can_disconnect_settled: "runtime_can_disconnect s \<Longrightarrow> settled s"
  by (auto simp: settled_def can_disconnect_iff)

lemma runtime_blocked_none:
  "runtime_blocked_reason action ctx t missing = BLOCKED_NONE \<longleftrightarrow>
     settled (runtime_state t) \<and> missing = 0 \<and>
     (action = ACTION_DELETE \<or> (runtime_can_disconnect (runtime_state t) \<longleftrightarrow> action \<noteq> ACTION_UP))"
  by (auto simp: runtime_blocked_reason_def settled_def)

lemma target_permits_offered: "target_permits action target \<Longrightarrow> action_offered action target"
  by (cases target; cases action) simp_all

lemma blocked_none_iff:
  "action_blocked_reason action ctx target missing = BLOCKED_NONE \<longleftrightarrow>
     authorized ctx \<and> \<not> busy ctx \<and> target_permits action target \<and> missing = 0"
proof (cases target)
  case None
  then show ?thesis by (cases action) (simp_all add: action_blocked_reason_def)
next
  case (Some t)
  then show ?thesis
    by (cases action)
      (auto simp: action_blocked_reason_def runtime_blocked_none not_disconnect_settled
        can_disconnect_settled, auto simp: settled_def can_disconnect_iff)
qed

lemma action_allowed_iff:
  "av_allowed (action_evaluate action ctx target) =
     (av_offered (action_evaluate action ctx target) \<and> authorized ctx \<and> \<not> busy ctx \<and>
      target_permits action target \<and> action_missing_dependencies action ctx target False = 0)"
  by (auto simp: action_evaluate_def Let_def blocked_none_iff target_permits_offered)

lemma cleanup_without_awg_quick:
  assumes "authorized ctx" "\<not> busy ctx" "capabilities_known ctx"
    and "missing_dependencies ctx = DEPENDENCY_AWG_QUICK"
  shows "av_allowed (action_evaluate ACTION_DOWN ctx (Some t)) =
      (runtime_can_disconnect (runtime_state t) \<and> \<not> interface_exists t) \<and>
    av_allowed (action_evaluate ACTION_DELETE ctx (Some t)) =
      (has_profile t \<and> profile_status_allows_removal (profile_status t) \<and>
       settled (runtime_state t) \<and> \<not> interface_exists t) \<and>
    \<not> av_allowed (action_evaluate ACTION_UP ctx target) \<and>
    \<not> av_allowed (action_evaluate ACTION_IMPORT ctx target) \<and>
    \<not> av_allowed (action_evaluate ACTION_REPLACE ctx target)"
proof -
  have "runtime_can_disconnect s \<Longrightarrow> s \<noteq> RUNTIME_UNKNOWN" "settled s \<Longrightarrow> s \<noteq> RUNTIME_UNKNOWN" for s
    by (auto simp: settled_def can_disconnect_iff)
  with assms show ?thesis
    by (auto simp: action_evaluate_def Let_def blocked_none_iff action_missing_dependencies_def
        target_link_absent_def DEPENDENCY_AWG_QUICK_def)
qed

lemma cleanup_before_capabilities:
  assumes "authorized ctx" "\<not> busy ctx" "\<not> capabilities_known ctx" "runtime_can_disconnect (runtime_state t)"
  shows "av_blocked_reason (action_evaluate ACTION_DOWN ctx (Some t)) =
    (if and (missing_dependencies ctx) DEPENDENCY_SERVICE = 0 then BLOCKED_NONE else BLOCKED_DEPENDENCIES)"
  using assms
  by (auto simp: action_evaluate_def Let_def action_blocked_reason_def runtime_blocked_reason_def
      action_missing_dependencies_def dependency_blocked_reason_def DEPENDENCY_NONE_def can_disconnect_iff)

end
