(* ===== verification/Named_Store.thy ===== *)
theory Named_Store
  imports Main
begin

text \<open>
  The contract of a store of named items whose owner confirms changes one by one: \<open>put\<close> enters an
  item in its initial state \<open>fresh\<close> under a key, \<open>del\<close> removes the item of a key, \<open>look\<close> reads it,
  and a key that is not \<open>ok\<close> changes nothing. \<open>run_changes\<close> applies a history of confirmed changes,
  \<open>abs_changes\<close> does the same on a finite map.
\<close>

datatype 'k change = Put 'k | Del 'k

fun run_changes :: "('s \<Rightarrow> 'k \<Rightarrow> 's) \<Rightarrow> ('s \<Rightarrow> 'k \<Rightarrow> 's) \<Rightarrow> 's \<Rightarrow> 'k change list \<Rightarrow> 's" where
  "run_changes put del s [] = s"
| "run_changes put del s (Put k # cs) = run_changes put del (put s k) cs"
| "run_changes put del s (Del k # cs) = run_changes put del (del s k) cs"

fun abs_changes :: "('k \<Rightarrow> bool) \<Rightarrow> 'v \<Rightarrow> ('k \<rightharpoonup> 'v) \<Rightarrow> 'k change list \<Rightarrow> ('k \<rightharpoonup> 'v)" where
  "abs_changes ok fresh m [] = m"
| "abs_changes ok fresh m (Put k # cs) = abs_changes ok fresh (if ok k then m(k \<mapsto> fresh) else m) cs"
| "abs_changes ok fresh m (Del k # cs) = abs_changes ok fresh (if ok k then m(k := None) else m) cs"

locale named_store =
  fixes inv :: "'s \<Rightarrow> bool"
    and look :: "'s \<Rightarrow> 'k \<Rightarrow> 'v option"
    and put :: "'s \<Rightarrow> 'k \<Rightarrow> 's"
    and del :: "'s \<Rightarrow> 'k \<Rightarrow> 's"
    and ok :: "'k \<Rightarrow> bool"
    and fresh :: 'v
  assumes inv_put: "inv s \<Longrightarrow> inv (put s k)"
    and inv_del: "inv s \<Longrightarrow> inv (del s k)"
    and look_put: "inv s \<Longrightarrow> ok k \<Longrightarrow> look (put s k) = fun_upd (look s) k (Some fresh)"
    and look_del: "inv s \<Longrightarrow> ok k \<Longrightarrow> look (del s k) = (look s)(k := None)"
    and put_bad: "\<not> ok k \<Longrightarrow> put s k = s"
    and del_bad: "\<not> ok k \<Longrightarrow> del s k = s"
begin

lemma inv_run: "inv s \<Longrightarrow> inv (run_changes put del s cs)"
proof (induction cs arbitrary: s)
  case (Cons c cs)
  then show ?case by (cases c) (simp_all add: inv_put inv_del)
qed simp

lemma look_run:
  "inv s \<Longrightarrow> look (run_changes put del s cs) = abs_changes ok fresh (look s) cs"
proof (induction cs arbitrary: s)
  case (Cons c cs)
  show ?case
  proof (cases c)
    case (Put k)
    with Cons show ?thesis by (cases "ok k") (simp_all only: run_changes.simps abs_changes.simps inv_put look_put put_bad if_True if_False simp_thms)
  next
    case (Del k)
    with Cons show ?thesis by (cases "ok k") (simp_all only: run_changes.simps abs_changes.simps inv_del look_del del_bad if_True if_False simp_thms)
  qed
qed simp

lemma put_del: "inv s \<Longrightarrow> ok k \<Longrightarrow> look s k = None \<Longrightarrow> look (del (put s k) k) = look s"
  by (auto simp: look_del look_put inv_put)

lemma put_idem: "inv s \<Longrightarrow> ok k \<Longrightarrow> look (put (put s k) k) = look (put s k)"
  by (auto simp: look_put inv_put)

end

end
