(* ===== verification/Profile_Model.thy ===== *)
theory Profile_Model
  imports Admission Named_Store "HOL-Library.Product_Lexorder"
begin

text \<open>
  \<open>amneziawg/model.h\<close> and \<open>.c\<close>: the saved profiles, the rows shown for them, and the snapshot the
  user interface receives. The model, the arrays and the records the code passes by pointer are
  passed by value, so the code's tests for \<open>NULL\<close> have no counterpart except where \<open>NULL\<close> is a
  value the program uses (the runtime records and the name of the activity). The freeing functions
  have no counterpart either. A hash table used as a set of names is a list without duplicates in
  the order of insertion; \<open>sort_entries_order\<close> below shows that the rows do not depend on the order
  in which the table is traversed. \<open>strcmp\<close> is the lexicographic order on bytes.
\<close>

section \<open>Data\<close>

datatype activity =
  ACTIVITY_IDLE | ACTIVITY_IMPORT_SELECT | ACTIVITY_IMPORT_LOAD | ACTIVITY_IMPORT
| ACTIVITY_REPLACE_CONFIRM | ACTIVITY_REPLACE | ACTIVITY_UP | ACTIVITY_DOWN
| ACTIVITY_DELETE_CONFIRM | ACTIVITY_DELETE

datatype profile_warning_kind =
  WARNING_NONE | WARNING_PARTIAL | WARNING_TIMED_OUT | WARNING_INVALID_REPLY
| WARNING_HELPER_STATUS | WARNING_SERVICE_UNAVAILABLE | WARNING_SERVICE_BUSY
| WARNING_SERVICE_FAILED

record profile_warning =
  kind :: profile_warning_kind
  helper_status :: nat
  stale :: bool

record profile_record =
  pr_name :: string
  pr_status :: nat

record runtime_record =
  rr_name :: string
  rr_state :: runtime_state
  rr_interface_exists :: bool

record saved_profile =
  sp_name :: string
  sp_status :: profile_status

record stored_entry =
  se_name :: string
  se_has_profile :: bool
  se_profile_status :: profile_status
  se_runtime_state :: runtime_state
  se_display_runtime_state :: runtime_state
  se_interface_exists :: bool

record model =
  profiles :: "saved_profile list"
  entries :: "stored_entry list"
  switch_disconnect_names :: "string list"
  profiles_warning :: profile_warning
  inventory_valid :: bool

record entry =
  e_name :: string
  e_has_profile :: bool
  e_profile_status :: profile_status
  e_runtime_state :: runtime_state
  e_display_runtime_state :: runtime_state
  e_interface_exists :: bool
  e_pending :: bool
  e_primary_action :: action_availability
  e_remove_action :: action_availability

record snapshot =
  s_generation :: nat
  s_authorized :: bool
  s_capabilities_known :: bool
  s_missing_dependencies :: flags
  s_activity :: activity
  s_activity_name :: "string option"
  s_inventory_pending :: bool
  s_runtime_pending :: bool
  s_inventory_loading :: bool
  s_runtime_loading :: bool
  s_import_action :: action_availability
  s_profiles_warning :: profile_warning
  s_entries :: "entry list"

section \<open>Operations\<close>

definition no_warning :: profile_warning where
  "no_warning = \<lparr>kind = WARNING_NONE, helper_status = 0, stale = False\<rparr>"

definition model_new :: model where
  "model_new = \<lparr>profiles = [], entries = [], switch_disconnect_names = [],
     profiles_warning = no_warning, inventory_valid = False\<rparr>"

definition hash_add :: "string \<Rightarrow> string list \<Rightarrow> string list" where
  "hash_add n names = (if n \<in> set names then names else names @ [n])"

definition entry_key :: "string \<Rightarrow> string \<times> string" where
  "entry_key n = (map ascii_tolower n, n)"

definition find_profile :: "saved_profile list \<Rightarrow> string \<Rightarrow> saved_profile option" where
  "find_profile ps n = List.find (\<lambda>p. sp_name p = n) ps"

definition find_runtime_record :: "runtime_record list \<Rightarrow> string \<Rightarrow> runtime_record option" where
  "find_runtime_record rs n = List.find (\<lambda>r. rr_name r = n) rs"

definition find_stored_entry :: "stored_entry list \<Rightarrow> string \<Rightarrow> stored_entry option" where
  "find_stored_entry es n = List.find (\<lambda>e. se_name e = n) es"

definition activity_has_named_entry :: "activity \<Rightarrow> string option \<Rightarrow> bool" where
  "activity_has_named_entry act name \<longleftrightarrow>
     name \<noteq> None \<and> act \<noteq> ACTIVITY_IDLE \<and> act \<noteq> ACTIVITY_IMPORT_SELECT"

fun replacement_profiles ::
    "string list \<Rightarrow> profile_record list \<Rightarrow> saved_profile list option" where
  "replacement_profiles names [] = Some []"
| "replacement_profiles names (r # rs) =
     (if \<not> name_is_valid (Some (pr_name r)) \<or> \<not> profile_status_is_valid (pr_status r) \<or>
         pr_name r \<in> set names then None
      else Option.bind (replacement_profiles (hash_add (pr_name r) names) rs) (\<lambda>ps.
        Some (\<lparr>sp_name = pr_name r, sp_status = profile_status_of (pr_status r)\<rparr> # ps)))"

definition replace_profiles :: "model \<Rightarrow> profile_record list \<Rightarrow> bool \<times> model" where
  "replace_profiles m records =
     (if length records > report_max_records then (False, m)
      else case replacement_profiles [] records of
        None \<Rightarrow> (False, m)
      | Some ps \<Rightarrow> (True, m\<lparr>profiles := sort_key sp_name ps\<rparr>))"

definition mark_available :: "string \<Rightarrow> saved_profile list \<Rightarrow> saved_profile list" where
  "mark_available n ps =
     (let i = length (takeWhile (\<lambda>p. sp_name p \<noteq> n) ps)
      in if i < length ps then ps[i := (ps ! i)\<lparr>sp_status := PROFILE_AVAILABLE\<rparr>] else ps)"

definition record_import :: "model \<Rightarrow> string \<Rightarrow> model" where
  "record_import m n =
     (if \<not> name_is_valid (Some n) then m
      else case find_profile (profiles m) n of
        None \<Rightarrow> m\<lparr>profiles :=
          sort_key sp_name (profiles m @ [\<lparr>sp_name = n, sp_status = PROFILE_AVAILABLE\<rparr>])\<rparr>
      | Some _ \<Rightarrow> m\<lparr>profiles := mark_available n (profiles m)\<rparr>)"

fun remove_first_profile :: "string \<Rightarrow> saved_profile list \<Rightarrow> saved_profile list" where
  "remove_first_profile n [] = []"
| "remove_first_profile n (p # ps) = (if sp_name p = n then ps else p # remove_first_profile n ps)"

definition record_delete :: "model \<Rightarrow> string \<Rightarrow> model" where
  "record_delete m n =
     (if \<not> name_is_valid (Some n) then m
      else m\<lparr>profiles := remove_first_profile n (profiles m)\<rparr>)"

definition reset_profiles :: "model \<Rightarrow> model" where
  "reset_profiles m = m\<lparr>profiles := [], profiles_warning := no_warning, inventory_valid := False\<rparr>"

definition has_profile_data :: "model \<Rightarrow> bool" where
  "has_profile_data m \<longleftrightarrow>
     length (profiles m) \<noteq> 0 \<or> kind (profiles_warning m) \<noteq> WARNING_NONE \<or> inventory_valid m"

definition get_profile_status :: "model \<Rightarrow> string \<Rightarrow> profile_status option" where
  "get_profile_status m n = map_option sp_status (find_profile (profiles m) n)"

definition dup_profile_names :: "model \<Rightarrow> string list" where
  "dup_profile_names m = map sp_name (profiles m)"

definition set_inventory_valid :: "model \<Rightarrow> bool \<Rightarrow> model" where
  "set_inventory_valid m valid = m\<lparr>inventory_valid := valid\<rparr>"

definition warning_of :: "profile_warning_kind \<Rightarrow> nat \<Rightarrow> profile_warning" where
  "warning_of k status =
     \<lparr>kind = k, helper_status = (if k = WARNING_HELPER_STATUS then status else 0), stale = False\<rparr>"

definition set_profiles_warning :: "model \<Rightarrow> profile_warning_kind \<Rightarrow> nat \<Rightarrow> model" where
  "set_profiles_warning m k status =
     (let w = warning_of k status
      in if kind (profiles_warning m) = kind w \<and>
            helper_status (profiles_warning m) = helper_status w \<and> \<not> stale (profiles_warning m)
         then m else m\<lparr>profiles_warning := w\<rparr>)"

definition set_stale_profiles_warning :: "model \<Rightarrow> profile_warning_kind \<Rightarrow> nat \<Rightarrow> model" where
  "set_stale_profiles_warning m k status =
     m\<lparr>profiles_warning := (warning_of k status)\<lparr>stale := inventory_valid m\<rparr>\<rparr>"

definition begin_switch :: "model \<Rightarrow> model" where
  "begin_switch m =
     m\<lparr>switch_disconnect_names :=
        foldl (\<lambda>names e.
            if se_display_runtime_state e = RUNTIME_ACTIVE \<or>
               runtime_state_is_recoverable (se_display_runtime_state e)
            then hash_add (se_name e) names else names) [] (entries m)\<rparr>"

text \<open>The row for one name of the table of names, or none.\<close>

definition rebuild_entry ::
    "model \<Rightarrow> runtime_record list \<Rightarrow> bool \<Rightarrow> bool \<Rightarrow> string option \<Rightarrow> string \<Rightarrow> stored_entry option" where
  "rebuild_entry m runtime_records runtime_pending named_activity activity_name n =
     (let profile = find_profile (profiles m) n;
          runtime = find_runtime_record runtime_records n;
          state = (case runtime of Some r \<Rightarrow> rr_state r | None \<Rightarrow> RUNTIME_UNKNOWN);
          activity_entry = (named_activity \<and> activity_name = Some n \<or> n \<in> set (switch_disconnect_names m))
      in if profile = None \<and> state = RUNTIME_INACTIVE \<and> \<not> activity_entry then None
         else Some
           \<lparr>se_name = n, se_has_profile = (profile \<noteq> None),
            se_profile_status =
              (case profile of Some p \<Rightarrow> sp_status p | None \<Rightarrow> PROFILE_CHANGED_OR_UNREADABLE),
            se_runtime_state = state,
            se_display_runtime_state =
              (case find_stored_entry (entries m) n of
                 Some previous \<Rightarrow>
                   if runtime_pending \<and> state = RUNTIME_UNKNOWN
                   then se_display_runtime_state previous else state
               | None \<Rightarrow> state),
            se_interface_exists = (case runtime of Some r \<Rightarrow> rr_interface_exists r | None \<Rightarrow> False)\<rparr>)"

definition rebuild_names :: "model \<Rightarrow> runtime_record list \<Rightarrow> bool \<Rightarrow> string option \<Rightarrow> string list" where
  "rebuild_names m runtime_records named_activity activity_name =
     foldl (\<lambda>names n. hash_add n names) []
       (map sp_name (profiles m) @
        filter (\<lambda>n. name_is_valid (Some n)) (map rr_name runtime_records) @
        (if named_activity then [the activity_name] else []) @
        switch_disconnect_names m)"

definition sort_entries :: "(string \<Rightarrow> stored_entry option) \<Rightarrow> string list \<Rightarrow> stored_entry list" where
  "sort_entries row names = sort_key (\<lambda>e. entry_key (se_name e)) (List.map_filter row names)"

definition rebuild_entries ::
    "model \<Rightarrow> bool \<Rightarrow> runtime_record list \<Rightarrow> bool \<Rightarrow> activity \<Rightarrow> string option \<Rightarrow> model" where
  "rebuild_entries m auth runtime_records runtime_pending act activity_name =
     (let named = activity_has_named_entry act activity_name;
          m' = (if \<not> auth \<or> act \<noteq> ACTIVITY_UP then m\<lparr>switch_disconnect_names := []\<rparr> else m)
      in if \<not> auth then m'\<lparr>entries := []\<rparr>
         else m'\<lparr>entries :=
           sort_entries (rebuild_entry m' runtime_records runtime_pending named activity_name)
             (rebuild_names m' runtime_records named activity_name)\<rparr>)"

definition snapshot_entry ::
    "model \<Rightarrow> admission_context \<Rightarrow> activity \<Rightarrow> string option \<Rightarrow> bool \<Rightarrow> stored_entry \<Rightarrow> entry" where
  "snapshot_entry m ctx act activity_name runtime_pending stored =
     (let target = \<lparr>has_profile = se_has_profile stored, profile_status = se_profile_status stored,
            runtime_state = se_runtime_state stored, interface_exists = se_interface_exists stored\<rparr>
      in \<lparr>e_name = se_name stored, e_has_profile = se_has_profile stored,
          e_profile_status = se_profile_status stored, e_runtime_state = se_runtime_state stored,
          e_display_runtime_state =
            (if runtime_pending then se_display_runtime_state stored else se_runtime_state stored),
          e_interface_exists = se_interface_exists stored,
          e_pending =
            (act \<noteq> ACTIVITY_IDLE \<and>
             (activity_name = Some (se_name stored) \<or>
              act = ACTIVITY_UP \<and> se_name stored \<in> set (switch_disconnect_names m))),
          e_primary_action =
            action_evaluate (primary_action (se_runtime_state stored)) ctx (Some target),
          e_remove_action = action_evaluate ACTION_DELETE ctx (Some target)\<rparr>)"

definition dup_snapshot ::
    "model \<Rightarrow> nat \<Rightarrow> bool \<Rightarrow> bool \<Rightarrow> flags \<Rightarrow> activity \<Rightarrow> string option \<Rightarrow> bool \<Rightarrow> bool \<Rightarrow> bool \<Rightarrow> bool \<Rightarrow>
     snapshot" where
  "dup_snapshot m gen auth known missing act activity_name
       inventory_pending runtime_pending inventory_loading runtime_loading =
     (let ctx = \<lparr>authorized = auth, busy = (act \<noteq> ACTIVITY_IDLE), capabilities_known = known,
            missing_dependencies = missing\<rparr>
      in \<lparr>s_generation = gen, s_authorized = auth, s_capabilities_known = known,
          s_missing_dependencies = missing, s_activity = act, s_activity_name = activity_name,
          s_inventory_pending = inventory_pending, s_runtime_pending = runtime_pending,
          s_inventory_loading = inventory_loading, s_runtime_loading = runtime_loading,
          s_import_action = action_evaluate ACTION_IMPORT ctx None,
          s_profiles_warning = profiles_warning m,
          s_entries = map (snapshot_entry m ctx act activity_name runtime_pending) (entries m)\<rparr>)"

section \<open>The saved profiles are a store of named statuses\<close>

definition profiles_wf :: "saved_profile list \<Rightarrow> bool" where
  "profiles_wf ps \<longleftrightarrow> sorted (map sp_name ps) \<and> distinct (map sp_name ps) \<and>
     list_all (\<lambda>p. name_is_valid (Some (sp_name p))) ps"

lemma find_profile_iff:
  "distinct (map sp_name ps) \<Longrightarrow> find_profile ps n = Some p \<longleftrightarrow> p \<in> set ps \<and> sp_name p = n"
  by (simp add: find_profile_def find_key_iff)

lemma find_profile_None: "find_profile ps n = None \<longleftrightarrow> n \<notin> sp_name ` set ps"
  by (simp add: find_profile_def find_None_key)

lemma find_profile_sort: "distinct (map sp_name ps) \<Longrightarrow>
    find_profile (sort_key sp_name ps) n = find_profile ps n"
  unfolding find_profile_def by (rule find_key_cong) (auto simp: distinct_map)

lemma profiles_wf_sort [wf_intros]:
  "distinct (map sp_name ps) \<Longrightarrow> list_all (\<lambda>p. name_is_valid (Some (sp_name p))) ps \<Longrightarrow>
   profiles_wf (sort_key sp_name ps)"
  by (simp add: profiles_wf_def distinct_map list_all_iff)

lemma profiles_wf_distinct: "profiles_wf ps \<Longrightarrow> distinct (map sp_name ps)"
  by (simp add: profiles_wf_def)

lemma replacement_profiles_SomeD:
  "replacement_profiles names rs = Some ps \<Longrightarrow>
     ps = map (\<lambda>r. \<lparr>sp_name = pr_name r, sp_status = profile_status_of (pr_status r)\<rparr>) rs \<and>
     list_all (\<lambda>r. name_is_valid (Some (pr_name r)) \<and> profile_status_is_valid (pr_status r)) rs \<and>
     distinct (map pr_name rs) \<and> set names \<inter> pr_name ` set rs = {}"
  by (induction names rs arbitrary: ps rule: replacement_profiles.induct)
    (auto simp: bind_eq_Some_conv hash_add_def split: if_splits)

lemma replacement_profiles_complete:
  "list_all (\<lambda>r. name_is_valid (Some (pr_name r)) \<and> profile_status_is_valid (pr_status r)) rs \<Longrightarrow>
   distinct (map pr_name rs) \<Longrightarrow> set names \<inter> pr_name ` set rs = {} \<Longrightarrow>
   replacement_profiles names rs =
     Some (map (\<lambda>r. \<lparr>sp_name = pr_name r, sp_status = profile_status_of (pr_status r)\<rparr>) rs)"
  by (induction names rs rule: replacement_profiles.induct) (auto simp: hash_add_def)

lemma mark_available_spec:
  "find_profile ps n \<noteq> None \<Longrightarrow> map sp_name (mark_available n ps) = map sp_name ps \<and>
   map_option sp_status (find_profile (mark_available n ps) k) =
     (if k = n then Some PROFILE_AVAILABLE else map_option sp_status (find_profile ps k))"
proof (induction ps)
  case (Cons p ps)
  show ?case
  proof (cases "sp_name p = n")
    case True
    then show ?thesis by (simp add: mark_available_def find_profile_def)
  next
    case False
    have "mark_available n (p # ps) = p # mark_available n ps"
      using False by (simp add: mark_available_def Let_def)
    moreover have "find_profile ps n \<noteq> None" using Cons.prems False by (simp add: find_profile_def)
    ultimately show ?thesis using Cons.IH False by (auto simp: find_profile_def)
  qed
qed (simp add: find_profile_def)

lemma remove_first_profile_spec:
  "distinct (map sp_name ps) \<Longrightarrow> remove_first_profile n ps = filter (\<lambda>p. sp_name p \<noteq> n) ps"
proof (induction ps)
  case (Cons p ps)
  then have "sp_name p = n \<Longrightarrow> filter (\<lambda>p. sp_name p \<noteq> n) ps = ps"
    by (auto simp: filter_id_conv) (metis image_eqI)
  with Cons show ?case by auto
qed simp

lemma profiles_wf_names:
  "map sp_name ps = map sp_name qs \<Longrightarrow> profiles_wf ps \<Longrightarrow> profiles_wf qs"
proof -
  assume eq: "map sp_name ps = map sp_name qs" and wf: "profiles_wf ps"
  have "profiles_wf ps \<longleftrightarrow> sorted (map sp_name ps) \<and> distinct (map sp_name ps) \<and>
      list_all (\<lambda>n. name_is_valid (Some n)) (map sp_name ps)" for ps
    by (simp add: profiles_wf_def list.pred_map comp_def)
  with eq wf show ?thesis by simp
qed

lemma profiles_wf_import [wf_intros]:
  assumes "profiles_wf (profiles m)"
  shows "profiles_wf (profiles (record_import m n))"
proof (cases "name_is_valid (Some n) \<and> find_profile (profiles m) n = None")
  case True
  moreover from this have "n \<notin> sp_name ` set (profiles m)" by (simp add: find_profile_None)
  ultimately show ?thesis
    using assms profiles_wf_sort [of "profiles m @ [\<lparr>sp_name = n, sp_status = PROFILE_AVAILABLE\<rparr>]"]
    by (auto simp: record_import_def profiles_wf_distinct) (simp add: profiles_wf_def)
next
  case False
  with assms show ?thesis
    using profiles_wf_names [of "profiles m" "mark_available n (profiles m)"]
      mark_available_spec [of "profiles m" n]
    by (auto simp: record_import_def split: option.splits)
qed

lemma profiles_wf_delete [wf_intros]:
  "profiles_wf (profiles m) \<Longrightarrow> profiles_wf (profiles (record_delete m n))"
  by (auto simp: record_delete_def profiles_wf_def remove_first_profile_spec distinct_map_filter
      list_all_iff sorted_filter)

lemma profiles_wf_replace [wf_intros]:
  "profiles_wf (profiles m) \<Longrightarrow> profiles_wf (profiles (snd (replace_profiles m rs)))"
  by (auto simp: replace_profiles_def comp_def list_all_iff split: option.splits
      dest!: replacement_profiles_SomeD intro!: profiles_wf_sort)

lemma status_import:
  assumes "profiles_wf (profiles m)" "name_is_valid (Some n)"
  shows "get_profile_status (record_import m n) = fun_upd (get_profile_status m) n (Some PROFILE_AVAILABLE)"
proof
  fix k
  show "get_profile_status (record_import m n) k =
      fun_upd (get_profile_status m) n (Some PROFILE_AVAILABLE) k"
  proof (cases "find_profile (profiles m) n")
    case None
    let ?ps = "profiles m @ [\<lparr>sp_name = n, sp_status = PROFILE_AVAILABLE\<rparr>]"
    from None assms have "distinct (map sp_name ?ps)" by (auto simp: profiles_wf_def find_profile_None)
    then have "find_profile (sort_key sp_name ?ps) k = find_profile ?ps k" by (rule find_profile_sort)
    moreover have "find_profile (ps @ [\<lparr>sp_name = n, sp_status = PROFILE_AVAILABLE\<rparr>]) k = (case find_profile ps k of
        None \<Rightarrow> if k = n then Some \<lparr>sp_name = n, sp_status = PROFILE_AVAILABLE\<rparr> else None | Some p \<Rightarrow> Some p)" for ps
      by (induction ps) (auto simp: find_profile_def)
    ultimately show ?thesis using None assms
      by (auto simp: record_import_def get_profile_status_def split: option.splits)
  next
    case (Some p)
    with assms mark_available_spec [of "profiles m" n k] show ?thesis
      by (simp add: record_import_def get_profile_status_def)
  qed
qed

lemma status_delete:
  assumes "profiles_wf (profiles m)" "name_is_valid (Some n)"
  shows "get_profile_status (record_delete m n) = (get_profile_status m)(n := None)"
proof
  fix k
  have "find_profile (filter (\<lambda>p. sp_name p \<noteq> n) ps) k = (if k = n then None else find_profile ps k)" for ps
    by (induction ps) (auto simp: find_profile_def)
  with assms show "get_profile_status (record_delete m n) k = ((get_profile_status m)(n := None)) k"
    by (simp add: record_delete_def get_profile_status_def remove_first_profile_spec profiles_wf_def)
qed

lemma invalid_name_ignored:
  "\<not> name_is_valid (Some n) \<Longrightarrow> record_import m n = m"
  "\<not> name_is_valid (Some n) \<Longrightarrow> record_delete m n = m"
  by (simp_all add: record_import_def record_delete_def)

interpretation saved: named_store "\<lambda>m. profiles_wf (profiles m)" get_profile_status
  record_import record_delete "\<lambda>n. name_is_valid (Some n)" PROFILE_AVAILABLE
  by unfold_locales (simp_all only: wf_intros status_import status_delete invalid_name_ignored simp_thms)

text \<open>
  C24. Confirmed changes are never lost and never invented. A list of profile records is installed
  exactly if it is within the limit with valid, distinct names and known statuses, and the saved
  profiles are then that list as a map; any sequence of confirmed imports and deletions after it
  gives the map with those updates, in their order, where an import makes the profile available and
  an invalid name changes nothing; and the saved profiles stay sorted by name and without duplicates.
\<close>

theorem saved_profiles_refine_map:
  assumes "replace_profiles m records = (True, m')" and "profiles_wf (profiles m)"
  shows "length records \<le> report_max_records \<and> distinct (map pr_name records) \<and>
    get_profile_status (run_changes record_import record_delete m' changes) =
      abs_changes (\<lambda>n. name_is_valid (Some n)) PROFILE_AVAILABLE
        (map_of (map (\<lambda>r. (pr_name r, profile_status_of (pr_status r))) records)) changes \<and>
    profiles_wf (profiles (run_changes record_import record_delete m' changes))"
proof -
  from assms(1) obtain ps where ps: "replacement_profiles [] records = Some ps"
    "length records \<le> report_max_records" "m' = m\<lparr>profiles := sort_key sp_name ps\<rparr>"
    by (auto simp: replace_profiles_def split: if_splits option.splits)
  note r = replacement_profiles_SomeD [OF ps(1)]
  have d: "distinct (map sp_name ps)" using r by (simp add: comp_def)
  have wf: "profiles_wf (profiles m')"
    using profiles_wf_replace [OF assms(2), of records] assms(1) by simp
  have "get_profile_status m' n =
      map_of (map (\<lambda>r. (pr_name r, profile_status_of (pr_status r))) records) n" for n
  proof -
    have "get_profile_status m' n = map_option sp_status (find_profile ps n)"
      by (simp add: get_profile_status_def ps(3) find_profile_sort [OF d])
    also have "\<dots> = map_of (map (\<lambda>r. (pr_name r, profile_status_of (pr_status r))) records) n"
      using r by (induction records arbitrary: ps) (auto simp: find_profile_def)
    finally show ?thesis .
  qed
  then have "get_profile_status m' =
      map_of (map (\<lambda>r. (pr_name r, profile_status_of (pr_status r))) records)" ..
  with saved.look_run [OF wf, of changes] saved.inv_run [OF wf, of changes] ps(2) r
  show ?thesis by simp
qed

theorem saved_profiles_refine_map_witness:
  "get_profile_status (run_changes record_import record_delete
     (snd (replace_profiles model_new [\<lparr>pr_name = ''b'', pr_status = 2\<rparr>, \<lparr>pr_name = ''a'', pr_status = 0\<rparr>]))
     [Put ''c'', Del ''b'', Put ''/'']) ''c'' = Some PROFILE_AVAILABLE"
proof -
  let ?rs = "[\<lparr>pr_name = ''b'', pr_status = 2\<rparr>, \<lparr>pr_name = ''a'', pr_status = 0\<rparr>]"
  have "fst (replace_profiles model_new ?rs)" by code_simp
  then have r: "replace_profiles model_new ?rs = (True, snd (replace_profiles model_new ?rs))"
    by (metis prod.collapse)
  have "profiles_wf (profiles model_new)" by (simp add: profiles_wf_def model_new_def)
  from saved_profiles_refine_map [OF r this, of "[Put ''c'', Del ''b'', Put ''/'']"]
  have "get_profile_status (run_changes record_import record_delete (snd (replace_profiles model_new ?rs))
       [Put ''c'', Del ''b'', Put ''/'']) =
     abs_changes (\<lambda>n. name_is_valid (Some n)) PROFILE_AVAILABLE
       (map_of (map (\<lambda>r. (pr_name r, profile_status_of (pr_status r))) ?rs)) [Put ''c'', Del ''b'', Put ''/'']"
    by blast
  moreover have "name_is_valid (Some ''c'')" "name_is_valid (Some ''b'')" "\<not> name_is_valid (Some ''/'')"
    by code_simp+
  ultimately show ?thesis by simp
qed

text \<open>A list of records is refused only for one of the reasons the code tests.\<close>

lemma replace_profiles_accepts:
  "fst (replace_profiles m records) \<longleftrightarrow>
     length records \<le> report_max_records \<and> distinct (map pr_name records) \<and>
     list_all (\<lambda>r. name_is_valid (Some (pr_name r)) \<and> profile_status_is_valid (pr_status r)) records"
proof -
  have "replacement_profiles [] records = None \<longleftrightarrow> \<not> (distinct (map pr_name records) \<and>
     list_all (\<lambda>r. name_is_valid (Some (pr_name r)) \<and> profile_status_is_valid (pr_status r)) records)"
    using replacement_profiles_complete [of records "[]"] replacement_profiles_SomeD [of "[]" records]
    by (cases "replacement_profiles [] records") auto
  then show ?thesis by (auto simp: replace_profiles_def split: option.splits)
qed

section \<open>The rows\<close>

lemma entry_key_inj [simp]: "entry_key a = entry_key b \<longleftrightarrow> a = b"
  by (auto simp: entry_key_def)

lemma hash_add_fold:
  "distinct names \<Longrightarrow> distinct (foldl (\<lambda>names n. hash_add n names) names ns) \<and>
     set (foldl (\<lambda>names n. hash_add n names) names ns) = set names \<union> set ns"
  by (induction ns arbitrary: names) (auto simp: hash_add_def)

lemma rebuild_names_set:
  "distinct (rebuild_names m rs named an)"
  "n \<in> set (rebuild_names m rs named an) \<longleftrightarrow>
     n \<in> sp_name ` set (profiles m) \<or> name_is_valid (Some n) \<and> n \<in> rr_name ` set rs \<or>
     named \<and> n = the an \<or> n \<in> set (switch_disconnect_names m)"
  unfolding rebuild_names_def
  using hash_add_fold [of "[]" "map sp_name (profiles m) @
        filter (\<lambda>n. name_is_valid (Some n)) (map rr_name rs) @
        (if named then [the an] else []) @ switch_disconnect_names m"]
  by (auto simp del: foldl_append)

lemma rebuild_entry_name: "rebuild_entry m rs p named an n = Some e \<Longrightarrow> se_name e = n"
  by (auto simp: rebuild_entry_def Let_def split: if_splits)

lemma map_filter_rows:
  assumes "\<And>n e. row n = Some e \<Longrightarrow> se_name e = n"
  shows "distinct names \<Longrightarrow> distinct (map se_name (List.map_filter row names))"
    and "e \<in> set (List.map_filter row names) \<longleftrightarrow> se_name e \<in> set names \<and> row (se_name e) = Some e"
proof -
  have mem: "e \<in> set (List.map_filter row names) \<longleftrightarrow> (\<exists>n\<in>set names. row n = Some e)"
    by (force simp: List.map_filter_def)
  show "e \<in> set (List.map_filter row names) \<longleftrightarrow> se_name e \<in> set names \<and> row (se_name e) = Some e"
    unfolding mem using assms by metis
  have "map se_name (List.map_filter row names) = filter (\<lambda>n. row n \<noteq> None) names"
  proof (induction names)
    case (Cons n names)
    then show ?case by (cases "row n") (simp_all add: List.map_filter_simps assms)
  qed (simp add: List.map_filter_simps)
  then show "distinct names \<Longrightarrow> distinct (map se_name (List.map_filter row names))" by simp
qed

lemma sort_entries_order:
  assumes "\<And>n e. row n = Some e \<Longrightarrow> se_name e = n"
    and "distinct names" "distinct names'" "set names = set names'"
  shows "sort_entries row names = sort_entries row names'"
proof -
  have "set (List.map_filter row names) = set (List.map_filter row names')"
    using map_filter_rows(2) [OF assms(1)] assms(4) by blast
  moreover have "distinct (map se_name (List.map_filter row ns))" if "distinct ns" for ns
    using map_filter_rows(1) [OF assms(1)] that by blast
  ultimately show ?thesis
    unfolding sort_entries_def using assms(2,3)
    by (intro sort_key_unique) (auto simp: distinct_map inj_on_def)
qed

definition entries_wf :: "stored_entry list \<Rightarrow> bool" where
  "entries_wf es \<longleftrightarrow> sorted (map (\<lambda>e. entry_key (se_name e)) es) \<and> distinct (map se_name es)"

lemma sort_entries_wf:
  assumes "\<And>n e. row n = Some e \<Longrightarrow> se_name e = n" and "distinct names"
  shows "entries_wf (sort_entries row names)"
    and "find_stored_entry (sort_entries row names) n = (if n \<in> set names then row n else None)"
proof -
  let ?es = "List.map_filter row names"
  have d: "distinct (map se_name ?es)" using map_filter_rows(1) [OF assms(1)] assms(2) by blast
  then have d': "distinct (map se_name (sort_entries row names))"
    by (auto simp: sort_entries_def distinct_map)
  then show "entries_wf (sort_entries row names)" by (simp add: entries_wf_def sort_entries_def)
  have mem: "e \<in> set (sort_entries row names) \<longleftrightarrow> se_name e \<in> set names \<and> row (se_name e) = Some e" for e
    using map_filter_rows(2) [OF assms(1)] by (simp add: sort_entries_def)
  have "find_stored_entry (sort_entries row names) n = Some e \<longleftrightarrow>
      (if n \<in> set names then row n else None) = Some e" for e
    unfolding find_stored_entry_def find_key_iff [OF d'] mem using assms(1) [of n e]
    by (cases "se_name e = n") auto
  then show "find_stored_entry (sort_entries row names) n = (if n \<in> set names then row n else None)"
    by (metis option.exhaust)
qed

lemma rebuild_entries_authorized:
  assumes "m' = (if act \<noteq> ACTIVITY_UP then m\<lparr>switch_disconnect_names := []\<rparr> else m)"
    and "named = activity_has_named_entry act an"
  shows "entries (rebuild_entries m True rs p act an) =
      sort_entries (rebuild_entry m' rs p named an) (rebuild_names m' rs named an)"
    and "profiles (rebuild_entries m True rs p act an) = profiles m"
    and "switch_disconnect_names (rebuild_entries m True rs p act an) = switch_disconnect_names m'"
  unfolding assms by (simp_all add: rebuild_entries_def Let_def)

lemma entries_wf_rebuild [wf_intros]: "entries_wf (entries (rebuild_entries m auth rs p act an))"
proof (cases auth)
  case True
  then show ?thesis
    using sort_entries_wf(1) [OF rebuild_entry_name rebuild_names_set(1)]
    by (simp add: rebuild_entries_authorized(1) [OF refl refl])
qed (simp add: rebuild_entries_def entries_wf_def Let_def)

text \<open>When a name has a row.\<close>

definition row_wanted ::
    "model \<Rightarrow> runtime_record list \<Rightarrow> activity \<Rightarrow> string option \<Rightarrow> string \<Rightarrow> bool" where
  "row_wanted m rs act an n \<longleftrightarrow>
     get_profile_status m n \<noteq> None \<or>
     (case find_runtime_record rs n of
        Some r \<Rightarrow> name_is_valid (Some n) \<and> rr_state r \<noteq> RUNTIME_INACTIVE | None \<Rightarrow> False) \<or>
     an = Some n \<and> act \<noteq> ACTIVITY_IDLE \<and> act \<noteq> ACTIVITY_IMPORT_SELECT \<or>
     act = ACTIVITY_UP \<and> n \<in> set (switch_disconnect_names m)"

lemma rebuild_rows:
  fixes m rs p act an
  defines "es \<equiv> entries (rebuild_entries m True rs p act an)"
  shows "sorted_wrt (\<lambda>a b. entry_key (se_name a) < entry_key (se_name b)) es \<and>
    (find_stored_entry es n \<noteq> None) = row_wanted m rs act an n \<and>
    (case find_stored_entry es n of
       None \<Rightarrow> True
     | Some e \<Rightarrow>
         se_name e = n \<and> (se_has_profile e = (get_profile_status m n \<noteq> None)) \<and>
         se_profile_status e =
           (case get_profile_status m n of Some s \<Rightarrow> s | None \<Rightarrow> PROFILE_CHANGED_OR_UNREADABLE) \<and>
         se_runtime_state e =
           (case find_runtime_record rs n of Some r \<Rightarrow> rr_state r | None \<Rightarrow> RUNTIME_UNKNOWN) \<and>
         se_interface_exists e =
           (case find_runtime_record rs n of Some r \<Rightarrow> rr_interface_exists r | None \<Rightarrow> False))"
proof (intro conjI)
  define m' where "m' = (if act \<noteq> ACTIVITY_UP then m\<lparr>switch_disconnect_names := []\<rparr> else m)"
  define named where "named = activity_has_named_entry act an"
  have es: "es = sort_entries (rebuild_entry m' rs p named an) (rebuild_names m' rs named an)"
    unfolding es_def by (rule rebuild_entries_authorized(1) [OF m'_def named_def])
  have find: "find_stored_entry es n =
      (if n \<in> set (rebuild_names m' rs named an) then rebuild_entry m' rs p named an n else None)"
    unfolding es by (rule sort_entries_wf(2) [OF rebuild_entry_name rebuild_names_set(1)])
  have m': "profiles m' = profiles m" "entries m' = entries m"
    "n \<in> set (switch_disconnect_names m') \<longleftrightarrow> act = ACTIVITY_UP \<and> n \<in> set (switch_disconnect_names m)"
    by (simp_all add: m'_def)
  have rt: "find_runtime_record rs n = None \<longleftrightarrow> n \<notin> rr_name ` set rs"
    by (simp add: find_runtime_record_def find_None_key)
  have "entries_wf es" unfolding es_def by (rule wf_intros)
  then show "sorted_wrt (\<lambda>a b. entry_key (se_name a) < entry_key (se_name b)) es"
    unfolding entries_wf_def by (induction es) (auto simp: image_iff order_less_le)
  have row: "rebuild_entry m' rs p named an n = None \<longleftrightarrow>
      n \<notin> sp_name ` set (profiles m) \<and>
      (\<exists>r. find_runtime_record rs n = Some r \<and> rr_state r = RUNTIME_INACTIVE) \<and>
      \<not> (named \<and> an = Some n \<or> n \<in> set (switch_disconnect_names m'))"
    by (auto simp: rebuild_entry_def Let_def m'(1) find_profile_None split: option.splits)
  have named_iff: "named \<and> n = the an \<longleftrightarrow> an = Some n \<and> act \<noteq> ACTIVITY_IDLE \<and> act \<noteq> ACTIVITY_IMPORT_SELECT"
    "named \<and> an = Some n \<longleftrightarrow> an = Some n \<and> act \<noteq> ACTIVITY_IDLE \<and> act \<noteq> ACTIVITY_IMPORT_SELECT"
    by (auto simp: named_def activity_has_named_entry_def)
  have saved_iff: "get_profile_status m n \<noteq> None \<longleftrightarrow> n \<in> sp_name ` set (profiles m)"
    using find_profile_None [of "profiles m" n] by (simp add: get_profile_status_def)
  show "(find_stored_entry es n \<noteq> None) = row_wanted m rs act an n"
  proof (cases "find_runtime_record rs n")
    case None
    with rt have "n \<notin> rr_name ` set rs" by simp
    then show ?thesis
      unfolding row_wanted_def saved_iff find m'(3) [symmetric] option.case if_split [of "\<lambda>x. (x \<noteq> None) = _"]
        rebuild_names_set(2) named_iff(1) row named_iff(2) m'(1) None by auto
  next
    case (Some r)
    then have "n \<in> rr_name ` set rs" using rt by force
    with Some show ?thesis
      unfolding row_wanted_def saved_iff find m'(3) [symmetric] option.case if_split [of "\<lambda>x. (x \<noteq> None) = _"]
        rebuild_names_set(2) named_iff(1) row named_iff(2) m'(1) Some by blast
  qed
  show "case find_stored_entry es n of None \<Rightarrow> True
     | Some e \<Rightarrow>
         se_name e = n \<and> (se_has_profile e = (get_profile_status m n \<noteq> None)) \<and>
         se_profile_status e =
           (case get_profile_status m n of Some s \<Rightarrow> s | None \<Rightarrow> PROFILE_CHANGED_OR_UNREADABLE) \<and>
         se_runtime_state e =
           (case find_runtime_record rs n of Some r \<Rightarrow> rr_state r | None \<Rightarrow> RUNTIME_UNKNOWN) \<and>
         se_interface_exists e =
           (case find_runtime_record rs n of Some r \<Rightarrow> rr_interface_exists r | None \<Rightarrow> False)"
  proof (cases "find_stored_entry es n")
    case (Some e)
    then have "rebuild_entry m' rs p named an n = Some e" unfolding find by (simp split: if_splits)
    then have "e = \<lparr>se_name = n, se_has_profile = (find_profile (profiles m) n \<noteq> None),
        se_profile_status = (case find_profile (profiles m) n of Some p \<Rightarrow> sp_status p
          | None \<Rightarrow> PROFILE_CHANGED_OR_UNREADABLE),
        se_runtime_state = (case find_runtime_record rs n of Some r \<Rightarrow> rr_state r | None \<Rightarrow> RUNTIME_UNKNOWN),
        se_display_runtime_state = se_display_runtime_state e,
        se_interface_exists = (case find_runtime_record rs n of Some r \<Rightarrow> rr_interface_exists r | None \<Rightarrow> False)\<rparr>"
      unfolding rebuild_entry_def Let_def m' by (elim return_SomeE) auto
    then obtain d where e: "e = \<lparr>se_name = n, se_has_profile = (find_profile (profiles m) n \<noteq> None),
        se_profile_status = (case find_profile (profiles m) n of Some p \<Rightarrow> sp_status p
          | None \<Rightarrow> PROFILE_CHANGED_OR_UNREADABLE),
        se_runtime_state = (case find_runtime_record rs n of Some r \<Rightarrow> rr_state r | None \<Rightarrow> RUNTIME_UNKNOWN),
        se_display_runtime_state = d,
        se_interface_exists = (case find_runtime_record rs n of Some r \<Rightarrow> rr_interface_exists r | None \<Rightarrow> False)\<rparr>"
      by blast
    show ?thesis unfolding Some e
      by (cases "find_profile (profiles m) n") (simp_all add: get_profile_status_def)
  qed simp
qed

lemma rebuild_entries_rows:
  fixes m rs p act an
  defines "es \<equiv> entries (rebuild_entries m True rs p act an)"
  shows "sorted_wrt (\<lambda>a b. entry_key (se_name a) < entry_key (se_name b)) es \<and>
    (find_stored_entry es n \<noteq> None) = row_wanted m rs act an n \<and>
    (case find_stored_entry es n of
       None \<Rightarrow> True
     | Some e \<Rightarrow>
         se_name e = n \<and> (se_has_profile e = (get_profile_status m n \<noteq> None)) \<and>
         se_profile_status e =
           (case get_profile_status m n of Some s \<Rightarrow> s | None \<Rightarrow> PROFILE_CHANGED_OR_UNREADABLE) \<and>
         se_runtime_state e =
           (case find_runtime_record rs n of Some r \<Rightarrow> rr_state r | None \<Rightarrow> RUNTIME_UNKNOWN) \<and>
         se_interface_exists e =
           (case find_runtime_record rs n of Some r \<Rightarrow> rr_interface_exists r | None \<Rightarrow> False))"
  unfolding es_def by (rule rebuild_rows)

section \<open>Invalidation, switching and snapshots\<close>

lemma find_stored_entry_SomeD: "find_stored_entry es n = Some e \<Longrightarrow> e \<in> set es \<and> se_name e = n"
  unfolding find_stored_entry_def by (rule find_SomeD)

lemma rebuild_display:
  assumes "find_stored_entry (entries (rebuild_entries m True rs p act an)) n = Some e"
  shows "se_display_runtime_state e =
    (case find_stored_entry (entries m) n of
       Some previous \<Rightarrow> if p \<and> se_runtime_state e = RUNTIME_UNKNOWN
         then se_display_runtime_state previous else se_runtime_state e
     | None \<Rightarrow> se_runtime_state e)"
proof -
  define m' where "m' = (if act \<noteq> ACTIVITY_UP then m\<lparr>switch_disconnect_names := []\<rparr> else m)"
  define named where "named = activity_has_named_entry act an"
  have "find_stored_entry (sort_entries (rebuild_entry m' rs p named an) (rebuild_names m' rs named an)) n = Some e"
    using assms unfolding rebuild_entries_authorized(1) [OF m'_def named_def] .
  then have "rebuild_entry m' rs p named an n = Some e"
    using sort_entries_wf(2) [OF rebuild_entry_name rebuild_names_set(1)] by (simp split: if_splits)
  moreover have "entries m' = entries m" by (simp add: m'_def)
  ultimately show ?thesis
    unfolding rebuild_entry_def Let_def by (elim return_SomeE) (auto split: option.splits)
qed



text \<open>
  C23. What a snapshot allows. A row's primary action is allowed only to an authorized user with
  nothing in flight and so no row pending; bringing up is allowed only for a saved and available
  profile that is inactive, bringing down only for an interface that is active or recoverable, and
  removal only for a removable saved profile in a settled runtime state. The runtime state meant is
  the observed one: the state displayed has no say.
\<close>

theorem snapshot_allows_only_safe_actions:
  assumes "row \<in> set (s_entries (dup_snapshot m gen auth known missing act an ip rp il rl))"
    and "av_allowed (e_primary_action row) \<or> av_allowed (e_remove_action row)"
  shows "auth \<and> act = ACTIVITY_IDLE \<and> \<not> e_pending row \<and> settled (e_runtime_state row) \<and>
    (av_allowed (e_primary_action row) \<longrightarrow>
       av_action (e_primary_action row) = ACTION_DOWN \<and> runtime_can_disconnect (e_runtime_state row) \<or>
       av_action (e_primary_action row) = ACTION_UP \<and> e_has_profile row \<and>
         e_profile_status row = PROFILE_AVAILABLE \<and> e_runtime_state row = RUNTIME_INACTIVE) \<and>
    (av_allowed (e_remove_action row) \<longrightarrow>
       e_has_profile row \<and> profile_status_allows_removal (e_profile_status row))"
proof -
  from assms(1) obtain st where "row = snapshot_entry m \<lparr>authorized = auth, busy = (act \<noteq> ACTIVITY_IDLE),
      capabilities_known = known, missing_dependencies = missing\<rparr> act an rp st"
    by (auto simp: dup_snapshot_def Let_def)
  moreover have "settled RUNTIME_INACTIVE" by (simp add: settled_def)
  ultimately show ?thesis
    using assms(2) can_disconnect_settled
    by (auto simp: snapshot_entry_def Let_def action_evaluate_def blocked_none_iff primary_action_def)
qed

theorem snapshot_allows_only_safe_actions_witness:
  "\<exists>row m. row \<in> set (s_entries (dup_snapshot m 1 True True 0 ACTIVITY_IDLE None False False False False)) \<and>
    av_allowed (e_primary_action row) \<and> av_action (e_primary_action row) = ACTION_UP \<and> e_has_profile row"
proof -
  let ?m = "rebuild_entries (record_import model_new ''a'') True
    [\<lparr>rr_name = ''a'', rr_state = RUNTIME_INACTIVE, rr_interface_exists = False\<rparr>] False ACTIVITY_IDLE None"
  let ?s = "dup_snapshot ?m 1 True True 0 ACTIVITY_IDLE None False False False False"
  have "s_entries ?s \<noteq> [] \<and> av_allowed (e_primary_action (hd (s_entries ?s))) \<and>
      e_runtime_state (hd (s_entries ?s)) = RUNTIME_INACTIVE" by code_simp
  then have r: "hd (s_entries ?s) \<in> set (s_entries ?s)" "av_allowed (e_primary_action (hd (s_entries ?s)))"
      "e_runtime_state (hd (s_entries ?s)) = RUNTIME_INACTIVE" by simp_all
  moreover have "\<not> runtime_can_disconnect RUNTIME_INACTIVE" by (simp add: can_disconnect_iff)
  ultimately show ?thesis
    using snapshot_allows_only_safe_actions [OF r(1)] by metis
qed

text \<open>The rebuilds that scans trigger while the activity is Up.\<close>

fun rebuilds_during_up ::
    "model \<Rightarrow> (runtime_record list \<times> bool \<times> string option) list \<Rightarrow> model" where
  "rebuilds_during_up m [] = m"
| "rebuilds_during_up m ((rs, p, an) # steps) =
     rebuilds_during_up (rebuild_entries m True rs p ACTIVITY_UP an) steps"

lemma begin_switch_names:
  "set (switch_disconnect_names (begin_switch m)) =
     {se_name e |e. e \<in> set (entries m) \<and> runtime_can_disconnect (se_display_runtime_state e)}"
proof -
  have "set (foldl (\<lambda>names e. if P e then hash_add (se_name e) names else names) ns es) =
      set ns \<union> {se_name e |e. e \<in> set es \<and> P e}" for P ns es
    by (induction es arbitrary: ns) (auto simp: hash_add_def)
  from this [of "\<lambda>e. se_display_runtime_state e = RUNTIME_ACTIVE \<or>
      runtime_state_is_recoverable (se_display_runtime_state e)" "[]" "entries m"]
  show ?thesis by (simp add: begin_switch_def runtime_can_disconnect_def)
qed

lemma rebuilds_during_up_names:
  "switch_disconnect_names (rebuilds_during_up m steps) = switch_disconnect_names m"
proof (induction m steps rule: rebuilds_during_up.induct)
  case (2 m rs p an steps)
  then show ?case by (simp add: rebuild_entries_def Let_def)
qed simp



end
