(* ===== verification/Inventory.thy ===== *)
theory Inventory
  imports Profile_Model
begin

text \<open>
  \<open>amneziawg/inventory.h\<close>, \<open>inventory.c\<close> and \<open>refresh.h\<close>: when the list of saved profiles is asked
  for, and what its replies and failures do to the profile model. The state is an extensible
  record: the rest of the world (the controller, the backend, the runtime source) is its extension,
  so that the callbacks the inventory makes are arbitrary functions of the whole state and may
  re-enter it, as the code's callbacks may. They are gathered in a record of functions, the
  environment: \<open>ie_changed\<close> and \<open>ie_can_dispatch\<close> are the users' callbacks, \<open>ie_cancel\<close> is
  \<open>g_cancellable_cancel\<close> (which may complete the wait of a request synchronously),
  \<open>ie_execute\<close> and \<open>ie_invalidate_authorization\<close> are the backend's functions, and \<open>ie_now\<close> is
  \<open>g_get_monotonic_time\<close>. A request is its number, a timer source and a cancellation token are
  present or absent, and reference counts have no counterpart.
\<close>

section \<open>Data\<close>

datatype refresh_purpose = REFRESH_RECONCILE | REFRESH_VISIBLE

fun purpose_code :: "refresh_purpose \<Rightarrow> nat" where
  "purpose_code REFRESH_RECONCILE = 0"
| "purpose_code REFRESH_VISIBLE = 1"

instantiation refresh_purpose :: linorder
begin

definition less_eq_refresh_purpose :: "refresh_purpose \<Rightarrow> refresh_purpose \<Rightarrow> bool" where
  "less_eq_refresh_purpose a b \<longleftrightarrow> purpose_code a \<le> purpose_code b"

definition less_refresh_purpose :: "refresh_purpose \<Rightarrow> refresh_purpose \<Rightarrow> bool" where
  "less_refresh_purpose a b \<longleftrightarrow> purpose_code a < purpose_code b"

instance
proof
  show "a \<le> b \<Longrightarrow> b \<le> a \<Longrightarrow> a = b" for a b :: refresh_purpose
    by (cases a; cases b) (simp_all add: less_eq_refresh_purpose_def)
qed (auto simp: less_eq_refresh_purpose_def less_refresh_purpose_def)

end

datatype inventory_change = INVENTORY_STATE_CHANGED | INVENTORY_REFRESH_STARTED | INVENTORY_PROFILES_CHANGED

definition CAPABILITY_NONE :: flags where "CAPABILITY_NONE = 0"
definition CAPABILITY_HELPER :: flags where "CAPABILITY_HELPER = push_bit 0 1"
definition CAPABILITY_AWG_QUICK :: flags where "CAPABILITY_AWG_QUICK = push_bit 1 1"

lemmas capability_defs [flag_simps] = CAPABILITY_NONE_def CAPABILITY_HELPER_def CAPABILITY_AWG_QUICK_def

datatype backend_result_kind =
  RESULT_REPLY | RESULT_TIMED_OUT | RESULT_NOT_AUTHORIZED | RESULT_BUSY | RESULT_BUS_UNAVAILABLE
| RESULT_FAILED | RESULT_CANCELLED

record backend_result =
  result_kind :: backend_result_kind
  service_replied :: bool
  result_status :: nat
  result_capabilities :: flags
  inventory_complete :: bool
  result_profiles :: "profile_record list option"

definition INVENTORY_REFRESH_INTERVAL_SECONDS :: int where "INVENTORY_REFRESH_INTERVAL_SECONDS = 60"
definition INVENTORY_RECHECK_DELAY_MSEC :: nat where "INVENTORY_RECHECK_DELAY_MSEC = 2000"
definition INVENTORY_UNKNOWN_DEPENDENCIES :: flags where
  "INVENTORY_UNKNOWN_DEPENDENCIES = or DEPENDENCY_HELPER DEPENDENCY_AWG_QUICK"

abbreviation G_USEC_PER_SEC :: int where "G_USEC_PER_SEC \<equiv> 1000000"

record inventory =
  inv_model :: model
  inv_missing_dependencies :: flags
  inv_capabilities_known :: bool
  refresh_source :: bool
  source_deadline_us :: int
  last_attempt_us :: int
  retry_attempt :: nat
  dirty :: bool
  dirty_delay_ms :: nat
  queued_purpose :: refresh_purpose
  request_id :: nat
  pending :: bool
  pending_purpose :: refresh_purpose
  cancellable :: "nat option"
  inv_authorized :: bool
  enabled :: bool
  suspended :: bool
  inv_started :: bool
  inv_stopping :: bool

record 'x inventory_env =
  ie_now :: "'x inventory_scheme \<Rightarrow> int"
  ie_changed :: "inventory_change \<Rightarrow> refresh_purpose \<Rightarrow> 'x inventory_scheme \<Rightarrow> 'x inventory_scheme"
  ie_can_dispatch :: "('x inventory_scheme \<Rightarrow> bool \<times> 'x inventory_scheme) option"
  ie_cancel :: "nat \<Rightarrow> 'x inventory_scheme \<Rightarrow> 'x inventory_scheme"
  ie_execute :: "nat \<Rightarrow> 'x inventory_scheme \<Rightarrow> 'x inventory_scheme"
  ie_invalidate_authorization :: "'x inventory_scheme \<Rightarrow> 'x inventory_scheme"

section \<open>Operations\<close>

definition inventory_is_running :: "'x inventory_scheme \<Rightarrow> bool" where
  "inventory_is_running w \<longleftrightarrow> inv_started w \<and> \<not> inv_stopping w"

definition notify_changed ::
    "'x inventory_env \<Rightarrow> inventory_change \<Rightarrow> refresh_purpose \<Rightarrow> 'x inventory_scheme \<Rightarrow> 'x inventory_scheme" where
  "notify_changed E change purpose w =
     (if \<not> inventory_is_running w then w else ie_changed E change purpose w)"

definition cancel_refresh_source :: "'x inventory_scheme \<Rightarrow> 'x inventory_scheme" where
  "cancel_refresh_source w = w\<lparr>refresh_source := False, source_deadline_us := 0\<rparr>"

text \<open>The token is taken out of the state before it is cancelled.\<close>

definition drop_request :: "'x inventory_scheme \<Rightarrow> 'x inventory_scheme" where
  "drop_request w = w\<lparr>cancellable := None, pending := False, pending_purpose := REFRESH_RECONCILE\<rparr>"

definition cancel_request :: "'x inventory_env \<Rightarrow> 'x inventory_scheme \<Rightarrow> 'x inventory_scheme" where
  "cancel_request E w =
     (case cancellable w of
        None \<Rightarrow> drop_request w
      | Some token \<Rightarrow> ie_cancel E token (drop_request w))"

definition clear_inventory :: "'x inventory_scheme \<Rightarrow> 'x inventory_scheme" where
  "clear_inventory w =
     w\<lparr>dirty := False, dirty_delay_ms := 0, queued_purpose := REFRESH_RECONCILE,
       retry_attempt := 0, last_attempt_us := 0, inv_capabilities_known := False,
       inv_missing_dependencies := INVENTORY_UNKNOWN_DEPENDENCIES,
       inv_model := reset_profiles (inv_model w)\<rparr>"

definition reset_inventory :: "'x inventory_env \<Rightarrow> 'x inventory_scheme \<Rightarrow> 'x inventory_scheme" where
  "reset_inventory E w = clear_inventory (cancel_request E (cancel_refresh_source w))"

definition inventory_stop :: "'x inventory_env \<Rightarrow> 'x inventory_scheme \<Rightarrow> 'x inventory_scheme" where
  "inventory_stop E w =
     (if inv_stopping w then w
      else reset_inventory E
        (w\<lparr>inv_stopping := True, inv_started := False, inv_authorized := False, enabled := False\<rparr>))"

definition inventory_new :: "model \<Rightarrow> inventory" where
  "inventory_new m =
     \<lparr>inv_model = m, inv_missing_dependencies = INVENTORY_UNKNOWN_DEPENDENCIES,
      inv_capabilities_known = False, refresh_source = False, source_deadline_us = 0,
      last_attempt_us = 0, retry_attempt = 0, dirty = False, dirty_delay_ms = 0,
      queued_purpose = REFRESH_RECONCILE, request_id = 0, pending = False,
      pending_purpose = REFRESH_RECONCILE, cancellable = None, inv_authorized = False,
      enabled = False, suspended = False, inv_started = False, inv_stopping = False\<rparr>"

definition schedule_queued_refresh :: "'x inventory_env \<Rightarrow> 'x inventory_scheme \<Rightarrow> 'x inventory_scheme" where
  "schedule_queued_refresh E w =
     (if \<not> inventory_is_running w \<or> \<not> inv_authorized w \<or> \<not> enabled w \<or> suspended w \<or>
         \<not> dirty w \<or> pending w \<or> refresh_source w then w
      else let delay_ms = max (dirty_delay_ms w) 1
           in w\<lparr>refresh_source := True, source_deadline_us := ie_now E w + int delay_ms * 1000\<rparr>)"

definition inventory_start :: "'x inventory_env \<Rightarrow> 'x inventory_scheme \<Rightarrow> 'x inventory_scheme" where
  "inventory_start E w =
     (if inv_started w \<or> inv_stopping w then w
      else schedule_queued_refresh E (w\<lparr>inv_started := True\<rparr>))"

definition inventory_set_authorized ::
    "'x inventory_env \<Rightarrow> bool \<Rightarrow> 'x inventory_scheme \<Rightarrow> 'x inventory_scheme" where
  "inventory_set_authorized E auth w =
     (if inv_stopping w then w
      else let w1 = w\<lparr>inv_authorized := auth\<rparr>
           in if auth then schedule_queued_refresh E w1
              else let changed = pending w1 \<or> inv_capabilities_known w1 \<or>
                         inv_missing_dependencies w1 \<noteq> INVENTORY_UNKNOWN_DEPENDENCIES \<or>
                         has_profile_data (inv_model w1);
                       w2 = reset_inventory E w1
                   in if changed then notify_changed E INVENTORY_PROFILES_CHANGED REFRESH_VISIBLE w2
                      else w2)"

definition inventory_set_enabled ::
    "'x inventory_env \<Rightarrow> bool \<Rightarrow> 'x inventory_scheme \<Rightarrow> 'x inventory_scheme" where
  "inventory_set_enabled E on w =
     (if inv_stopping w \<or> enabled w = on then w
      else if \<not> on then cancel_refresh_source (w\<lparr>enabled := on\<rparr>)
      else schedule_queued_refresh E (w\<lparr>enabled := on, retry_attempt := 0\<rparr>))"

definition inventory_set_suspended ::
    "'x inventory_env \<Rightarrow> bool \<Rightarrow> 'x inventory_scheme \<Rightarrow> 'x inventory_scheme" where
  "inventory_set_suspended E sus w =
     (if inv_stopping w \<or> suspended w = sus then w
      else if \<not> sus then schedule_queued_refresh E (w\<lparr>suspended := sus\<rparr>)
      else w\<lparr>suspended := sus\<rparr>)"

definition mark_dirty :: "nat \<Rightarrow> refresh_purpose \<Rightarrow> 'x inventory_scheme \<Rightarrow> 'x inventory_scheme" where
  "mark_dirty delay_ms purpose w =
     w\<lparr>dirty_delay_ms := (if \<not> dirty w \<or> dirty_delay_ms w = 0 \<or> delay_ms < dirty_delay_ms w
                          then delay_ms else dirty_delay_ms w),
       dirty := True, queued_purpose := max (queued_purpose w) purpose\<rparr>"

definition inventory_queue_refresh ::
    "'x inventory_env \<Rightarrow> nat \<Rightarrow> refresh_purpose \<Rightarrow> 'x inventory_scheme \<Rightarrow> 'x inventory_scheme" where
  "inventory_queue_refresh E delay purpose w =
     (if \<not> inventory_is_running w then w
      else
        let delay_ms = max delay 1;
            requested_deadline_us = ie_now E w + int delay_ms * 1000;
            rearm_source = (refresh_source w \<and>
              (source_deadline_us w = 0 \<or> requested_deadline_us < source_deadline_us w));
            w1 = mark_dirty delay_ms purpose w
        in schedule_queued_refresh E (if rearm_source then cancel_refresh_source w1 else w1))"

definition inventory_preempt :: "'x inventory_env \<Rightarrow> 'x inventory_scheme \<Rightarrow> 'x inventory_scheme" where
  "inventory_preempt E w =
     (if \<not> inventory_is_running w then w
      else let w1 = inventory_set_suspended E True w
           in if \<not> pending w1 then w1
              else let w2 = cancel_request E w1;
                       w3 = inventory_queue_refresh E INVENTORY_RECHECK_DELAY_MSEC REFRESH_RECONCILE w2
                   in notify_changed E INVENTORY_STATE_CHANGED REFRESH_RECONCILE w3)"

definition retry_delays_ms :: "nat list" where
  "retry_delays_ms = [2000, 4000, 8000, 16000, 32000, 60000]"

definition inventory_schedule_retry ::
    "'x inventory_env \<Rightarrow> refresh_purpose \<Rightarrow> 'x inventory_scheme \<Rightarrow> 'x inventory_scheme" where
  "inventory_schedule_retry E purpose w =
     (if \<not> inventory_is_running w then w
      else
        let index = min (retry_attempt w) (length retry_delays_ms - 1);
            w1 = (if retry_attempt w < length retry_delays_ms - 1
                  then w\<lparr>retry_attempt := retry_attempt w + 1\<rparr> else w)
        in inventory_queue_refresh E (retry_delays_ms ! index) purpose w1)"

definition set_service_reachable :: "bool \<Rightarrow> 'x inventory_scheme \<Rightarrow> 'x inventory_scheme" where
  "set_service_reachable reachable w =
     (if reachable
      then w\<lparr>inv_missing_dependencies := and (inv_missing_dependencies w) (not DEPENDENCY_SERVICE)\<rparr>
      else w\<lparr>inv_missing_dependencies := or (inv_missing_dependencies w) DEPENDENCY_SERVICE\<rparr>)"

definition inventory_set_service_reachable ::
    "'x inventory_env \<Rightarrow> bool \<Rightarrow> 'x inventory_scheme \<Rightarrow> 'x inventory_scheme" where
  "inventory_set_service_reachable E reachable w =
     (if \<not> inventory_is_running w then w
      else let w1 = set_service_reachable reachable w
           in if inv_missing_dependencies w \<noteq> inv_missing_dependencies w1
              then notify_changed E INVENTORY_STATE_CHANGED REFRESH_VISIBLE w1 else w1)"

definition request_is_current :: "nat \<Rightarrow> 'x inventory_scheme \<Rightarrow> bool" where
  "request_is_current rid w \<longleftrightarrow>
     inventory_is_running w \<and> inv_authorized w \<and> pending w \<and> request_id w = rid"

definition finish_request ::
    "'x inventory_env \<Rightarrow> nat \<Rightarrow> inventory_change \<Rightarrow> 'x inventory_scheme \<Rightarrow> 'x inventory_scheme" where
  "finish_request E rid change w =
     (if request_is_current rid w then
        let purpose = pending_purpose w
        in schedule_queued_refresh E (notify_changed E change purpose (drop_request w))
      else w)"

definition model_replace_reply :: "model \<Rightarrow> profile_record list option \<Rightarrow> bool \<times> model" where
  "model_replace_reply m records =
     (case records of None \<Rightarrow> (False, m) | Some rs \<Rightarrow> replace_profiles m rs)"

definition apply_inventory_reply ::
    "'x inventory_env \<Rightarrow> backend_result \<Rightarrow> 'x inventory_scheme \<Rightarrow> bool \<times> 'x inventory_scheme" where
  "apply_inventory_reply E res w =
     (let success = (result_status res = helper_exit_code HELPER_SUCCESS);
          partial = (result_status res = helper_exit_code HELPER_INVENTORY_PARTIAL);
          status_is_inventory = (success \<or> partial);
          shape_valid = (success \<and> inventory_complete res \<or> partial \<and> \<not> inventory_complete res);
          w1 = w\<lparr>inv_capabilities_known := True, inv_missing_dependencies :=
            or (if and (result_capabilities res) CAPABILITY_HELPER = 0 then DEPENDENCY_HELPER else 0)
               (if and (result_capabilities res) CAPABILITY_AWG_QUICK = 0 then DEPENDENCY_AWG_QUICK else 0)\<rparr>;
          replaced = model_replace_reply (inv_model w1) (result_profiles res)
      in if status_is_inventory \<and> shape_valid \<and> fst replaced then
           (True, w1\<lparr>inv_model := set_profiles_warning (set_inventory_valid (snd replaced) True)
               (if inventory_complete res then WARNING_NONE else WARNING_PARTIAL) 0,
             retry_attempt := 0\<rparr>)
         else
           let warning =
                 (if result_status res = helper_exit_code HELPER_TIMED_OUT then WARNING_TIMED_OUT
                  else if status_is_inventory then WARNING_INVALID_REPLY else WARNING_HELPER_STATUS);
               w2 = w1\<lparr>inv_model := set_stale_profiles_warning (inv_model w1) warning (result_status res)\<rparr>
           in (False, inventory_schedule_retry E (pending_purpose w2) w2))"

definition apply_inventory_failure ::
    "'x inventory_env \<Rightarrow> backend_result \<Rightarrow> 'x inventory_scheme \<Rightarrow> 'x inventory_scheme" where
  "apply_inventory_failure E res w =
     (let (warning, w1) =
            (if result_kind res = RESULT_TIMED_OUT then (WARNING_TIMED_OUT, w)
             else if result_kind res = RESULT_BUS_UNAVAILABLE
             then (WARNING_SERVICE_UNAVAILABLE, set_service_reachable False w)
             else (if result_kind res = RESULT_BUSY then WARNING_SERVICE_BUSY else WARNING_SERVICE_FAILED,
                   set_service_reachable (service_replied res) w));
          w2 = w1\<lparr>inv_model := set_stale_profiles_warning (inv_model w1) warning 0\<rparr>
      in inventory_schedule_retry E (pending_purpose w2) w2)"

definition inventory_result_cb ::
    "'x inventory_env \<Rightarrow> nat \<Rightarrow> backend_result \<Rightarrow> 'x inventory_scheme \<Rightarrow> 'x inventory_scheme" where
  "inventory_result_cb E rid res w =
     (if \<not> request_is_current rid w then w
      else case result_kind res of
        RESULT_REPLY \<Rightarrow>
          (let (applied, w1) = apply_inventory_reply E res w
           in finish_request E rid
                (if applied then INVENTORY_PROFILES_CHANGED else INVENTORY_STATE_CHANGED) w1)
      | RESULT_CANCELLED \<Rightarrow> finish_request E rid INVENTORY_STATE_CHANGED w
      | RESULT_NOT_AUTHORIZED \<Rightarrow>
          finish_request E rid INVENTORY_STATE_CHANGED
            (ie_invalidate_authorization E (set_service_reachable (service_replied res) w))
      | _ \<Rightarrow> finish_request E rid INVENTORY_STATE_CHANGED (apply_inventory_failure E res w))"

text \<open>The last steps of a refresh: from the announcement of the new request to its dispatch.\<close>

definition dispatch_request :: "'x inventory_env \<Rightarrow> nat \<Rightarrow> 'x inventory_scheme \<Rightarrow> 'x inventory_scheme" where
  "dispatch_request E rid w =
     (if \<not> request_is_current rid w then w
      else let (admitted, w1) =
                 (case ie_can_dispatch E of None \<Rightarrow> (True, w) | Some can_dispatch \<Rightarrow> can_dispatch w)
           in if \<not> admitted then finish_request E rid INVENTORY_STATE_CHANGED w1
              else if \<not> request_is_current rid w1 then w1
              else ie_execute E rid w1)"

definition start_request ::
    "'x inventory_env \<Rightarrow> int \<Rightarrow> refresh_purpose \<Rightarrow> 'x inventory_scheme \<Rightarrow> 'x inventory_scheme" where
  "start_request E now purpose w =
     (let p = max purpose (queued_purpose w);
          w1 = w\<lparr>dirty := False, dirty_delay_ms := 0, queued_purpose := REFRESH_RECONCILE\<rparr>
      in if request_id w1 = G_MAXUINT64 then w1
         else let rid = request_id w1 + 1;
                  w2 = w1\<lparr>request_id := rid, pending := True, pending_purpose := p,
                         cancellable := Some rid, last_attempt_us := now\<rparr>
              in dispatch_request E rid (notify_changed E INVENTORY_REFRESH_STARTED p w2))"

definition inventory_request_refresh ::
    "'x inventory_env \<Rightarrow> bool \<Rightarrow> refresh_purpose \<Rightarrow> 'x inventory_scheme \<Rightarrow> 'x inventory_scheme" where
  "inventory_request_refresh E force purpose w =
     (if \<not> inventory_is_running w \<or> \<not> inv_authorized w then w
      else if \<not> enabled w then inventory_queue_refresh E 1 purpose w
      else if pending w then
        (if purpose > pending_purpose w
         then notify_changed E INVENTORY_REFRESH_STARTED purpose (w\<lparr>pending_purpose := purpose\<rparr>)
         else w)
      else if suspended w then inventory_queue_refresh E 1 purpose w
      else
        let w1 = (if refresh_source w then w\<lparr>queued_purpose := max (queued_purpose w) purpose\<rparr> else w)
        in if refresh_source w \<and> \<not> force then w1
           else
             let w2 = (if refresh_source w then cancel_refresh_source w1 else w1);
                 now = ie_now E w2
             in if \<not> force \<and> last_attempt_us w2 \<noteq> 0 \<and>
                   now - last_attempt_us w2 < INVENTORY_REFRESH_INTERVAL_SECONDS * G_USEC_PER_SEC
                then w2
                else start_request E now purpose w2)"

definition refresh_source_cb :: "'x inventory_env \<Rightarrow> 'x inventory_scheme \<Rightarrow> 'x inventory_scheme" where
  "refresh_source_cb E w =
     (let w1 = w\<lparr>refresh_source := False, source_deadline_us := 0\<rparr>
      in if \<not> inventory_is_running w1 \<or> \<not> inv_authorized w1
         then w1\<lparr>dirty := False, dirty_delay_ms := 0, queued_purpose := REFRESH_RECONCILE\<rparr>
         else if \<not> enabled w1 \<or> suspended w1 then w1
         else inventory_request_refresh E True (queued_purpose w1) w1)"

definition inventory_is_loading :: "'x inventory_scheme \<Rightarrow> bool" where
  "inventory_is_loading w \<longleftrightarrow> pending w \<and> pending_purpose w = REFRESH_VISIBLE"

section \<open>Invariants\<close>

text \<open>What holds whenever a callback runs, and so whenever an operation may be re-entered.\<close>

definition inv_ok :: "'x inventory_scheme \<Rightarrow> bool" where
  "inv_ok w \<longleftrightarrow>
     \<not> (inv_started w \<and> inv_stopping w) \<and>
     (pending w \<longrightarrow> inv_started w \<and> inv_authorized w) \<and>
     cancellable w = (if pending w then Some (request_id w) else None) \<and>
     (refresh_source w \<longrightarrow> inv_started w \<and> inv_authorized w \<and> enabled w \<and> \<not> pending w) \<and>
     (inv_stopping w \<longrightarrow> \<not> inv_authorized w) \<and>
     retry_attempt w < length retry_delays_ms \<and> request_id w \<le> G_MAXUINT64"

text \<open>No refresh is forgotten: one that is queued and may be sent has a timer.\<close>

definition lively :: "'x inventory_scheme \<Rightarrow> bool" where
  "lively w \<longleftrightarrow>
     \<not> (inventory_is_running w \<and> inv_authorized w \<and> enabled w \<and> \<not> suspended w \<and> dirty w \<and>
        \<not> pending w \<and> \<not> refresh_source w)"

text \<open>A request that was issued and whose wait is over.\<close>

definition retired :: "nat \<Rightarrow> 'x inventory_scheme \<Rightarrow> bool" where
  "retired rid w \<longleftrightarrow> rid \<le> request_id w \<and> \<not> (pending w \<and> request_id w = rid)"

text \<open>
  The contract of the callbacks: started in a state where the invariant holds, a callback ends in
  one, loses no queued refresh, does not revive a retired request, and does not restart an
  inventory that is stopping.
\<close>

definition keeps :: "'x inventory_scheme \<Rightarrow> 'x inventory_scheme \<Rightarrow> bool" where
  "keeps w w' \<longleftrightarrow>
     (inv_ok w \<longrightarrow> inv_ok w') \<and> (\<forall>rid. retired rid w \<longrightarrow> retired rid w') \<and>
     request_id w \<le> request_id w' \<and> (inv_stopping w \<longrightarrow> inv_stopping w')"

definition evolves :: "'x inventory_scheme \<Rightarrow> 'x inventory_scheme \<Rightarrow> bool" where
  "evolves w w' \<longleftrightarrow> keeps w w' \<and> (inv_ok w \<and> lively w \<longrightarrow> lively w')"

lemma keeps_refl [simp, intro]: "keeps w w"
  by (simp add: keeps_def)

lemma keeps_trans [trans]: "keeps a b \<Longrightarrow> keeps b c \<Longrightarrow> keeps a c"
  by (simp add: keeps_def)

lemma evolves_refl [simp, intro]: "evolves w w"
  by (simp add: evolves_def)

lemma evolves_trans [trans]: "evolves a b \<Longrightarrow> evolves b c \<Longrightarrow> evolves a c"
  by (auto simp: evolves_def keeps_def)

lemma evolves_keeps: "evolves w w' \<Longrightarrow> keeps w w'"
  by (simp add: evolves_def)

lemma keeps_lively: "keeps w w' \<Longrightarrow> lively w' \<Longrightarrow> evolves w w'"
  by (simp add: evolves_def)

lemma retry_delays_length [simp]: "length retry_delays_ms = 6"
  by (simp add: retry_delays_ms_def)

lemmas inventory_invs = inv_ok_def lively_def retired_def inventory_is_running_def

section \<open>The steps without callbacks\<close>

lemma lively_idle:
  "\<not> inventory_is_running w \<or> \<not> inv_authorized w \<or> \<not> enabled w \<or> suspended w \<or> \<not> dirty w \<or> pending w \<or>
   refresh_source w \<Longrightarrow> lively w"
  by (auto simp: lively_def)

lemma cancel_source_keeps [wf_intros]: "keeps w (cancel_refresh_source w)"
  by (auto simp: keeps_def cancel_refresh_source_def inv_ok_def retired_def)

lemma drop_request_keeps [wf_intros]: "keeps w (drop_request w)"
  by (auto simp: keeps_def drop_request_def inv_ok_def retired_def)

lemma drop_request_retires: "retired (request_id w) (drop_request w)"
  by (simp add: drop_request_def retired_def)

lemma clear_inventory_keeps [wf_intros]: "keeps w (clear_inventory w)"
  by (auto simp: keeps_def clear_inventory_def inv_ok_def retired_def retry_delays_ms_def)

lemma set_service_reachable_keeps [wf_intros]: "keeps w (set_service_reachable r w)"
  by (auto simp: keeps_def set_service_reachable_def inv_ok_def retired_def)

lemma set_service_reachable_lively: "lively (set_service_reachable r w) = lively w"
  by (auto simp: set_service_reachable_def lively_def inventory_is_running_def)

lemma schedule_keeps [wf_intros]: "keeps w (schedule_queued_refresh E w)"
  by (auto simp: keeps_def schedule_queued_refresh_def inventory_invs Let_def)

lemma schedule_lively [wf_intros]: "lively (schedule_queued_refresh E w)"
  by (auto simp: schedule_queued_refresh_def lively_def inventory_is_running_def Let_def)

lemma model_update_keeps: "keeps w (w\<lparr>inv_model := m, retry_attempt := 0\<rparr>)" "keeps w (w\<lparr>inv_model := m\<rparr>)"
  by (auto simp: keeps_def inv_ok_def retired_def)

lemma mark_dirty_keeps [wf_intros]: "keeps w (mark_dirty d p w)"
  by (auto simp: keeps_def mark_dirty_def inv_ok_def retired_def)

lemma schedule_evolves:
  "keeps w w' \<Longrightarrow> evolves w (schedule_queued_refresh E w')"
  by (rule keeps_lively) (auto intro: keeps_trans schedule_keeps schedule_lively)

lemma queue_refresh_evolves [wf_intros]: "evolves w (inventory_queue_refresh E d p w)"
proof -
  have "keeps w (cancel_refresh_source (mark_dirty d' p w))" for d'
    by (rule keeps_trans [OF mark_dirty_keeps cancel_source_keeps])
  then show ?thesis
    by (simp add: inventory_queue_refresh_def Let_def schedule_evolves mark_dirty_keeps)
qed

lemma schedule_retry_evolves [wf_intros]: "evolves w (inventory_schedule_retry E p w)"
proof -
  have "evolves w (w\<lparr>retry_attempt := retry_attempt w + 1\<rparr>)" if "retry_attempt w < length retry_delays_ms - 1"
    using that by (auto simp: evolves_def keeps_def inventory_invs)
  then show ?thesis
    by (auto simp: inventory_schedule_retry_def Let_def intro: wf_intros evolves_trans)
qed

lemma set_suspended_evolves [wf_intros]: "evolves w (inventory_set_suspended E s w)"
proof -
  have "keeps w (w\<lparr>suspended := s\<rparr>)" by (auto simp: keeps_def inv_ok_def retired_def)
  moreover have "lively (w\<lparr>suspended := True\<rparr>)" by (simp add: lively_def)
  ultimately show ?thesis
    by (cases s) (auto simp: inventory_set_suspended_def intro: keeps_lively keeps_trans wf_intros)
qed

lemma set_enabled_evolves [wf_intros]: "evolves w (inventory_set_enabled E on w)"
proof -
  have "keeps w (w\<lparr>enabled := True, retry_attempt := 0\<rparr>)"
    by (auto simp: keeps_def inv_ok_def retired_def)
  moreover have "evolves w (cancel_refresh_source (w\<lparr>enabled := False\<rparr>))"
    by (auto simp: evolves_def keeps_def cancel_refresh_source_def inventory_invs)
  ultimately show ?thesis
    by (cases on) (auto simp: inventory_set_enabled_def intro: keeps_lively keeps_trans wf_intros)
qed

lemma start_evolves [wf_intros]: "evolves w (inventory_start E w)"
proof -
  have "\<not> inv_stopping w \<Longrightarrow> keeps w (w\<lparr>inv_started := True\<rparr>)"
    by (auto simp: keeps_def inv_ok_def retired_def)
  then show ?thesis
    by (auto simp: inventory_start_def intro: keeps_lively keeps_trans wf_intros)
qed

section \<open>The contract of the callbacks and what it gives\<close>

locale inventory_contract =
  fixes E :: "'x inventory_env"
  assumes changed_evolves: "evolves w (ie_changed E c p w)"
    and can_dispatch_evolves: "ie_can_dispatch E = Some f \<Longrightarrow> evolves w (snd (f w))"
    and cancel_evolves: "evolves w (ie_cancel E token w)"
    and execute_evolves: "evolves w (ie_execute E rid w)"
    and invalidate_evolves: "evolves w (ie_invalidate_authorization E w)"
begin

lemma notify_evolves: "evolves w (notify_changed E c p w)"
  by (simp add: notify_changed_def changed_evolves)

lemma notify_after: "evolves w w' \<Longrightarrow> evolves w (notify_changed E c p w')"
  by (rule evolves_trans [OF _ notify_evolves])

lemma cancel_request_from_drop: "evolves (drop_request w) (cancel_request E w)"
  by (simp add: cancel_request_def cancel_evolves split: option.split)

lemma cancel_request_keeps: "keeps w (cancel_request E w)"
  by (rule keeps_trans [OF drop_request_keeps evolves_keeps [OF cancel_request_from_drop]])

lemma cancel_request_retires: "retired (request_id w) (cancel_request E w)"
  using cancel_request_from_drop [of w] drop_request_retires [of w] by (simp add: evolves_def keeps_def)

lemma reset_from:
  assumes "keeps w (drop_request (cancel_refresh_source w1))"
  shows "evolves w (reset_inventory E w1)"
proof (rule keeps_lively)
  have "keeps w (cancel_request E (cancel_refresh_source w1))"
    by (rule keeps_trans [OF assms evolves_keeps [OF cancel_request_from_drop]])
  then show "keeps w (reset_inventory E w1)"
    unfolding reset_inventory_def by (rule keeps_trans) (rule wf_intros)
  show "lively (reset_inventory E w1)"
    by (simp add: reset_inventory_def clear_inventory_def lively_def)
qed

lemma reset_retires: "retired (request_id w) (reset_inventory E w)"
proof -
  have "retired (request_id w) (cancel_request E (cancel_refresh_source w))"
    using cancel_request_retires [of "cancel_refresh_source w"] by (simp add: cancel_refresh_source_def)
  then show ?thesis using clear_inventory_keeps by (auto simp: reset_inventory_def keeps_def)
qed

lemma stop_evolves: "evolves w (inventory_stop E w)"
proof -
  let ?w = "w\<lparr>inv_stopping := True, inv_started := False, inv_authorized := False, enabled := False\<rparr>"
  have "keeps w (drop_request (cancel_refresh_source ?w))"
    by (auto simp: keeps_def drop_request_def cancel_refresh_source_def inv_ok_def retired_def)
  then show ?thesis by (simp add: inventory_stop_def reset_from)
qed

lemma set_authorized_evolves: "evolves w (inventory_set_authorized E auth w)"
proof -
  have "keeps w (drop_request (cancel_refresh_source (w\<lparr>inv_authorized := False\<rparr>)))"
    by (auto simp: keeps_def drop_request_def cancel_refresh_source_def inv_ok_def retired_def)
  from reset_from [OF this] have "evolves w (reset_inventory E (w\<lparr>inv_authorized := False\<rparr>))" .
  moreover have "\<not> inv_stopping w \<Longrightarrow> keeps w (w\<lparr>inv_authorized := True\<rparr>)"
    by (auto simp: keeps_def inv_ok_def retired_def)
  ultimately show ?thesis
    by (cases auth) (auto simp: inventory_set_authorized_def Let_def schedule_evolves notify_after)
qed

lemma preempt_evolves: "evolves w (inventory_preempt E w)"
proof -
  have k: "keeps w (inventory_set_suspended E True w)" by (rule evolves_keeps) (rule wf_intros)
  have "keeps w (cancel_request E (inventory_set_suspended E True w))"
    by (rule keeps_trans [OF k cancel_request_keeps])
  then have "keeps w (inventory_queue_refresh E d p (cancel_request E (inventory_set_suspended E True w)))" for d p
    by (rule keeps_trans) (rule evolves_keeps, rule wf_intros)
  moreover have "lively (inventory_queue_refresh E d p w)" if "inventory_is_running w" for d p w
    using that by (simp add: inventory_queue_refresh_def Let_def schedule_lively)
  moreover have "lively w" if "\<not> inventory_is_running w" for w :: "'x inventory_scheme"
    using that by (simp add: lively_def)
  ultimately have "evolves w (inventory_queue_refresh E d p (cancel_request E (inventory_set_suspended E True w)))" for d p
    by (metis inventory_queue_refresh_def keeps_lively)
  then show ?thesis
    by (auto simp: inventory_preempt_def Let_def intro: notify_after wf_intros)
qed

lemma set_reachable_evolves: "evolves w (inventory_set_service_reachable E r w)"
proof -
  have "evolves w (set_service_reachable r w)"
    by (simp add: evolves_def set_service_reachable_keeps set_service_reachable_lively)
  then show ?thesis by (auto simp: inventory_set_service_reachable_def Let_def intro: notify_after)
qed

lemma finish_evolves: "evolves w (finish_request E rid c w)"
proof -
  have "keeps w (notify_changed E c p (drop_request w))" for p
    by (rule keeps_trans [OF drop_request_keeps evolves_keeps [OF notify_evolves]])
  then show ?thesis by (auto simp: finish_request_def Let_def schedule_evolves)
qed

lemma finish_after: "evolves w w' \<Longrightarrow> evolves w (finish_request E rid c w')"
  by (rule evolves_trans [OF _ finish_evolves])

lemma finish_retires: "retired rid w \<or> request_is_current rid w \<Longrightarrow> retired rid (finish_request E rid c w)"
proof (cases "request_is_current rid w")
  case True
  have "keeps (drop_request w) (schedule_queued_refresh E (notify_changed E c p (drop_request w)))" for p
    by (rule keeps_trans [OF evolves_keeps [OF notify_evolves] schedule_keeps])
  with True show ?thesis
    using drop_request_retires [of w] by (auto simp: finish_request_def keeps_def request_is_current_def Let_def)
next
  case False
  moreover assume "retired rid w \<or> request_is_current rid w"
  ultimately show ?thesis by (simp add: finish_request_def)
qed

lemma apply_reply_evolves: "evolves w (snd (apply_inventory_reply E res w))"
proof -
  have "evolves w (w\<lparr>inv_capabilities_known := k, inv_missing_dependencies := d, inv_model := m, retry_attempt := 0\<rparr>)"
    "evolves w (w\<lparr>inv_capabilities_known := k, inv_missing_dependencies := d, inv_model := m\<rparr>)" for k d m
    by (auto simp: evolves_def keeps_def inventory_invs)
  note upd = this
  show ?thesis
    by (auto simp: apply_inventory_reply_def Let_def upd intro: evolves_trans [OF upd(2) schedule_retry_evolves])
qed

lemma apply_failure_evolves: "evolves w (apply_inventory_failure E res w)"
proof -
  have "evolves w (w\<lparr>inv_model := m\<rparr>)" for m
    by (auto simp: evolves_def keeps_def inventory_invs)
  note u1 = evolves_trans [OF this schedule_retry_evolves]
  have "evolves w ((set_service_reachable r w)\<lparr>inv_model := m\<rparr>)" for r m
    by (auto simp: evolves_def keeps_def inventory_invs set_service_reachable_def)
  note u2 = evolves_trans [OF this schedule_retry_evolves]
  show ?thesis
    by (cases "result_kind res") (simp_all add: apply_inventory_failure_def Let_def u1 u2)
qed

lemma result_evolves: "evolves w (inventory_result_cb E rid res w)"
proof -
  have "evolves w (set_service_reachable r w)" for r
    by (simp add: evolves_def set_service_reachable_keeps set_service_reachable_lively)
  then have "evolves w (ie_invalidate_authorization E (set_service_reachable r w))" for r
    by (rule evolves_trans) (rule invalidate_evolves)
  then show ?thesis
    using apply_reply_evolves [of w res] apply_failure_evolves [of w res]
    by (auto simp: inventory_result_cb_def finish_evolves split: backend_result_kind.split prod.split
        intro!: finish_after)
qed

lemma dispatch_evolves: "evolves w (dispatch_request E rid w)"
proof -
  have "evolves w (snd (case ie_can_dispatch E of None \<Rightarrow> (True, w) | Some f \<Rightarrow> f w))"
    using can_dispatch_evolves by (simp split: option.split)
  then show ?thesis
    by (auto simp: dispatch_request_def split: prod.split intro!: finish_after)
      (metis evolves_trans execute_evolves)
qed

lemma start_request_evolves:
  assumes k: "keeps w0 w" and "\<not> refresh_source w" "\<not> pending w" "inv_started w" "inv_authorized w"
  shows "evolves w0 (start_request E now p w)"
proof -
  let ?w1 = "w\<lparr>dirty := False, dirty_delay_ms := 0, queued_purpose := REFRESH_RECONCILE\<rparr>"
  have "keeps w ?w1" by (auto simp: keeps_def inventory_invs)
  then have e1: "evolves w0 ?w1" using k by (auto intro!: keeps_lively intro: keeps_trans simp: lively_def)
  have "keeps w (?w1\<lparr>request_id := request_id w + 1, pending := True, pending_purpose := q,
      cancellable := Some (request_id w + 1), last_attempt_us := now\<rparr>)" if "request_id w \<noteq> G_MAXUINT64" for q
    using assms(2-) that by (auto simp: keeps_def inventory_invs)
  then have "evolves w0 (?w1\<lparr>request_id := request_id w + 1, pending := True, pending_purpose := q,
      cancellable := Some (request_id w + 1), last_attempt_us := now\<rparr>)" if "request_id w \<noteq> G_MAXUINT64" for q
    using that k by (auto intro!: keeps_lively intro: keeps_trans simp: lively_def)
  with e1 show ?thesis
    by (auto simp: start_request_def Let_def intro!: evolves_trans [OF _ dispatch_evolves] notify_after)
qed

lemma request_refresh_evolves: "evolves w (inventory_request_refresh E force p w)"
proof -
  have bump: "evolves w (w\<lparr>pending_purpose := p\<rparr>)" "evolves w (w\<lparr>queued_purpose := q\<rparr>)" for q
    by (auto simp: evolves_def keeps_def inventory_invs)
  have k: "keeps w (cancel_refresh_source (w\<lparr>queued_purpose := q\<rparr>))" for q
    by (rule keeps_trans [OF evolves_keeps [OF bump(2)] cancel_source_keeps])
  have start1: "evolves w (start_request E now p (cancel_refresh_source (w\<lparr>queued_purpose := q\<rparr>)))"
    if "inventory_is_running w" "inv_authorized w" "\<not> pending w" for now q
    using that by (intro start_request_evolves [OF k]) (simp_all add: cancel_refresh_source_def inventory_is_running_def)
  have start2: "evolves w (start_request E now p w)"
    if "inventory_is_running w" "inv_authorized w" "\<not> pending w" "\<not> refresh_source w" for now
    using that by (intro start_request_evolves) (simp_all add: inventory_is_running_def)
  show ?thesis
    using bump start1 start2
    by (auto simp: inventory_request_refresh_def Let_def queue_refresh_evolves intro: notify_after)
qed

lemma timer_evolves:
  assumes "refresh_source w"
  shows "evolves w (refresh_source_cb E w)"
proof -
  let ?w1 = "w\<lparr>refresh_source := False, source_deadline_us := 0\<rparr>"
  have k: "keeps w ?w1" using cancel_source_keeps [of w] by (simp add: cancel_refresh_source_def)
  have "evolves w (?w1\<lparr>dirty := False, dirty_delay_ms := 0, queued_purpose := REFRESH_RECONCILE\<rparr>)"
    using k by (auto simp: evolves_def keeps_def inventory_invs)
  moreover have "evolves w ?w1" if "\<not> enabled w \<or> suspended w"
    using k that by (auto simp: evolves_def lively_def)
  moreover have "evolves w (inventory_request_refresh E True (queued_purpose w) ?w1)"
    if run: "inventory_is_running w" "inv_authorized w" and gates: "enabled w" "\<not> suspended w"
  proof (cases "pending w")
    case True
    with assms have "\<not> inv_ok w" by (simp add: inv_ok_def)
    then show ?thesis
      using evolves_keeps [OF request_refresh_evolves, of ?w1 True "queued_purpose w"] k
      by (auto simp: evolves_def keeps_def)
  next
    case False
    have "evolves w (start_request E now p ?w1)" for now p
      using run False by (intro start_request_evolves [OF k]) (simp_all add: inventory_is_running_def)
    with run gates False show ?thesis
      by (simp add: inventory_request_refresh_def Let_def inventory_is_running_def)
  qed
  ultimately show ?thesis
    by (auto simp: refresh_source_cb_def Let_def inventory_is_running_def)
qed

end

section \<open>Histories\<close>

datatype inventory_event =
  Ev_Start | Ev_Stop | Ev_Authorized bool | Ev_Enabled bool | Ev_Suspended bool | Ev_Preempt
| Ev_Request bool refresh_purpose | Ev_Queue nat refresh_purpose | Ev_Retry refresh_purpose
| Ev_Reachable bool | Ev_Timer | Ev_Result nat backend_result

fun inventory_step :: "'x inventory_env \<Rightarrow> inventory_event \<Rightarrow> 'x inventory_scheme \<Rightarrow> 'x inventory_scheme" where
  "inventory_step E Ev_Start w = inventory_start E w"
| "inventory_step E Ev_Stop w = inventory_stop E w"
| "inventory_step E (Ev_Authorized a) w = inventory_set_authorized E a w"
| "inventory_step E (Ev_Enabled a) w = inventory_set_enabled E a w"
| "inventory_step E (Ev_Suspended a) w = inventory_set_suspended E a w"
| "inventory_step E Ev_Preempt w = inventory_preempt E w"
| "inventory_step E (Ev_Request force p) w = inventory_request_refresh E force p w"
| "inventory_step E (Ev_Queue d p) w = inventory_queue_refresh E d p w"
| "inventory_step E (Ev_Retry p) w = inventory_schedule_retry E p w"
| "inventory_step E (Ev_Reachable r) w = inventory_set_service_reachable E r w"
| "inventory_step E Ev_Timer w = (if refresh_source w then refresh_source_cb E w else w)"
| "inventory_step E (Ev_Result rid res) w = inventory_result_cb E rid res w"

text \<open>
  The states a program can bring the inventory into: from a new one, by its operations in any
  order, by its timer when that is armed, by the delivery of any result for any request at any
  time, and by whatever the rest of the world does within the contract.
\<close>

inductive inventory_reachable :: "'x inventory_env \<Rightarrow> 'x inventory_scheme \<Rightarrow> bool" for E where
  fresh: "inventory.truncate w = inventory_new m \<Longrightarrow> inventory_reachable E w"
| event: "inventory_reachable E w \<Longrightarrow> inventory_reachable E (inventory_step E ev w)"
| world: "inventory_reachable E w \<Longrightarrow> evolves w w' \<Longrightarrow> inventory_reachable E w'"

fun inventory_run ::
    "'x inventory_env \<Rightarrow> inventory_event list \<Rightarrow> 'x inventory_scheme \<Rightarrow> 'x inventory_scheme" where
  "inventory_run E [] w = w"
| "inventory_run E (ev # evs) w = inventory_run E evs (inventory_step E ev w)"

lemma run_reachable: "inventory_reachable E w \<Longrightarrow> inventory_reachable E (inventory_run E evs w)"
  by (induction evs arbitrary: w) (simp_all add: inventory_reachable.event)

lemma retired_not_current: "retired rid w \<Longrightarrow> \<not> request_is_current rid w"
  by (auto simp: retired_def request_is_current_def)

context inventory_contract
begin

lemma step_evolves: "evolves w (inventory_step E ev w)"
  by (cases ev)
    (auto simp: stop_evolves set_authorized_evolves preempt_evolves request_refresh_evolves
      set_reachable_evolves timer_evolves result_evolves intro: wf_intros)

lemma run_evolves: "evolves w (inventory_run E evs w)"
proof (induction evs arbitrary: w)
  case (Cons ev evs)
  show ?case unfolding inventory_run.simps by (rule evolves_trans [OF step_evolves Cons.IH])
qed simp

lemma reachable_ok: "inventory_reachable E w \<Longrightarrow> inv_ok w \<and> lively w"
proof (induction rule: inventory_reachable.induct)
  case (fresh w m)
  then show ?case
    by (cases w) (auto simp: inventory.defs inventory_new_def inv_ok_def lively_def inventory_is_running_def)
next
  case (event w ev)
  with step_evolves [of w ev] show ?case by (simp add: evolves_def keeps_def)
qed (simp add: evolves_def keeps_def)

lemma current_or_retired:
  "inv_ok w \<Longrightarrow> rid \<le> request_id w \<Longrightarrow> retired rid w \<or> request_is_current rid w"
  by (auto simp: retired_def request_is_current_def inventory_is_running_def inv_ok_def)

lemma result_retires:
  assumes "inv_ok w" "rid \<le> request_id w"
  shows "retired rid (inventory_result_cb E rid res w)"
proof (cases "request_is_current rid w")
  case False
  with current_or_retired [OF assms] show ?thesis by (simp add: inventory_result_cb_def)
next
  case True
  have "retired rid (finish_request E rid c w')" if "evolves w w'" for c w'
    using that assms current_or_retired [of w' rid]
    by (intro finish_retires) (auto simp: evolves_def keeps_def)
  moreover have "evolves w (ie_invalidate_authorization E (set_service_reachable r w))" for r
    by (rule evolves_trans [OF _ invalidate_evolves])
      (simp add: evolves_def set_service_reachable_keeps set_service_reachable_lively)
  ultimately show ?thesis
    using True apply_reply_evolves [of w res] apply_failure_evolves [of w res]
    by (auto simp: inventory_result_cb_def split: backend_result_kind.split prod.split)
qed

lemma step_retires:
  assumes "inv_ok w" "pending w"
    and "ev \<in> {Ev_Preempt, Ev_Stop, Ev_Authorized False} \<union> range (Ev_Result (request_id w))"
  shows "retired (request_id w) (inventory_step E ev w)"
proof -
  have run: "inventory_is_running w" "inv_authorized w" "\<not> inv_stopping w"
    using assms(1,2) by (auto simp: inv_ok_def inventory_is_running_def)
  let ?s = "inventory_set_suspended E True w"
  have s: "request_id ?s = request_id w" "pending ?s = pending w"
    by (simp_all add: inventory_set_suspended_def)
  have "retired (request_id w) (cancel_request E ?s)"
    using cancel_request_retires [of ?s] s by simp
  then have "retired (request_id w) (notify_changed E c p (inventory_queue_refresh E d q (cancel_request E ?s)))" for c p d q
    using notify_after [OF queue_refresh_evolves] by (auto simp: evolves_def keeps_def)
  then have "ev = Ev_Preempt \<Longrightarrow> ?thesis"
    using assms(2) s run by (simp add: inventory_preempt_def Let_def)
  moreover have "retired (request_id w) (reset_inventory E w1)" if "request_id w1 = request_id w" for w1
    using reset_retires [of w1] that by simp
  then have "retired (request_id w) (notify_changed E c p (reset_inventory E w1))"
    "retired (request_id w) (reset_inventory E w1)" if "request_id w1 = request_id w" for w1 c p
    using that notify_evolves by (auto simp: evolves_def keeps_def)
  then have "ev = Ev_Stop \<or> ev = Ev_Authorized False \<Longrightarrow> ?thesis"
    using run by (auto simp: inventory_stop_def inventory_set_authorized_def Let_def)
  moreover have "ev \<in> range (Ev_Result (request_id w)) \<Longrightarrow> ?thesis"
    using result_retires [OF assms(1)] by auto
  ultimately show ?thesis using assms(3) by blast
qed

end

text \<open>An environment without users and without a transport: every callback returns at once.\<close>

definition quiet_env :: "'x inventory_env" where
  "quiet_env = \<lparr>ie_now = \<lambda>_. 0, ie_changed = \<lambda>_ _ w. w, ie_can_dispatch = None,
     ie_cancel = \<lambda>_ w. w, ie_execute = \<lambda>_ w. w, ie_invalidate_authorization = \<lambda>w. w\<rparr>"

lemma quiet_env_contract: "inventory_contract quiet_env"
  by unfold_locales (simp_all add: quiet_env_def)

text \<open>
  C20. No refresh is forgotten and none runs twice. Whatever operations, timers, results and
  re-entrant callbacks come in whatever order: at most one request is in flight, it belongs to a
  started and authorized inventory and owns the only cancellation token; the timer is armed only
  while nothing is in flight and the gates allow it; and a refresh that is queued while
  authorization, visibility and activity allow it and nothing is in flight has its timer armed.
\<close>

theorem inventory_never_forgets:
  assumes "inventory_contract E" and "inventory_reachable E w"
  shows "\<not> (inventory_is_running w \<and> inv_authorized w \<and> enabled w \<and> \<not> suspended w \<and> dirty w \<and>
      \<not> pending w \<and> \<not> refresh_source w) \<and>
    cancellable w = (if pending w then Some (request_id w) else None) \<and>
    (pending w \<longrightarrow> inventory_is_running w \<and> inv_authorized w \<and> \<not> refresh_source w) \<and>
    (refresh_source w \<longrightarrow> inventory_is_running w \<and> inv_authorized w \<and> enabled w)"
proof -
  have "inv_ok w" "lively w" using inventory_contract.reachable_ok [OF assms] by simp_all
  then show ?thesis by (auto simp: inv_ok_def lively_def inventory_is_running_def)
qed

theorem inventory_never_forgets_witness:
  "\<exists>w :: inventory. refresh_source w \<and> inventory_reachable quiet_env w \<and> enabled w"
proof -
  let ?w = "inventory_run quiet_env
    [Ev_Start, Ev_Authorized True, Ev_Queue 400 REFRESH_VISIBLE, Ev_Enabled True] (inventory_new model_new)"
  have r: "inventory_reachable quiet_env ?w"
    by (rule run_reachable, rule inventory_reachable.fresh) (simp add: inventory.defs inventory_new_def)
  have "inventory_is_running ?w \<and> inv_authorized ?w \<and> enabled ?w \<and> \<not> suspended ?w \<and> dirty ?w \<and> \<not> pending ?w"
    by (simp add: quiet_env_def inventory_new_def inventory_start_def schedule_queued_refresh_def
        inventory_set_authorized_def inventory_queue_refresh_def mark_dirty_def inventory_set_enabled_def
        inventory_is_running_def Let_def)
  with inventory_never_forgets [OF quiet_env_contract r] r show ?thesis by blast
qed

text \<open>
  C21. A result is applied at most once and never after its request was given up. Once a request
  has been preempted, or the inventory was stopped or lost its authorization while it was in
  flight, or a result for it was delivered, no later result for it changes anything, whatever
  happens in between.
\<close>

theorem retired_request_is_ignored:
  assumes "inventory_contract E" and "inventory_reachable E w" and "pending w"
    and "ev \<in> {Ev_Preempt, Ev_Stop, Ev_Authorized False} \<union> range (Ev_Result (request_id w))"
    and "w' = inventory_run E evs (inventory_step E ev w)"
  shows "inventory_result_cb E (request_id w) res w' = w'"
proof -
  have "retired (request_id w) (inventory_step E ev w)"
    using inventory_contract.step_retires [OF assms(1) _ assms(3,4)]
      inventory_contract.reachable_ok [OF assms(1,2)] by simp
  then have "retired (request_id w) w'"
    using inventory_contract.run_evolves [OF assms(1)] assms(5) by (auto simp: evolves_def keeps_def)
  then show ?thesis by (simp add: inventory_result_cb_def retired_not_current)
qed

theorem retired_request_is_ignored_witness:
  "\<exists>(w :: inventory) res. request_id w = 1 \<and> pending w \<and> result_kind res = RESULT_FAILED \<and>
    inventory_result_cb quiet_env 1 res
       (inventory_run quiet_env [Ev_Suspended False, Ev_Timer] (inventory_step quiet_env Ev_Preempt w)) =
     inventory_run quiet_env [Ev_Suspended False, Ev_Timer] (inventory_step quiet_env Ev_Preempt w)"
proof -
  let ?w = "inventory_run quiet_env
    [Ev_Start, Ev_Authorized True, Ev_Enabled True, Ev_Request True REFRESH_VISIBLE] (inventory_new model_new)"
  let ?res = "\<lparr>result_kind = RESULT_FAILED, service_replied = True, result_status = 0,
    result_capabilities = 0, inventory_complete = False, result_profiles = None\<rparr>"
  have r: "inventory_reachable quiet_env ?w"
    by (rule run_reachable, rule inventory_reachable.fresh) (simp add: inventory.defs inventory_new_def)
  have w: "pending ?w" "request_id ?w = 1"
    by (simp_all add: quiet_env_def inventory_new_def inventory_start_def schedule_queued_refresh_def
        inventory_set_authorized_def inventory_request_refresh_def start_request_def dispatch_request_def
        request_is_current_def notify_changed_def inventory_set_enabled_def inventory_is_running_def Let_def)
  then obtain w :: inventory where w: "inventory_reachable quiet_env w" "pending w" "request_id w = 1"
    using r by blast
  from retired_request_is_ignored [OF quiet_env_contract w(1,2) _ refl, of Ev_Preempt ?res
      "[Ev_Suspended False, Ev_Timer]"]
  have "inventory_result_cb quiet_env 1 ?res
       (inventory_run quiet_env [Ev_Suspended False, Ev_Timer] (inventory_step quiet_env Ev_Preempt w)) =
     inventory_run quiet_env [Ev_Suspended False, Ev_Timer] (inventory_step quiet_env Ev_Preempt w)"
    unfolding w(3) by blast
  moreover have "result_kind ?res = RESULT_FAILED" by simp
  ultimately show ?thesis using w by blast
qed

lemma schedule_keeps_knowledge [simp]:
  "inv_model (schedule_queued_refresh E w) = inv_model w"
  "inv_capabilities_known (schedule_queued_refresh E w) = inv_capabilities_known w"
  "inv_missing_dependencies (schedule_queued_refresh E w) = inv_missing_dependencies w"
  by (simp_all add: schedule_queued_refresh_def Let_def)

lemma queue_keeps_knowledge [simp]:
  "inv_model (inventory_queue_refresh E d p w) = inv_model w"
  "inv_capabilities_known (inventory_queue_refresh E d p w) = inv_capabilities_known w"
  "inv_missing_dependencies (inventory_queue_refresh E d p w) = inv_missing_dependencies w"
  unfolding inventory_queue_refresh_def Let_def
  by (cases "inventory_is_running w"; simp add: mark_dirty_def cancel_refresh_source_def)+

lemma retry_keeps_knowledge [simp]:
  "inv_model (inventory_schedule_retry E p w) = inv_model w"
  "inv_capabilities_known (inventory_schedule_retry E p w) = inv_capabilities_known w"
  "inv_missing_dependencies (inventory_schedule_retry E p w) = inv_missing_dependencies w"
  unfolding inventory_schedule_retry_def Let_def
  by (cases "inventory_is_running w"; simp)+

lemma inventory_reply_spec:
  fixes E :: "'x inventory_env" and w :: "'x inventory_scheme" and res
  defines "m \<equiv> inv_model w" and "w' \<equiv> snd (apply_inventory_reply E res w)"
  defines "accepted \<equiv>
    (result_status res = 0 \<and> inventory_complete res \<or> result_status res = 31 \<and> \<not> inventory_complete res) \<and>
    (case result_profiles res of None \<Rightarrow> False | Some rs \<Rightarrow> fst (replace_profiles m rs))"
  shows "fst (apply_inventory_reply E res w) = accepted \<and>
    (if accepted
     then profiles (inv_model w') = profiles (snd (replace_profiles m (the (result_profiles res)))) \<and>
       inventory_valid (inv_model w') \<and> retry_attempt w' = 0 \<and>
       kind (profiles_warning (inv_model w')) = (if result_status res = 0 then WARNING_NONE else WARNING_PARTIAL) \<and>
       \<not> stale (profiles_warning (inv_model w'))
     else profiles (inv_model w') = profiles m \<and> inventory_valid (inv_model w') = inventory_valid m \<and>
       kind (profiles_warning (inv_model w')) \<notin> {WARNING_NONE, WARNING_PARTIAL} \<and>
       stale (profiles_warning (inv_model w')) = inventory_valid m) \<and>
    inv_capabilities_known w' \<and>
    (and (inv_missing_dependencies w') DEPENDENCY_HELPER = 0) =
      (and (result_capabilities res) CAPABILITY_HELPER \<noteq> 0) \<and>
    (and (inv_missing_dependencies w') DEPENDENCY_AWG_QUICK = 0) =
      (and (result_capabilities res) CAPABILITY_AWG_QUICK \<noteq> 0) \<and>
    and (inv_missing_dependencies w') DEPENDENCY_SERVICE = 0"
proof -
  define w1 where "w1 = w\<lparr>inv_capabilities_known := True, inv_missing_dependencies :=
            or (if and (result_capabilities res) CAPABILITY_HELPER = 0 then DEPENDENCY_HELPER else 0)
               (if and (result_capabilities res) CAPABILITY_AWG_QUICK = 0 then DEPENDENCY_AWG_QUICK else 0)\<rparr>"
  have caps: "inv_capabilities_known w1"
    "(and (inv_missing_dependencies w1) DEPENDENCY_HELPER = 0) =
      (and (result_capabilities res) CAPABILITY_HELPER \<noteq> 0)"
    "(and (inv_missing_dependencies w1) DEPENDENCY_AWG_QUICK = 0) =
      (and (result_capabilities res) CAPABILITY_AWG_QUICK \<noteq> 0)"
    "and (inv_missing_dependencies w1) DEPENDENCY_SERVICE = 0"
    by (simp_all add: w1_def dependency_defs)
  have acc: "accepted = (((result_status res = 0 \<or> result_status res = 31) \<and>
      (result_status res = 0 \<and> inventory_complete res \<or> result_status res = 31 \<and> \<not> inventory_complete res)) \<and>
      fst (model_replace_reply (inv_model w1) (result_profiles res)))"
  proof -
    have same: "inv_model w1 = inv_model w" by (simp add: w1_def)
    show ?thesis
      unfolding accepted_def m_def same model_replace_reply_def
      by (cases "result_profiles res"; cases "inventory_complete res"; auto)
  qed
  show ?thesis
  proof (cases accepted)
    case True
    then have "apply_inventory_reply E res w = (True, w1\<lparr>inv_model := set_profiles_warning
          (set_inventory_valid (snd (model_replace_reply (inv_model w1) (result_profiles res))) True)
          (if inventory_complete res then WARNING_NONE else WARNING_PARTIAL) 0, retry_attempt := 0\<rparr>)"
      using acc by (simp add: apply_inventory_reply_def Let_def w1_def)
    moreover have "inv_model w1 = m" by (simp add: w1_def m_def)
    ultimately show ?thesis using True caps
      by (auto simp: w'_def accepted_def model_replace_reply_def set_profiles_warning_def warning_of_def
          set_inventory_valid_def Let_def split: option.splits)
  next
    case False
    define k where "k = (if result_status res = helper_exit_code HELPER_TIMED_OUT then WARNING_TIMED_OUT
        else if result_status res = helper_exit_code HELPER_SUCCESS \<or>
          result_status res = helper_exit_code HELPER_INVENTORY_PARTIAL then WARNING_INVALID_REPLY
        else WARNING_HELPER_STATUS)"
    have k: "k \<notin> {WARNING_NONE, WARNING_PARTIAL}" by (simp add: k_def)
    have m1: "inv_model w1 = m" and p1: "pending_purpose w1 = pending_purpose w"
      by (simp_all add: w1_def m_def)
    have no: "\<not> ((result_status res = helper_exit_code HELPER_SUCCESS \<or>
          result_status res = helper_exit_code HELPER_INVENTORY_PARTIAL) \<and>
        (result_status res = helper_exit_code HELPER_SUCCESS \<and> inventory_complete res \<or>
         result_status res = helper_exit_code HELPER_INVENTORY_PARTIAL \<and> \<not> inventory_complete res) \<and>
        fst (model_replace_reply (inv_model w1) (result_profiles res)))"
      using False unfolding acc by simp
    have eq: "apply_inventory_reply E res w = (False, inventory_schedule_retry E (pending_purpose w)
        (w1\<lparr>inv_model := set_stale_profiles_warning m k (result_status res)\<rparr>))"
      unfolding apply_inventory_reply_def Let_def w1_def [symmetric] k_def if_not_P [OF no]
      by (simp add: m1 p1)
    show ?thesis
      using False caps k unfolding w'_def eq
      by (simp add: retry_keeps_knowledge set_stale_profiles_warning_def warning_of_def)
  qed
qed

end
