(* ===== verification/Link_Identity.thy ===== *)
theory Link_Identity
  imports Names
begin

text \<open>
  \<open>amneziawg/link_identity.h\<close> and \<open>.c\<close>: the reader of the kernel's list of links, the observation
  of one link in it and the filter for link events; the loops over sockets and the guard are in
  \<open>Link_Guard\<close>. Messages are the bytes of rtnetlink datagrams; the layout of their structures and
  the macros of \<open>linux/netlink.h\<close> and \<open>linux/rtnetlink.h\<close> are written out for a little-endian machine.
  A hash table is a map, or a set; the position \<open>n\<close> of a record is stored as \<open>n\<close>, not as \<open>n + 1\<close>.
\<close>

section \<open>Data\<close>

definition link_alias_prefix :: string where "link_alias_prefix = ''nm-sidebar-awg-''"
definition LINK_DUMP_BUFFER_SIZE :: nat where "LINK_DUMP_BUFFER_SIZE = 64 * 1024"
definition LINK_DUMP_TIMEOUT_MSEC :: int where "LINK_DUMP_TIMEOUT_MSEC = 1000"
definition LINK_DUMP_POLL_SLICE_MSEC :: int where "LINK_DUMP_POLL_SLICE_MSEC = 50"
definition LINK_DUMP_MAX_RECORDS :: nat where "LINK_DUMP_MAX_RECORDS = 65536"
definition LINK_GUARD_MAX_DRAIN_READS :: nat where "LINK_GUARD_MAX_DRAIN_READS = 256"

record link_record =
  lr_ifindex :: nat
  lr_ifname :: string
  lr_alias :: string
  lr_has_alias :: bool

record alias_index =
  ai_matches :: nat
  ai_first_index :: nat

record link_snapshot =
  ls_records :: "link_record list"
  ls_names :: "string \<rightharpoonup> nat"
  ls_aliases :: "string \<rightharpoonup> alias_index"

record link_event_filter =
  ef_names :: "string set"
  ef_aliases :: "string set"
  ef_indices :: "nat set"

record link_identity =
  li_name :: "string option"
  li_token :: "string option"
  li_ifindex :: nat

record link_guard =
  lg_identity :: link_record
  lg_open :: bool

definition empty_link_record :: link_record where
  "empty_link_record = \<lparr>lr_ifindex = 0, lr_ifname = [], lr_alias = [], lr_has_alias = False\<rparr>"

definition empty_link_snapshot :: link_snapshot where
  "empty_link_snapshot = \<lparr>ls_records = [], ls_names = Map.empty, ls_aliases = Map.empty\<rparr>"

section \<open>The layout of a message\<close>

definition u16_at :: "bytes \<Rightarrow> nat \<Rightarrow> nat" where
  "u16_at b i = byte_val (b ! i) + 256 * byte_val (b ! (i + 1))"

definition u32_at :: "bytes \<Rightarrow> nat \<Rightarrow> nat" where
  "u32_at b i = u16_at b i + 65536 * u16_at b (i + 2)"

definition s32_at :: "bytes \<Rightarrow> nat \<Rightarrow> int" where
  "s32_at b i = (if u32_at b i < 2147483648 then int (u32_at b i) else int (u32_at b i) - 4294967296)"

text \<open>\<open>NLMSG_ALIGN\<close> and \<open>RTA_ALIGN\<close>.\<close>

definition nl_align :: "nat \<Rightarrow> nat" where "nl_align n = (n + 3) div 4 * 4"

definition nlmsg_len :: "bytes \<Rightarrow> nat" where "nlmsg_len m = u32_at m 0"
definition nlmsg_type :: "bytes \<Rightarrow> nat" where "nlmsg_type m = u16_at m 4"
definition nlmsg_flags :: "bytes \<Rightarrow> nat" where "nlmsg_flags m = u16_at m 6"
definition nlmsg_seq :: "bytes \<Rightarrow> nat" where "nlmsg_seq m = u32_at m 8"

definition nlmsg_ok :: "bytes \<Rightarrow> int \<Rightarrow> bool" where
  "nlmsg_ok m remaining \<longleftrightarrow> 16 \<le> remaining \<and> 16 \<le> nlmsg_len m \<and> int (nlmsg_len m) \<le> remaining"

text \<open>Whether \<open>NLM_F_DUMP_INTR\<close> (16) is set.\<close>

definition dump_interrupted :: "bytes \<Rightarrow> bool" where
  "dump_interrupted m \<longleftrightarrow> odd (nlmsg_flags m div 16)"

abbreviation (input) "NLMSG_NOOP \<equiv> 1::nat"
abbreviation (input) "NLMSG_ERROR \<equiv> 2::nat"
abbreviation (input) "NLMSG_DONE \<equiv> 3::nat"
abbreviation (input) "NLMSG_OVERRUN \<equiv> 4::nat"
abbreviation (input) "RTM_NEWLINK \<equiv> 16::nat"
abbreviation (input) "RTM_DELLINK \<equiv> 17::nat"
abbreviation (input) "IFLA_IFNAME \<equiv> 3::nat"
abbreviation (input) "IFLA_IFALIAS \<equiv> 20::nat"

definition rta_len :: "bytes \<Rightarrow> nat" where "rta_len a = u16_at a 0"

definition rta_ok :: "bytes \<Rightarrow> int \<Rightarrow> bool" where
  "rta_ok a len \<longleftrightarrow> 4 \<le> len \<and> 4 \<le> rta_len a \<and> int (rta_len a) \<le> len"

definition rta_payload :: "bytes \<Rightarrow> bytes" where
  "rta_payload a = take (rta_len a - 4) (drop 4 a)"

lemma nl_align_ge: "n \<le> nl_align n"
  unfolding nl_align_def by linarith

section \<open>Parsing a link message\<close>

definition attribute_string_is_valid :: "bytes \<Rightarrow> bool" where
  "attribute_string_is_valid value \<longleftrightarrow>
     length value > 0 \<and> last value = CHR 0x00 \<and> CHR 0x00 \<notin> set (butlast value)"

definition attribute_string_copy :: "bytes \<Rightarrow> nat \<Rightarrow> string option" where
  "attribute_string_copy value capacity =
     (if length value > capacity \<or> \<not> attribute_string_is_valid value then None
      else Some (butlast value))"

lemma attribute_shrinks: "rta_ok a len \<Longrightarrow> 0 < len \<and> 0 < nl_align (rta_len a)"
  using nl_align_ge [of "rta_len a"] by (auto simp: rta_ok_def)

text \<open>The loop over the attributes; it ends with the bytes left over.\<close>

function parse_link_attributes ::
    "bytes \<Rightarrow> int \<Rightarrow> bool \<Rightarrow> bool \<Rightarrow> link_record \<Rightarrow> (int \<times> bool \<times> link_record) option" where
  "parse_link_attributes a len have_name have_alias r =
     (if \<not> rta_ok a len then Some (len, have_name, r)
      else
        let raw = u16_at a 2; attr_type = raw mod 16384; value = rta_payload a;
            next_attribute = drop (nl_align (rta_len a)) a;
            next_len = len - int (nl_align (rta_len a))
        in if attr_type = IFLA_IFNAME then
             (if have_name \<or> raw \<noteq> IFLA_IFNAME then None
              else case attribute_string_copy value (max_interface_length + 1) of
                None \<Rightarrow> None
              | Some s \<Rightarrow>
                  if s = [] then None
                  else parse_link_attributes next_attribute next_len True have_alias (r\<lparr>lr_ifname := s\<rparr>))
           else if attr_type = IFLA_IFALIAS then
             (if have_alias \<or> raw \<noteq> IFLA_IFALIAS \<or> \<not> attribute_string_is_valid value then None
              else case attribute_string_copy value (length link_alias_prefix + 1 + link_token_length) of
                None \<Rightarrow> parse_link_attributes next_attribute next_len have_name True (r\<lparr>lr_has_alias := False\<rparr>)
              | Some s \<Rightarrow>
                  parse_link_attributes next_attribute next_len have_name True
                    (r\<lparr>lr_alias := s, lr_has_alias := True\<rparr>))
           else parse_link_attributes next_attribute next_len have_name have_alias r)"
  by pat_completeness auto
termination
  by (relation "measure (\<lambda>(a, len, _). nat len)") (auto simp: attribute_shrinks)

declare parse_link_attributes.simps [simp del]

definition parse_link_message :: "bytes \<Rightarrow> bool \<Rightarrow> link_record option" where
  "parse_link_message m require_name =
     (if nlmsg_len m < 32 then None
      else let ifi_index = s32_at m 20
           in if ifi_index \<le> 0 then None
              else case parse_link_attributes (drop 32 m) (int (nlmsg_len m) - 32) False False empty_link_record of
                None \<Rightarrow> None
              | Some (left_over, have_name, r) \<Rightarrow>
                  if left_over \<noteq> 0 \<or> require_name \<and> \<not> have_name then None
                  else Some (r\<lparr>lr_ifindex := nat ifi_index\<rparr>))"

section \<open>The table of links\<close>

definition add_link_record :: "link_record \<Rightarrow> link_snapshot \<Rightarrow> link_snapshot" where
  "add_link_record r s =
     (let i = length (ls_records s)
      in s\<lparr>ls_records := ls_records s @ [r],
           ls_names := (ls_names s)(lr_ifname r \<mapsto> i),
           ls_aliases :=
             (if \<not> lr_has_alias r then ls_aliases s
              else case ls_aliases s (lr_alias r) of
                None \<Rightarrow> (ls_aliases s)(lr_alias r \<mapsto> \<lparr>ai_matches = 1, ai_first_index = i\<rparr>)
              | Some a \<Rightarrow>
                  if ai_matches a \<noteq> G_MAXUINT
                  then (ls_aliases s)(lr_alias r \<mapsto> a\<lparr>ai_matches := ai_matches a + 1\<rparr>)
                  else ls_aliases s)\<rparr>)"

definition link_snapshot_observe ::
    "link_snapshot option \<Rightarrow> string option \<Rightarrow> string option \<Rightarrow> link_observation option" where
  "link_snapshot_observe snapshot expected_name link_token =
     (case snapshot of
        None \<Rightarrow> None
      | Some s \<Rightarrow>
          if \<not> name_is_valid expected_name \<or> (link_token \<noteq> None \<and> \<not> link_token_is_valid link_token)
          then None
          else
            let name = the expected_name;
                obs = \<lparr>named_exists = False, named_ifindex = 0, token_matches = 0, token_ifindex = 0,
                       token_has_expected_name = False, token_ifname = []\<rparr>;
                obs1 = (case ls_names s name of
                    None \<Rightarrow> obs
                  | Some i \<Rightarrow> obs\<lparr>named_exists := True, named_ifindex := lr_ifindex (ls_records s ! i)\<rparr>)
            in case link_token of
                 None \<Rightarrow> Some obs1
               | Some token \<Rightarrow>
                   (case ls_aliases s (link_alias_prefix @ token) of
                      None \<Rightarrow> Some obs1
                    | Some a \<Rightarrow>
                        let r = ls_records s ! ai_first_index a
                        in Some (obs1\<lparr>token_matches := ai_matches a, token_ifindex := lr_ifindex r,
                             token_has_expected_name := (lr_ifname r = name),
                             token_ifname := lr_ifname r\<rparr>)))"

section \<open>The filter for link events\<close>

definition link_event_filter_new :: link_event_filter where
  "link_event_filter_new = \<lparr>ef_names = {}, ef_aliases = {}, ef_indices = {}\<rparr>"

definition track_link_index :: "link_snapshot \<Rightarrow> nat \<Rightarrow> link_event_filter \<Rightarrow> link_event_filter" where
  "track_link_index s i f = f\<lparr>ef_indices := insert (lr_ifindex (ls_records s ! i)) (ef_indices f)\<rparr>"

definition track_alias :: "link_snapshot \<Rightarrow> string \<Rightarrow> link_event_filter \<Rightarrow> link_event_filter" where
  "track_alias s alias f =
     (case ls_aliases s alias of
        None \<Rightarrow> f
      | Some a \<Rightarrow>
          if ai_matches a = 1 then track_link_index s (ai_first_index a) f
          else fold (\<lambda>i f. if lr_has_alias (ls_records s ! i) \<and> lr_alias (ls_records s ! i) = alias
                           then track_link_index s i f else f)
                 [0..<length (ls_records s)] f)"

definition link_event_filter_add ::
    "link_event_filter \<Rightarrow> link_snapshot option \<Rightarrow> link_identity \<Rightarrow> link_event_filter" where
  "link_event_filter_add f snapshot identity =
     (if \<not> name_is_valid (li_name identity) \<or>
         \<not> (li_token identity = None \<or> link_token_is_valid (li_token identity)) then f
      else
        let name = the (li_name identity);
            f1 = f\<lparr>ef_names := insert name (ef_names f)\<rparr>;
            f2 = (if li_ifindex identity \<noteq> 0
                  then f1\<lparr>ef_indices := insert (li_ifindex identity) (ef_indices f1)\<rparr> else f1);
            f3 = (case li_token identity of
                None \<Rightarrow> f2
              | Some token \<Rightarrow> f2\<lparr>ef_aliases := insert (link_alias_prefix @ token) (ef_aliases f2)\<rparr>)
        in case snapshot of
             None \<Rightarrow> f3
           | Some s \<Rightarrow>
               let f4 = (case ls_names s name of None \<Rightarrow> f3 | Some i \<Rightarrow> track_link_index s i f3)
               in case li_token identity of
                    None \<Rightarrow> f4
                  | Some token \<Rightarrow> track_alias s (link_alias_prefix @ token) f4)"

definition tracked_by_filter :: "link_event_filter \<Rightarrow> link_record \<Rightarrow> bool" where
  "tracked_by_filter f r \<longleftrightarrow>
     lr_ifindex r \<in> ef_indices f \<or> lr_ifname r \<in> ef_names f \<or>
     lr_has_alias r \<and> lr_alias r \<in> ef_aliases f"

lemma message_shrinks: "nlmsg_ok m remaining \<Longrightarrow> 0 < remaining \<and> 0 < nl_align (nlmsg_len m)"
  using nl_align_ge [of "nlmsg_len m"] by (auto simp: nlmsg_ok_def)

text \<open>The loop over the messages of a datagram.\<close>

function relevant_messages :: "link_event_filter \<Rightarrow> bytes \<Rightarrow> int \<Rightarrow> bool" where
  "relevant_messages f m remaining =
     (if \<not> nlmsg_ok m remaining then remaining \<noteq> 0
      else
        let next_message = drop (nl_align (nlmsg_len m)) m;
            next_remaining = remaining - int (nl_align (nlmsg_len m))
        in if dump_interrupted m then True
           else if nlmsg_type m = NLMSG_NOOP then relevant_messages f next_message next_remaining
           else if nlmsg_type m \<noteq> RTM_NEWLINK \<and> nlmsg_type m \<noteq> RTM_DELLINK then True
           else case parse_link_message m False of
                  None \<Rightarrow> True
                | Some r \<Rightarrow>
                    if tracked_by_filter f r then True
                    else relevant_messages f next_message next_remaining)"
  by pat_completeness auto
termination
  by (relation "measure (\<lambda>(f, m, remaining). nat remaining)") (auto simp: message_shrinks)

declare relevant_messages.simps [simp del]

definition link_event_filter_is_relevant :: "link_event_filter option \<Rightarrow> bytes option \<Rightarrow> bool" where
  "link_event_filter_is_relevant filter_opt data =
     (case (filter_opt, data) of
        (Some f, Some d) \<Rightarrow>
          if length d = 0 \<or> int (length d) > G_MAXINT then True
          else relevant_messages f d (int (length d))
      | _ \<Rightarrow> True)"

definition link_record_is_relevant :: "link_record \<Rightarrow> link_record \<Rightarrow> bool" where
  "link_record_is_relevant r identity \<longleftrightarrow>
     lr_ifindex r = lr_ifindex identity \<or> lr_ifname r = lr_ifname identity \<or>
     lr_has_alias r \<and> lr_alias r = lr_alias identity"

definition link_record_matches :: "link_record \<Rightarrow> link_record \<Rightarrow> bool" where
  "link_record_matches r identity \<longleftrightarrow>
     lr_ifindex r = lr_ifindex identity \<and> lr_ifname r = lr_ifname identity \<and>
     lr_has_alias r \<and> lr_alias r = lr_alias identity"

section \<open>Observations are those of the list of links\<close>

definition link_table :: "link_record list \<Rightarrow> link_snapshot" where
  "link_table rs = foldl (\<lambda>s r. add_link_record r s) empty_link_snapshot rs"

definition named_links :: "string \<Rightarrow> link_record list \<Rightarrow> link_record list" where
  "named_links name rs = filter (\<lambda>r. lr_ifname r = name) rs"

definition aliased_links :: "string \<Rightarrow> link_record list \<Rightarrow> link_record list" where
  "aliased_links alias rs = filter (\<lambda>r. lr_has_alias r \<and> lr_alias r = alias) rs"

text \<open>The reference: an observation read off the list of links.\<close>

definition observe_links :: "link_record list \<Rightarrow> string \<Rightarrow> string option \<Rightarrow> link_observation" where
  "observe_links rs name token =
     (let named = named_links name rs;
          owned = (case token of None \<Rightarrow> [] | Some t \<Rightarrow> aliased_links (link_alias_prefix @ t) rs)
      in \<lparr>named_exists = (named \<noteq> []),
          named_ifindex = (if named = [] then 0 else lr_ifindex (last named)),
          token_matches = min (length owned) G_MAXUINT,
          token_ifindex = (if owned = [] then 0 else lr_ifindex (hd owned)),
          token_has_expected_name = (owned \<noteq> [] \<and> lr_ifname (hd owned) = name),
          token_ifname = (if owned = [] then [] else lr_ifname (hd owned))\<rparr>)"

lemma link_table_snoc: "link_table (rs @ [r]) = add_link_record r (link_table rs)"
  by (simp add: link_table_def)

lemma link_table_records [simp]: "ls_records (link_table rs) = rs"
proof (induction rs rule: rev_induct)
  case Nil
  show ?case by (simp add: link_table_def empty_link_snapshot_def)
next
  case (snoc r rs)
  then show ?case by (simp add: link_table_snoc add_link_record_def Let_def)
qed

lemma link_table_names:
  "case ls_names (link_table rs) name of
     None \<Rightarrow> named_links name rs = []
   | Some i \<Rightarrow> i < length rs \<and> named_links name rs \<noteq> [] \<and> last (named_links name rs) = rs ! i"
proof (induction rs rule: rev_induct)
  case Nil
  show ?case by (simp add: link_table_def empty_link_snapshot_def named_links_def)
next
  case (snoc r rs)
  then show ?case
    by (auto simp: link_table_snoc add_link_record_def Let_def named_links_def nth_append
        split: option.splits)
qed

lemma link_table_aliases:
  "case ls_aliases (link_table rs) alias of
     None \<Rightarrow> aliased_links alias rs = []
   | Some a \<Rightarrow> ai_first_index a < length rs \<and> aliased_links alias rs \<noteq> [] \<and>
       hd (aliased_links alias rs) = rs ! ai_first_index a \<and>
       ai_matches a = min (length (aliased_links alias rs)) G_MAXUINT"
proof (induction rs rule: rev_induct)
  case Nil
  show ?case by (simp add: link_table_def empty_link_snapshot_def aliased_links_def)
next
  case (snoc r rs)
  show ?case
  proof (cases "lr_has_alias r \<and> lr_alias r = alias")
    case False
    then have "aliased_links alias (rs @ [r]) = aliased_links alias rs"
      by (auto simp: aliased_links_def)
    moreover have "ls_aliases (link_table (rs @ [r])) alias = ls_aliases (link_table rs) alias"
      using False by (auto simp: link_table_snoc add_link_record_def Let_def split: option.split)
    ultimately show ?thesis using snoc by (auto simp: nth_append split: option.splits)
  next
    case True
    then have al: "aliased_links alias (rs @ [r]) = aliased_links alias rs @ [r]"
      by (simp add: aliased_links_def)
    show ?thesis
    proof (cases "ls_aliases (link_table rs) alias")
      case None
      with snoc True al show ?thesis by (simp add: link_table_snoc add_link_record_def Let_def)
    next
      case (Some a)
      with snoc have a: "ai_first_index a < length rs" "aliased_links alias rs \<noteq> []"
        "hd (aliased_links alias rs) = rs ! ai_first_index a"
        "ai_matches a = min (length (aliased_links alias rs)) G_MAXUINT" by simp_all
      have "ls_aliases (link_table (rs @ [r])) alias =
          Some (if ai_matches a \<noteq> G_MAXUINT then a\<lparr>ai_matches := ai_matches a + 1\<rparr> else a)"
        using True Some by (simp add: link_table_snoc add_link_record_def Let_def)
      with a al show ?thesis by (auto simp: nth_append)
    qed
  qed
qed

text \<open>
  C31. The observation of a link is that of the list of links. For a valid name and an optional
  valid token, the indexed snapshot reports whether a link has the name and the index of the last
  such link, how many links carry the alias of the token (up to the largest \<open>guint\<close>), and the index
  and the name of the first of them, exactly as a search of the whole list does; without a snapshot
  or with an invalid name or token there is no observation.
\<close>

theorem observe_is_list_search:
  "link_snapshot_observe (map_option link_table links) name token =
     (if links \<noteq> None \<and> name_is_valid name \<and> (token = None \<or> link_token_is_valid token)
      then Some (observe_links (the links) (the name) token) else None)"
proof (cases links)
  case None
  then show ?thesis by (simp add: link_snapshot_observe_def)
next
  case (Some rs)
  show ?thesis
  proof (cases "name_is_valid name \<and> (token \<noteq> None \<longrightarrow> link_token_is_valid token)")
    case False
    then show ?thesis by (auto simp: link_snapshot_observe_def Some)
  next
    case True
    note names = link_table_names [of "the name" rs]
    have "link_snapshot_observe (map_option link_table links) name token = Some (observe_links rs (the name) token)"
    proof (cases token)
      case None
      with True names show ?thesis
        by (auto simp: link_snapshot_observe_def observe_links_def Some Let_def split: option.splits)
    next
      case (Some t)
      with True names link_table_aliases [of "link_alias_prefix @ t" rs] \<open>links = Some rs\<close> show ?thesis
        by (auto simp: link_snapshot_observe_def observe_links_def Let_def split: option.splits)
    qed
    with True Some show ?thesis by auto
  qed
qed

section \<open>Irrelevant events cannot change an observation\<close>

text \<open>The link messages of a datagram, as the code reads them.\<close>

function link_events :: "bytes \<Rightarrow> int \<Rightarrow> (nat \<times> link_record) list" where
  "link_events m remaining =
     (if \<not> nlmsg_ok m remaining then []
      else (case parse_link_message m False of
              Some r \<Rightarrow> if nlmsg_type m = RTM_NEWLINK \<or> nlmsg_type m = RTM_DELLINK then [(nlmsg_type m, r)] else []
            | None \<Rightarrow> []) @
        link_events (drop (nl_align (nlmsg_len m)) m) (remaining - int (nl_align (nlmsg_len m))))"
  by pat_completeness auto
termination
  by (relation "measure (\<lambda>(m, remaining). nat remaining)") (auto simp: message_shrinks)

declare link_events.simps [simp del]

text \<open>
  What the kernel may have done to its list of links when it announces an event: removed the links
  with the index, added one, or changed one, where the name and the alias are those of the message
  or, since a notification may omit them, the old ones, and where an alias may be gone.
\<close>

definition described_by :: "link_record \<Rightarrow> link_record \<Rightarrow> link_record \<Rightarrow> bool" where
  "described_by r old new \<longleftrightarrow> lr_ifindex new = lr_ifindex r \<and>
     (lr_ifname new = lr_ifname r \<or> lr_ifname new = lr_ifname old) \<and>
     (lr_has_alias new \<longrightarrow> lr_has_alias r \<and> lr_alias new = lr_alias r \<or>
        lr_has_alias old \<and> lr_alias new = lr_alias old)"

inductive link_change :: "nat \<times> link_record \<Rightarrow> link_record list \<Rightarrow> link_record list \<Rightarrow> bool" where
  unchanged: "link_change ev rs rs"
| removed: "link_change (RTM_DELLINK, r) rs (filter (\<lambda>x. lr_ifindex x \<noteq> lr_ifindex r) rs)"
| added: "described_by r r x \<Longrightarrow> link_change (RTM_NEWLINK, r) (xs @ ys) (xs @ x # ys)"
| updated: "lr_ifindex old = lr_ifindex r \<Longrightarrow> described_by r old x \<Longrightarrow>
    link_change (RTM_NEWLINK, r) (xs @ old # ys) (xs @ x # ys)"

inductive link_changes :: "(nat \<times> link_record) list \<Rightarrow> link_record list \<Rightarrow> link_record list \<Rightarrow> bool" where
  quiet: "link_changes [] rs rs"
| event: "link_change ev rs rs' \<Longrightarrow> link_changes evs rs' rs'' \<Longrightarrow> link_changes (ev # evs) rs rs''"

inductive_cases link_changes_NilE: "link_changes [] rs rs'"
inductive_cases link_changes_ConsE: "link_changes (ev # evs) rs rs''"
inductive_cases link_changeE: "link_change ev rs rs'"

definition identifies :: "string \<Rightarrow> string option \<Rightarrow> link_record \<Rightarrow> bool" where
  "identifies name token r \<longleftrightarrow> lr_ifname r = name \<or>
     (\<exists>t. token = Some t \<and> lr_has_alias r \<and> lr_alias r = link_alias_prefix @ t)"

definition covers :: "link_event_filter \<Rightarrow> link_record list \<Rightarrow> string \<Rightarrow> string option \<Rightarrow> bool" where
  "covers f rs name token \<longleftrightarrow> name \<in> ef_names f \<and>
     (\<forall>t. token = Some t \<longrightarrow> link_alias_prefix @ t \<in> ef_aliases f) \<and>
     (\<forall>r\<in>set rs. identifies name token r \<longrightarrow> lr_ifindex r \<in> ef_indices f)"

lemma observe_identified:
  "filter (identifies name token) rs' = filter (identifies name token) rs \<Longrightarrow>
   observe_links rs' name token = observe_links rs name token"
proof -
  assume eq: "filter (identifies name token) rs' = filter (identifies name token) rs"
  have n: "named_links name xs = named_links name (filter (identifies name token) xs)" for xs
    by (auto simp: named_links_def identifies_def intro!: filter_cong)
  have a: "token = Some t \<Longrightarrow> aliased_links (link_alias_prefix @ t) xs =
      aliased_links (link_alias_prefix @ t) (filter (identifies name token) xs)" for t xs
    by (auto simp: aliased_links_def identifies_def intro!: filter_cong)
  show ?thesis
    unfolding observe_links_def Let_def n [of rs] n [of rs'] eq
    using a [of _ rs] a [of _ rs'] eq by (cases token) simp_all
qed

lemma untracked_change:
  assumes "link_change (k, r) rs rs'" and "\<not> tracked_by_filter f r" and "covers f rs name token"
  shows "filter (identifies name token) rs' = filter (identifies name token) rs \<and> covers f rs' name token"
proof -
  have idx: "lr_ifindex r \<notin> ef_indices f" and nm: "lr_ifname r \<noteq> name"
    and al: "\<And>t. token = Some t \<Longrightarrow> \<not> (lr_has_alias r \<and> lr_alias r = link_alias_prefix @ t)"
    using assms(2,3) by (auto simp: tracked_by_filter_def covers_def)
  have old: "x \<in> set rs \<Longrightarrow> lr_ifindex x = lr_ifindex r \<Longrightarrow> \<not> identifies name token x" for x
    using assms(3) idx by (auto simp: covers_def)
  have new: "\<not> identifies name token old \<Longrightarrow> described_by r old x \<Longrightarrow> \<not> identifies name token x" for old x
    using nm al by (auto simp: described_by_def identifies_def)
  have self: "\<not> identifies name token r" using nm al by (auto simp: identifies_def)
  from assms(1) have same: "filter (identifies name token) rs' = filter (identifies name token) rs"
  proof cases
    case unchanged
    then show ?thesis by simp
  next
    case removed
    then show ?thesis using old by (auto intro!: filter_cong)
  next
    case (added x xs ys)
    then show ?thesis using new [OF self] by simp
  next
    case (updated old x xs ys)
    then show ?thesis using new [of old x] old [of old] by simp
  qed
  moreover have "covers f rs' name token"
  proof -
    have "set (filter (identifies name token) rs') = set (filter (identifies name token) rs)"
      using same by simp
    then show ?thesis using assms(3) by (auto simp: covers_def)
  qed
  ultimately show ?thesis by blast
qed

lemma untracked_changes:
  "link_changes evs rs rs' \<Longrightarrow> list_all (\<lambda>(k, r). \<not> tracked_by_filter f r) evs \<Longrightarrow> covers f rs name token \<Longrightarrow>
   filter (identifies name token) rs' = filter (identifies name token) rs"
proof (induction rule: link_changes.induct)
  case (event ev rs rs' evs rs'')
  obtain k r where ev: "ev = (k, r)" by (cases ev)
  from event.hyps(1) event.prems have "filter (identifies name token) rs' = filter (identifies name token) rs \<and>
      covers f rs' name token"
    by (intro untracked_change [where k = k and r = r]) (simp_all add: ev)
  with event.IH event.prems show ?case by simp
qed simp

lemma irrelevant_untracked:
  "\<not> relevant_messages f m remaining \<Longrightarrow>
   list_all (\<lambda>(k, r). \<not> tracked_by_filter f r) (link_events m remaining)"
proof (induction f m remaining rule: relevant_messages.induct)
  case (1 f m remaining)
  show ?case
  proof (cases "nlmsg_ok m remaining")
    case False
    then show ?thesis by (simp add: link_events.simps)
  next
    case ok: True
    from "1.prems" ok have "\<not> dump_interrupted m" by (auto simp: relevant_messages.simps [of f m] Let_def)
    show ?thesis
    proof (cases "nlmsg_type m = NLMSG_NOOP")
      case True
      with "1.prems" ok \<open>\<not> dump_interrupted m\<close> "1.IH"(1) [OF _ refl refl] show ?thesis
        by (simp add: relevant_messages.simps [of f m] link_events.simps [of m] Let_def split: option.split)
    next
      case False
      with "1.prems" ok \<open>\<not> dump_interrupted m\<close> obtain r where
        r: "parse_link_message m False = Some r" "\<not> tracked_by_filter f r"
        and ty: "nlmsg_type m = RTM_NEWLINK \<or> nlmsg_type m = RTM_DELLINK"
        and rest: "\<not> relevant_messages f (drop (nl_align (nlmsg_len m)) m)
            (remaining - int (nl_align (nlmsg_len m)))"
        by (auto simp: relevant_messages.simps [of f m] Let_def split: if_splits option.splits)
      with False ok \<open>\<not> dump_interrupted m\<close> "1.IH"(2) [OF _ refl refl] show ?thesis
        by (simp add: link_events.simps [of m])
    qed
  qed
qed

definition filter_of :: "link_record list \<Rightarrow> link_identity list \<Rightarrow> link_event_filter" where
  "filter_of rs ids =
     foldl (\<lambda>f i. link_event_filter_add f (Some (link_table rs)) i) link_event_filter_new ids"

definition filter_le :: "link_event_filter \<Rightarrow> link_event_filter \<Rightarrow> bool" where
  "filter_le f g \<longleftrightarrow> ef_names f \<subseteq> ef_names g \<and> ef_aliases f \<subseteq> ef_aliases g \<and> ef_indices f \<subseteq> ef_indices g"

lemma filter_le_refl [simp]: "filter_le f f" by (simp add: filter_le_def)

lemma filter_le_trans: "filter_le f g \<Longrightarrow> filter_le g h \<Longrightarrow> filter_le f h"
  by (auto simp: filter_le_def)

lemma filter_le_track [simp]: "filter_le f (track_link_index s i f)"
  by (auto simp: filter_le_def track_link_index_def)

lemma fold_track:
  "filter_le f (fold (\<lambda>i f. if P i then track_link_index s i f else f) js f) \<and>
   (\<forall>i\<in>set js. P i \<longrightarrow>
      lr_ifindex (ls_records s ! i) \<in> ef_indices (fold (\<lambda>i f. if P i then track_link_index s i f else f) js f))"
proof (induction js arbitrary: f)
  case (Cons i js)
  let ?g = "if P i then track_link_index s i f else f"
  have step: "filter_le f ?g" "P i \<Longrightarrow> lr_ifindex (ls_records s ! i) \<in> ef_indices ?g"
    by simp (simp add: track_link_index_def)
  from Cons.IH [of ?g] step show ?case
    by (auto intro: filter_le_trans simp: filter_le_def)
qed simp

lemma track_alias_covers:
  "filter_le f (track_alias (link_table rs) alias f) \<and>
   (\<forall>r\<in>set (aliased_links alias rs). lr_ifindex r \<in> ef_indices (track_alias (link_table rs) alias f))"
proof (cases "ls_aliases (link_table rs) alias")
  case None
  with link_table_aliases [of "alias" rs] show ?thesis by (simp add: track_alias_def)
next
  case (Some a)
  with link_table_aliases [of "alias" rs] have a: "aliased_links alias rs \<noteq> []"
    "hd (aliased_links alias rs) = rs ! ai_first_index a"
    "ai_matches a = min (length (aliased_links alias rs)) G_MAXUINT" by simp_all
  show ?thesis
  proof (cases "ai_matches a = 1")
    case True
    with a have "length (aliased_links alias rs) = 1" by auto
    then have "aliased_links alias rs = [rs ! ai_first_index a]"
      using a by (cases "aliased_links alias rs") auto
    with Some True show ?thesis by (auto simp: track_alias_def track_link_index_def filter_le_def)
  next
    case False
    let ?P = "\<lambda>i. lr_has_alias (rs ! i) \<and> lr_alias (rs ! i) = alias"
    have eq: "track_alias (link_table rs) alias f =
        fold (\<lambda>i f. if ?P i then track_link_index (link_table rs) i f else f) [0..<length rs] f"
      using Some False by (simp add: track_alias_def)
    note all = fold_track [where P = ?P and s = "link_table rs" and js = "[0..<length rs]" and f = f]
    have "lr_ifindex r \<in> ef_indices (track_alias (link_table rs) alias f)"
      if "r \<in> set (aliased_links alias rs)" for r
    proof -
      from that obtain i where "i < length rs" "r = rs ! i" "?P i"
        by (auto simp: aliased_links_def in_set_conv_nth)
      with all show ?thesis unfolding eq by simp
    qed
    with all show ?thesis unfolding eq by blast
  qed
qed

lemma filter_le_covers: "filter_le f g \<Longrightarrow> covers f rs name token \<Longrightarrow> covers g rs name token"
  by (auto simp: filter_le_def covers_def)

lemma filter_add_stages:
  assumes "name_is_valid (Some name)" and "token = None \<or> link_token_is_valid token"
    and "li_name i = Some name" "li_token i = token"
  obtains f3 f4 where "filter_le f f3" "name \<in> ef_names f3"
    "\<And>t. token = Some t \<Longrightarrow> link_alias_prefix @ t \<in> ef_aliases f3"
    "f4 = (case ls_names (link_table rs) name of None \<Rightarrow> f3
      | Some j \<Rightarrow> track_link_index (link_table rs) j f3)"
    "link_event_filter_add f (Some (link_table rs)) i = (case token of None \<Rightarrow> f4
      | Some t \<Rightarrow> track_alias (link_table rs) (link_alias_prefix @ t) f4)"
proof -
  define f1 where "f1 = f\<lparr>ef_names := insert name (ef_names f)\<rparr>"
  define f2 where "f2 = (if li_ifindex i \<noteq> 0 then f1\<lparr>ef_indices := insert (li_ifindex i) (ef_indices f1)\<rparr> else f1)"
  define f3 where "f3 = (case token of None \<Rightarrow> f2
      | Some t \<Rightarrow> f2\<lparr>ef_aliases := insert (link_alias_prefix @ t) (ef_aliases f2)\<rparr>)"
  show ?thesis
  proof (rule that [of f3])
    show "filter_le f f3" "name \<in> ef_names f3"
      by (auto simp: f3_def f2_def f1_def filter_le_def split: option.split)
    show "\<And>t. token = Some t \<Longrightarrow> link_alias_prefix @ t \<in> ef_aliases f3" by (simp add: f3_def)
    show "link_event_filter_add f (Some (link_table rs)) i =
       (case token of None \<Rightarrow>
          (case ls_names (link_table rs) name of None \<Rightarrow> f3 | Some j \<Rightarrow> track_link_index (link_table rs) j f3)
      | Some t \<Rightarrow> track_alias (link_table rs) (link_alias_prefix @ t)
          (case ls_names (link_table rs) name of None \<Rightarrow> f3 | Some j \<Rightarrow> track_link_index (link_table rs) j f3))"
      unfolding link_event_filter_add_def assms(3,4) Let_def f3_def f2_def f1_def
      using assms(1,2) by (auto split: option.split)
  qed (rule refl)
qed

lemma filter_add_grows: "filter_le f (link_event_filter_add f (Some (link_table rs)) i)"
proof (cases "name_is_valid (li_name i) \<and> (li_token i = None \<or> link_token_is_valid (li_token i))")
  case False
  then show ?thesis by (auto simp: link_event_filter_add_def)
next
  case True
  then obtain name where n: "li_name i = Some name" by (cases "li_name i") (auto simp: name_is_valid_def)
  with True have "name_is_valid (Some name)" "li_token i = None \<or> link_token_is_valid (li_token i)" by auto
  then obtain f3 f4 where le: "filter_le f f3" and f4: "f4 = (case ls_names (link_table rs) name of None \<Rightarrow> f3
      | Some j \<Rightarrow> track_link_index (link_table rs) j f3)"
    and eq: "link_event_filter_add f (Some (link_table rs)) i = (case li_token i of None \<Rightarrow> f4
      | Some t \<Rightarrow> track_alias (link_table rs) (link_alias_prefix @ t) f4)"
    by (rule filter_add_stages [OF _ _ n refl])
  have "filter_le f3 f4" by (simp add: f4 split: option.split)
  moreover have "filter_le f4 (link_event_filter_add f (Some (link_table rs)) i)"
    using track_alias_covers [of f4] by (simp add: eq split: option.split)
  ultimately show ?thesis using le filter_le_trans by blast
qed

lemma filter_add_covers:
  assumes "name_is_valid (Some name)" and "token = None \<or> link_token_is_valid token"
    and "distinct (map lr_ifname rs)" and i: "li_name i = Some name" "li_token i = token"
  shows "covers (link_event_filter_add f (Some (link_table rs)) i) rs name token"
proof -
  define g where "g = link_event_filter_add f (Some (link_table rs)) i"
  obtain f3 f4 where f3: "name \<in> ef_names f3"
      "\<And>t. token = Some t \<Longrightarrow> link_alias_prefix @ t \<in> ef_aliases f3"
    and f4_def: "f4 = (case ls_names (link_table rs) name of None \<Rightarrow> f3
      | Some j \<Rightarrow> track_link_index (link_table rs) j f3)"
    and g: "g = (case token of None \<Rightarrow> f4
      | Some t \<Rightarrow> track_alias (link_table rs) (link_alias_prefix @ t) f4)"
    unfolding g_def using filter_add_stages [where f = f and rs = rs, OF assms(1,2) i] by blast
  have le: "filter_le f3 f4" "filter_le f4 g"
    using track_alias_covers [of f4] by (simp_all add: f4_def g split: option.split)
  have named: "lr_ifindex r \<in> ef_indices f4" if "r \<in> set rs" "lr_ifname r = name" for r
  proof -
    have "r \<in> set (named_links name rs)" using that by (simp add: named_links_def)
    moreover have "length (named_links name rs) \<le> 1"
      using assms(3) unfolding named_links_def
      by (induction rs) (auto simp: filter_empty_conv image_iff)
    ultimately have "named_links name rs = [r]"
      by (cases "named_links name rs") auto
    with link_table_names [of name rs] show ?thesis
      by (auto simp: f4_def track_link_index_def split: option.splits)
  qed
  have owned: "lr_ifindex r \<in> ef_indices g"
    if "token = Some t" "r \<in> set rs" "lr_has_alias r" "lr_alias r = link_alias_prefix @ t" for r t
    using that track_alias_covers [of f4 rs "link_alias_prefix @ t"]
    by (simp add: g aliased_links_def)
  show ?thesis
    unfolding g_def [symmetric] covers_def
    using le f3 named owned by (auto simp: filter_le_def identifies_def)
qed

lemma filter_of_covers:
  assumes "name_is_valid (Some name)" and "token = None \<or> link_token_is_valid token"
    and "distinct (map lr_ifname rs)" and "\<exists>i\<in>set ids. li_name i = Some name \<and> li_token i = token"
  shows "covers (filter_of rs ids) rs name token"
proof -
  have "covers (foldl (\<lambda>f i. link_event_filter_add f (Some (link_table rs)) i) f ids) rs name token"
    if "covers f rs name token \<or> (\<exists>i\<in>set ids. li_name i = Some name \<and> li_token i = token)" for f
    using that
  proof (induction ids arbitrary: f)
    case (Cons i ids)
    show ?case
      using Cons.IH [of "link_event_filter_add f (Some (link_table rs)) i"] Cons.prems
        filter_le_covers [OF filter_add_grows] filter_add_covers [OF assms(1-3)]
      by auto
  qed simp
  then show ?thesis using assms(4) by (simp add: filter_of_def)
qed

text \<open>
  C30. An event the filter calls irrelevant cannot change what was observed. Let a filter be built,
  as a scan builds it, from a list of links with distinct names and from the identities it looks
  at. If a datagram is not relevant to it, then whatever the kernel's changes to the list announced
  by the messages of that datagram were, every one of these identities is observed as before.
\<close>

theorem irrelevant_events_keep_observations:
  assumes "\<not> link_event_filter_is_relevant (Some (filter_of rs ids)) (Some d)"
    and "link_changes (link_events d (int (length d))) rs rs'" and "distinct (map lr_ifname rs)"
    and "\<exists>i\<in>set ids. li_name i = name \<and> li_token i = token"
  shows "link_snapshot_observe (Some (link_table rs')) name token =
    link_snapshot_observe (Some (link_table rs)) name token"
proof (cases "name_is_valid name \<and> (token = None \<or> link_token_is_valid token)")
  case False
  then show ?thesis
    using observe_is_list_search [of "Some rs" name token] observe_is_list_search [of "Some rs'" name token]
    by auto
next
  case True
  then obtain n where n: "name = Some n" by (cases name) (auto simp: name_is_valid_def)
  have "covers (filter_of rs ids) rs n token"
    using filter_of_covers [of n token rs ids] True assms(3,4) unfolding n by blast
  moreover from assms(1) have "\<not> relevant_messages (filter_of rs ids) d (int (length d))"
    by (auto simp: link_event_filter_is_relevant_def split: if_splits)
  then have "list_all (\<lambda>(k, r). \<not> tracked_by_filter (filter_of rs ids) r) (link_events d (int (length d)))"
    by (rule irrelevant_untracked)
  ultimately have "filter (identifies n token) rs' = filter (identifies n token) rs"
    using untracked_changes [OF assms(2)] by blast
  then have "observe_links rs' n token = observe_links rs n token" by (rule observe_identified)
  then show ?thesis
    using observe_is_list_search [of "Some rs" name token] observe_is_list_search [of "Some rs'" name token] n
    by simp
qed


text \<open>The message that announces the removal of a link with the given index below 256.\<close>

definition short_link_message :: "nat \<Rightarrow> bytes" where
  "short_link_message i =
     map byte_of ([32, 0, 0, 0, 17, 0, 0, 0] @ replicate 8 0 @ replicate 4 0 @ [i, 0, 0, 0] @ replicate 8 0)"

definition sample_link :: "nat \<Rightarrow> string \<Rightarrow> link_record" where
  "sample_link i n = \<lparr>lr_ifindex = i, lr_ifname = n, lr_alias = [], lr_has_alias = False\<rparr>"

lemma sample_message: "parse_link_message (short_link_message 5) False =
    Some \<lparr>lr_ifindex = 5, lr_ifname = [], lr_alias = [], lr_has_alias = False\<rparr>"
  by code_simp

theorem irrelevant_events_keep_observations_witness:
  "link_snapshot_observe (Some (link_table [sample_link 3 ''awg0''])) (Some ''awg0'') None =
   link_snapshot_observe (Some (link_table [sample_link 3 ''awg0'', sample_link 5 ''eth0''])) (Some ''awg0'') None"
proof (rule irrelevant_events_keep_observations [where
      ids = "[\<lparr>li_name = Some ''awg0'', li_token = None, li_ifindex = 0\<rparr>]" and d = "short_link_message 5"])
  let ?rs = "[sample_link 3 ''awg0'', sample_link 5 ''eth0'']"
  let ?r = "\<lparr>lr_ifindex = 5, lr_ifname = [], lr_alias = [], lr_has_alias = False\<rparr>"
  show "\<not> link_event_filter_is_relevant (Some (filter_of ?rs
      [\<lparr>li_name = Some ''awg0'', li_token = None, li_ifindex = 0\<rparr>])) (Some (short_link_message 5))"
    by code_simp
  show "link_changes (link_events (short_link_message 5) (int (length (short_link_message 5)))) ?rs
      [sample_link 3 ''awg0'']"
  proof -
    have "link_events (short_link_message 5) (int (length (short_link_message 5))) = [(RTM_DELLINK, ?r)]"
      by code_simp
    moreover have "link_change (RTM_DELLINK, ?r) ?rs (filter (\<lambda>x. lr_ifindex x \<noteq> lr_ifindex ?r) ?rs)"
      by (rule link_change.removed)
    then have "link_change (RTM_DELLINK, ?r) ?rs [sample_link 3 ''awg0'']" by (simp add: sample_link_def)
    ultimately show ?thesis by (auto intro: link_changes.intros)
  qed
  show "distinct (map lr_ifname ?rs)" by (simp add: sample_link_def)
qed simp

end
