(* ===== verification/Link_Guard.thy ===== *)
theory Link_Guard
  imports Link_Identity "HOL-Library.Signed_Division"
begin

text \<open>
  The second half of \<open>amneziawg/link_identity.c\<close>: reading the kernel's list of links, and the guard
  that tells whether a link has been the same all the time. The operating system is a record of
  functions over a state of its own: the clock, the cancellation token, the sockets (one for
  dumps, one subscribed by a guard), \<open>poll\<close>, \<open>sendto\<close> and \<open>recvmsg\<close>. A loop that ends only when
  the clock or the peer makes it end is a \<open>partial_function\<close>; not returning is the value \<open>None\<close>.
  Closing a socket and freeing memory have no counterpart, apart from the guard's being closed.
\<close>

section \<open>The operating system\<close>

datatype link_channel = DUMP_SOCKET | GUARD_SOCKET
datatype poll_events = POLLIN | POLLOUT

datatype poll_outcome = Poll_interrupted | Poll_failed | Poll_timeout | Poll_ready bool bool
  \<comment> \<open>whether an error event is reported, and whether a requested one is\<close>

datatype send_outcome = Send_count nat | Send_interrupted | Send_again | Send_failed

record link_datagram =
  ld_data :: bytes
  ld_truncated :: bool
  ld_sender_complete :: bool
  ld_sender_netlink :: bool
  ld_sender_pid :: nat

datatype recv_outcome = Recv_message link_datagram | Recv_interrupted | Recv_again | Recv_failed

record 'e link_os =
  lo_now :: "'e \<Rightarrow> int \<times> 'e"
  lo_cancelled :: "'e \<Rightarrow> bool \<times> 'e"
  lo_open :: "link_channel \<Rightarrow> 'e \<Rightarrow> bool \<times> 'e"
  lo_poll :: "link_channel \<Rightarrow> poll_events \<Rightarrow> int \<Rightarrow> 'e \<Rightarrow> poll_outcome \<times> 'e"
  lo_send :: "bytes \<Rightarrow> 'e \<Rightarrow> send_outcome \<times> 'e"
  lo_recv :: "link_channel \<Rightarrow> 'e \<Rightarrow> recv_outcome \<times> 'e"

definition operation_expired :: "'e link_os \<Rightarrow> int \<Rightarrow> 'e \<Rightarrow> bool \<times> 'e" where
  "operation_expired L deadline_us e =
     (let (now, e1) = lo_now L e in if now \<ge> deadline_us then (True, e1) else lo_cancelled L e1)"

partial_function (option) wait_for_socket ::
    "'e link_os \<Rightarrow> link_channel \<Rightarrow> poll_events \<Rightarrow> int \<Rightarrow> 'e \<Rightarrow> (bool \<times> 'e) option" where
  "wait_for_socket L ch events deadline_us e =
     (let (expired, e1) = operation_expired L deadline_us e
      in if expired then Some (False, e1)
         else
           let (now, e2) = lo_now L e1;
               timeout = min ((deadline_us - now + 999) sdiv 1000) LINK_DUMP_POLL_SLICE_MSEC;
               (outcome, e3) = lo_poll L ch events (max timeout 1) e2
           in case outcome of
                Poll_interrupted \<Rightarrow> wait_for_socket L ch events deadline_us e3
              | Poll_failed \<Rightarrow> Some (False, e3)
              | Poll_timeout \<Rightarrow> wait_for_socket L ch events deadline_us e3
              | Poll_ready failed wanted \<Rightarrow>
                  if failed then Some (False, e3)
                  else if wanted then Some (True, e3)
                  else wait_for_socket L ch events deadline_us e3)"

partial_function (option) send_dump_request ::
    "'e link_os \<Rightarrow> bytes \<Rightarrow> int \<Rightarrow> 'e \<Rightarrow> (bool \<times> 'e) option" where
  "send_dump_request L request deadline_us e =
     (let (expired, e1) = operation_expired L deadline_us e
      in if expired then Some (False, e1)
         else
           let (sent, e2) = lo_send L request e1
           in case sent of
                Send_count n \<Rightarrow> Some (n = length request, e2)
              | Send_interrupted \<Rightarrow> send_dump_request L request deadline_us e2
              | Send_again \<Rightarrow>
                  Option.bind (wait_for_socket L DUMP_SOCKET POLLOUT deadline_us e2) (\<lambda>(ready, e3).
                    if ready then send_dump_request L request deadline_us e3 else Some (False, e3))
              | Send_failed \<Rightarrow> Some (False, e2))"

text \<open>The test of a received datagram, the same in the dump, the guard and the monitor.\<close>

definition datagram_is_trusted :: "link_datagram \<Rightarrow> bool" where
  "datagram_is_trusted d \<longleftrightarrow>
     0 < length (ld_data d) \<and> length (ld_data d) \<le> LINK_DUMP_BUFFER_SIZE \<and> \<not> ld_truncated d \<and>
     ld_sender_complete d \<and> ld_sender_netlink d \<and> ld_sender_pid d = 0"

datatype dump_outcome = Dump_failed | Dump_more link_snapshot | Dump_complete link_snapshot

text \<open>The loop over the messages of a datagram of the dump.\<close>

function dump_messages ::
    "'e link_os \<Rightarrow> int \<Rightarrow> bytes \<Rightarrow> int \<Rightarrow> link_snapshot \<Rightarrow> 'e \<Rightarrow> dump_outcome \<times> 'e" where
  "dump_messages L deadline_us m remaining s e =
     (if \<not> nlmsg_ok m remaining then (if remaining \<noteq> 0 then Dump_failed else Dump_more s, e)
      else
        let (expired, e1) = operation_expired L deadline_us e;
            next_message = drop (nl_align (nlmsg_len m)) m;
            next_remaining = remaining - int (nl_align (nlmsg_len m))
        in if expired \<or> nlmsg_seq m \<noteq> 1 \<or> dump_interrupted m \<or> nlmsg_type m = NLMSG_OVERRUN
           then (Dump_failed, e1)
           else if nlmsg_type m = NLMSG_DONE then
             (if nlmsg_len m - 16 \<noteq> 0 \<and> (nlmsg_len m - 16 \<noteq> 4 \<or> s32_at m 16 \<noteq> 0) then (Dump_failed, e1)
              else if next_remaining \<noteq> 0 then (Dump_failed, e1)
              else (Dump_complete s, e1))
           else if nlmsg_type m = NLMSG_ERROR then
             (if nlmsg_len m < 36 \<or> s32_at m 16 \<noteq> 0 then (Dump_failed, e1)
              else dump_messages L deadline_us next_message next_remaining s e1)
           else if nlmsg_type m = NLMSG_NOOP
           then dump_messages L deadline_us next_message next_remaining s e1
           else if nlmsg_type m \<noteq> RTM_NEWLINK then (Dump_failed, e1)
           else if length (ls_records s) \<ge> LINK_DUMP_MAX_RECORDS then (Dump_failed, e1)
           else case parse_link_message m True of
                  None \<Rightarrow> (Dump_failed, e1)
                | Some r \<Rightarrow> dump_messages L deadline_us next_message next_remaining (add_link_record r s) e1)"
  by pat_completeness auto
termination
  by (relation "measure (\<lambda>(L, deadline_us, m, remaining, s, e). nat remaining)") (auto simp: message_shrinks)

declare dump_messages.simps [simp del]

text \<open>\<open>recvmsg\<close>, repeated while it is interrupted.\<close>

partial_function (option) receive_datagram ::
    "'e link_os \<Rightarrow> int \<Rightarrow> 'e \<Rightarrow> (recv_outcome \<times> 'e) option" where
  "receive_datagram L deadline_us e =
     (let (expired, e1) = operation_expired L deadline_us e
      in if expired then Some (Recv_failed, e1)
         else
           let (received, e2) = lo_recv L DUMP_SOCKET e1
           in case received of
                Recv_interrupted \<Rightarrow> receive_datagram L deadline_us e2
              | Recv_message d \<Rightarrow> Some (Recv_message d, e2)
              | Recv_again \<Rightarrow> Some (Recv_again, e2)
              | Recv_failed \<Rightarrow> Some (Recv_failed, e2))"

partial_function (option) dump_loop ::
    "'e link_os \<Rightarrow> int \<Rightarrow> link_snapshot \<Rightarrow> 'e \<Rightarrow> (link_snapshot option \<times> 'e) option" where
  "dump_loop L deadline_us s e =
     Option.bind (wait_for_socket L DUMP_SOCKET POLLIN deadline_us e) (\<lambda>(ready, e1).
       if \<not> ready then Some (None, e1)
       else Option.bind (receive_datagram L deadline_us e1) (\<lambda>(received, e2).
         case received of
           Recv_interrupted \<Rightarrow> Some (None, e2)
         | Recv_again \<Rightarrow> dump_loop L deadline_us s e2
         | Recv_failed \<Rightarrow> Some (None, e2)
         | Recv_message d \<Rightarrow>
             if \<not> datagram_is_trusted d then Some (None, e2)
             else (let (outcome, e3) = dump_messages L deadline_us (ld_data d) (int (length (ld_data d))) s e2
                   in case outcome of
                        Dump_failed \<Rightarrow> Some (None, e3)
                      | Dump_more s' \<Rightarrow> dump_loop L deadline_us s' e3
                      | Dump_complete s' \<Rightarrow>
                          (let (expired, e4) = operation_expired L deadline_us e3
                           in Some (if expired then None else Some s', e4)))))"

text \<open>\<open>RTM_GETLINK\<close> (18) with \<open>NLM_F_REQUEST | NLM_F_DUMP\<close> (0x301), sequence number 1.\<close>

definition dump_request :: bytes where
  "dump_request = map byte_of ([32, 0, 0, 0, 18, 0, 1, 3, 1, 0, 0, 0] @ replicate 20 0)"

definition link_snapshot_read_until ::
    "'e link_os \<Rightarrow> int \<Rightarrow> 'e \<Rightarrow> (link_snapshot option \<times> 'e) option" where
  "link_snapshot_read_until L deadline e =
     (let (now, e1) = lo_now L e;
          deadline_us = min deadline (now + LINK_DUMP_TIMEOUT_MSEC * 1000);
          (expired, e2) = operation_expired L deadline_us e1
      in if expired then Some (None, e2)
         else let (opened, e3) = lo_open L DUMP_SOCKET e2
              in if \<not> opened then Some (None, e3)
                 else Option.bind (send_dump_request L dump_request deadline_us e3) (\<lambda>(sent, e4).
                   if \<not> sent then Some (None, e4) else dump_loop L deadline_us empty_link_snapshot e4))"

definition link_snapshot_read :: "'e link_os \<Rightarrow> 'e \<Rightarrow> (link_snapshot option \<times> 'e) option" where
  "link_snapshot_read L e = link_snapshot_read_until L G_MAXINT64 e"

definition link_observe ::
    "'e link_os \<Rightarrow> string option \<Rightarrow> string option \<Rightarrow> 'e \<Rightarrow> (link_observation option \<times> 'e) option" where
  "link_observe L expected_name link_token e =
     (if \<not> name_is_valid expected_name \<or> (link_token \<noteq> None \<and> \<not> link_token_is_valid link_token)
      then Some (None, e)
      else Option.bind (link_snapshot_read L e) (\<lambda>(snapshot, e1).
        Some (link_snapshot_observe snapshot expected_name link_token, e1)))"

section \<open>The guard of one link\<close>

text \<open>The loop over the messages of one datagram of the subscription; true if none breaks continuity.\<close>

function guard_messages ::
    "'e link_os \<Rightarrow> link_record \<Rightarrow> int \<Rightarrow> bytes \<Rightarrow> int \<Rightarrow> 'e \<Rightarrow> bool \<times> 'e" where
  "guard_messages L identity deadline_us m remaining e =
     (if \<not> nlmsg_ok m remaining then (remaining = 0, e)
      else
        let (expired, e1) = operation_expired L deadline_us e;
            next_message = drop (nl_align (nlmsg_len m)) m;
            next_remaining = remaining - int (nl_align (nlmsg_len m))
        in if expired \<or> dump_interrupted m then (False, e1)
           else if nlmsg_type m = NLMSG_NOOP
           then guard_messages L identity deadline_us next_message next_remaining e1
           else if nlmsg_type m \<noteq> RTM_NEWLINK \<and> nlmsg_type m \<noteq> RTM_DELLINK then (False, e1)
           else case parse_link_message m True of
                  None \<Rightarrow> (False, e1)
                | Some r \<Rightarrow>
                    if link_record_is_relevant r identity \<and>
                       (nlmsg_type m = RTM_DELLINK \<or> \<not> link_record_matches r identity)
                    then (False, e1)
                    else guard_messages L identity deadline_us next_message next_remaining e1)"
  by pat_completeness auto
termination
  by (relation "measure (\<lambda>(L, identity, deadline_us, m, remaining, e). nat remaining)")
    (auto simp: message_shrinks)

declare guard_messages.simps [simp del]

fun link_guard_drain_reads ::
    "'e link_os \<Rightarrow> link_record \<Rightarrow> int \<Rightarrow> nat \<Rightarrow> 'e \<Rightarrow> bool \<times> 'e" where
  "link_guard_drain_reads L identity deadline_us 0 e = (False, e)"
| "link_guard_drain_reads L identity deadline_us (Suc reads) e =
     (let (expired, e1) = operation_expired L deadline_us e
      in if expired then (False, e1)
         else
           let (received, e2) = lo_recv L GUARD_SOCKET e1
           in case received of
                Recv_interrupted \<Rightarrow> link_guard_drain_reads L identity deadline_us reads e2
              | Recv_again \<Rightarrow> (let (expired, e3) = operation_expired L deadline_us e2 in (\<not> expired, e3))
              | Recv_failed \<Rightarrow> (False, e2)
              | Recv_message d \<Rightarrow>
                  if \<not> datagram_is_trusted d then (False, e2)
                  else
                    let (continuous, e3) =
                      guard_messages L identity deadline_us (ld_data d) (int (length (ld_data d))) e2
                    in if continuous then link_guard_drain_reads L identity deadline_us reads e3
                       else (False, e3))"

definition link_guard_drain :: "'e link_os \<Rightarrow> link_guard \<Rightarrow> int \<Rightarrow> 'e \<Rightarrow> bool \<times> 'e" where
  "link_guard_drain L g deadline_us e =
     link_guard_drain_reads L (lg_identity g) deadline_us LINK_GUARD_MAX_DRAIN_READS e"

text \<open>The loop over the records of a fresh snapshot; it ends with the number of matches.\<close>

fun guard_records ::
    "'e link_os \<Rightarrow> link_record \<Rightarrow> int \<Rightarrow> link_record list \<Rightarrow> nat \<Rightarrow> 'e \<Rightarrow> nat option \<times> 'e" where
  "guard_records L identity deadline_us [] matches e = (Some matches, e)"
| "guard_records L identity deadline_us (r # rs) matches e =
     (let (expired, e1) = operation_expired L deadline_us e
      in if expired then (None, e1)
         else if link_record_is_relevant r identity then
           (if \<not> link_record_matches r identity \<or> matches + 1 \<noteq> 1 then (None, e1)
            else guard_records L identity deadline_us rs (matches + 1) e1)
         else guard_records L identity deadline_us rs matches e1)"

definition saturated_deadline_us :: "int \<Rightarrow> int" where
  "saturated_deadline_us deadline_msec =
     (if deadline_msec \<le> 0 then 0
      else if deadline_msec > G_MAXINT64 sdiv 1000 then G_MAXINT64
      else deadline_msec * 1000)"

text \<open>The last part of a check: the records of the fresh snapshot, and what was announced until then.\<close>

definition guard_verify ::
    "'e link_os \<Rightarrow> link_guard \<Rightarrow> int \<Rightarrow> link_snapshot \<Rightarrow> 'e \<Rightarrow> bool \<times> 'e" where
  "guard_verify L g deadline_us s e =
     (let (matches, e1) = guard_records L (lg_identity g) deadline_us (ls_records s) 0 e
      in if matches \<noteq> Some 1 then (False, e1) else link_guard_drain L g deadline_us e1)"

text \<open>A check returns whether the link is still the same, and the guard, closed if it is not.\<close>

definition link_guard_check ::
    "'e link_os \<Rightarrow> link_guard option \<Rightarrow> int \<Rightarrow> 'e \<Rightarrow> (bool \<times> link_guard option \<times> 'e) option" where
  "link_guard_check L guard deadline_msec e =
     (case guard of
        None \<Rightarrow> Some (False, None, e)
      | Some g \<Rightarrow>
          if \<not> lg_open g then Some (False, Some g, e)
          else
            let checked = (\<lambda>same. Some (if same then g else g\<lparr>lg_open := False\<rparr>));
                (now, e1) = lo_now L e;
                deadline_us = min (saturated_deadline_us deadline_msec) (now + LINK_DUMP_TIMEOUT_MSEC * 1000);
                (drained, e2) = link_guard_drain L g deadline_us e1
            in if \<not> drained then Some (False, checked False, e2)
               else Option.bind (link_snapshot_read_until L deadline_us e2) (\<lambda>(snapshot, e3).
                 case snapshot of
                   None \<Rightarrow> Some (False, checked False, e3)
                 | Some s \<Rightarrow>
                     (let (same, e4) = guard_verify L g deadline_us s e3
                      in Some (same, checked same, e4))))"

definition link_guard_new ::
    "'e link_os \<Rightarrow> link_identity option \<Rightarrow> int \<Rightarrow> 'e \<Rightarrow> (link_guard option \<times> 'e) option" where
  "link_guard_new L identity deadline_msec e =
     (case identity of
        None \<Rightarrow> Some (None, e)
      | Some i \<Rightarrow>
          if \<not> name_is_valid (li_name i) \<or> \<not> link_token_is_valid (li_token i) \<or>
             li_ifindex i = 0 \<or> int (li_ifindex i) > G_MAXINT
          then Some (None, e)
          else
            let (cancelled, e1) = lo_cancelled L e
            in if cancelled then Some (None, e1)
               else let (now, e2) = lo_now L e1
                    in if deadline_msec \<le> now sdiv 1000 then Some (None, e2)
                       else
                         let r = \<lparr>lr_ifindex = li_ifindex i, lr_ifname = the (li_name i),
                                  lr_alias = link_alias_prefix @ the (li_token i), lr_has_alias = True\<rparr>;
                             (opened, e3) = lo_open L GUARD_SOCKET e2
                         in if \<not> opened then Some (None, e3)
                            else Option.bind (link_guard_check L (Some \<lparr>lg_identity = r, lg_open = True\<rparr>) deadline_msec e3)
                              (\<lambda>(same, guard, e4). Some (if same then guard else None, e4)))"

section \<open>What a successful check proves\<close>

lemma guard_records_Some:
  "guard_records L identity deadline_us rs n e = (Some k, e') \<Longrightarrow>
     k = n + length (filter (\<lambda>r. link_record_is_relevant r identity) rs) \<and>
     (\<forall>r\<in>set rs. link_record_is_relevant r identity \<longrightarrow> link_record_matches r identity)"
proof (induction rs arbitrary: n e)
  case (Cons r rs)
  obtain x e1 where x: "operation_expired L deadline_us e = (x, e1)" by (cases "operation_expired L deadline_us e")
  show ?case
  proof (cases "link_record_is_relevant r identity")
    case True
    with Cons.prems have "link_record_matches r identity" "n = 0"
      "guard_records L identity deadline_us rs (n + 1) e1 = (Some k, e')"
      by (simp_all add: x split: if_splits)
    with True Cons.IH [of "n + 1" e1] show ?thesis by simp
  next
    case False
    with Cons.prems have "guard_records L identity deadline_us rs n e1 = (Some k, e')"
      by (simp add: x split: if_splits)
    with False Cons.IH [of n e1] show ?thesis by simp
  qed
qed simp

text \<open>The links a read may report: those of a table the dumped records were added to.\<close>

lemma dump_messages_table:
  "dump_messages L d m remaining s e = (outcome, e') \<Longrightarrow> \<exists>rs. s = link_table rs \<Longrightarrow>
   (case outcome of Dump_failed \<Rightarrow> True | Dump_more s' \<Rightarrow> \<exists>rs. s' = link_table rs
    | Dump_complete s' \<Rightarrow> \<exists>rs. s' = link_table rs)"
proof (induction L d m remaining s e rule: dump_messages.induct)
  case (1 L d m remaining s e)
  obtain x e1 where x: "operation_expired L d e = (x, e1)" by (cases "operation_expired L d e")
  note IH = "1.IH" [OF _ x [symmetric] refl refl refl]
  have table: "\<exists>rs. add_link_record r s = link_table rs" for r
    using "1.prems"(2) link_table_snoc by metis
  show ?case
    using "1.prems"(1) IH "1.prems"(2) table
    by (subst (asm) dump_messages.simps)
      (auto simp: x Let_def split: if_splits option.splits)
qed

definition is_table :: "link_snapshot \<Rightarrow> bool" where
  "is_table s \<longleftrightarrow> (\<exists>rs. s = link_table rs)"

lemma dump_loop_table:
  assumes "dump_loop L d s e = Some y" and "is_table s"
  shows "\<forall>s'. fst y = Some s' \<longrightarrow> is_table s'"
proof -
  have "is_table s \<longrightarrow> (\<forall>s'. fst y = Some s' \<longrightarrow> is_table s')"
  proof (rule dump_loop.raw_induct [OF _ assms(1)])
    fix dump :: "'a link_os \<Rightarrow> int \<Rightarrow> link_snapshot \<Rightarrow> 'a \<Rightarrow> (link_snapshot option \<times> 'a) option"
      and L :: "'a link_os" and d s e y
    assume IH: "\<And>L d s e y. dump L d s e = Some y \<Longrightarrow>
        is_table s \<longrightarrow> (\<forall>s'. fst y = Some s' \<longrightarrow> is_table s')"
    assume body: "Option.bind (wait_for_socket L DUMP_SOCKET POLLIN d e) (\<lambda>(ready, e1).
       if \<not> ready then Some (None, e1)
       else Option.bind (receive_datagram L d e1) (\<lambda>(received, e2).
         case received of
           Recv_interrupted \<Rightarrow> Some (None, e2)
         | Recv_again \<Rightarrow> dump L d s e2
         | Recv_failed \<Rightarrow> Some (None, e2)
         | Recv_message dg \<Rightarrow>
             if \<not> datagram_is_trusted dg then Some (None, e2)
             else (let (outcome, e3) = dump_messages L d (ld_data dg) (int (length (ld_data dg))) s e2
                   in case outcome of
                        Dump_failed \<Rightarrow> Some (None, e3)
                      | Dump_more s' \<Rightarrow> dump L d s' e3
                      | Dump_complete s' \<Rightarrow>
                          (let (expired, e4) = operation_expired L d e3
                           in Some (if expired then None else Some s', e4))))) = Some y"
    show "is_table s \<longrightarrow> (\<forall>s'. fst y = Some s' \<longrightarrow> is_table s')"
    proof (intro impI)
      assume s: "is_table s"
      from body obtain ready e1 where 1: "wait_for_socket L DUMP_SOCKET POLLIN d e = Some (ready, e1)"
        by (cases "wait_for_socket L DUMP_SOCKET POLLIN d e") auto
      show "\<forall>s'. fst y = Some s' \<longrightarrow> is_table s'"
      proof (cases ready)
        case False
        with body 1 show ?thesis by auto
      next
        case True
        with body 1 obtain received e2 where 2: "receive_datagram L d e1 = Some (received, e2)"
          by (cases "receive_datagram L d e1") auto
        show ?thesis
        proof (cases received)
          case (Recv_message dg)
          obtain outcome e3 where 3: "dump_messages L d (ld_data dg) (int (length (ld_data dg))) s e2 = (outcome, e3)"
            by (cases "dump_messages L d (ld_data dg) (int (length (ld_data dg))) s e2")
          with dump_messages_table [OF 3] s have "case outcome of Dump_failed \<Rightarrow> True
            | Dump_more s' \<Rightarrow> is_table s' | Dump_complete s' \<Rightarrow> is_table s'"
            by (simp add: is_table_def cong: dump_outcome.case_cong)
          with body 1 2 3 True Recv_message IH show ?thesis
            by (cases outcome) (auto simp: Let_def split: if_splits prod.splits)
        qed (use body 1 2 True IH s in auto)
      qed
    qed
  qed
  with assms(2) show ?thesis by blast
qed

lemma read_until_table:
  "link_snapshot_read_until L d e = Some (Some s, e') \<Longrightarrow> is_table s"
proof -
  assume read: "link_snapshot_read_until L d e = Some (Some s, e')"
  have "is_table empty_link_snapshot" unfolding is_table_def by (rule exI [of _ "[]"]) (simp add: link_table_def)
  with read show ?thesis
    unfolding link_snapshot_read_until_def Let_def
    by (auto split: prod.splits if_splits elim!: bind_SomeE dest!: dump_loop_table)
qed

lemma guard_check_cases:
  assumes "link_guard_check L guard deadline_msec e = Some (same, guard', e')"
  obtains "guard = None" "guard' = None" "\<not> same"
  | g where "guard = Some g" "\<not> lg_open g" "guard' = guard" "\<not> same"
  | g where "guard = Some g" "\<not> same" "guard' = Some (g\<lparr>lg_open := False\<rparr>)"
  | g now d e1 e2 s e3 where "guard = Some g" "lg_open g" "same" "guard' = guard"
      "d = min (saturated_deadline_us deadline_msec) (now + LINK_DUMP_TIMEOUT_MSEC * 1000)"
      "link_guard_drain L g d e1 = (True, e2)" "link_snapshot_read_until L d e2 = Some (Some s, e3)"
      "guard_verify L g d s e3 = (True, e')"
proof (cases guard)
  case None
  with assms that(1) show ?thesis by (simp add: link_guard_check_def)
next
  case g: (Some g)
  show ?thesis
  proof (cases "lg_open g")
    case False
    with assms g have "\<not> same" "guard' = guard" by (simp_all add: link_guard_check_def)
    with g False show ?thesis by (intro that(2))
  next
    case True
    obtain now e1 where now: "lo_now L e = (now, e1)" by (cases "lo_now L e")
    define d where "d = min (saturated_deadline_us deadline_msec) (now + LINK_DUMP_TIMEOUT_MSEC * 1000)"
    obtain b e2 where drain: "link_guard_drain L g d e1 = (b, e2)" by (cases "link_guard_drain L g d e1")
    let ?closed = "Some (g\<lparr>lg_open := False\<rparr>)"
    have check: "link_guard_check L guard deadline_msec e =
       (if \<not> b then Some (False, ?closed, e2)
        else Option.bind (link_snapshot_read_until L d e2) (\<lambda>(snapshot, e3).
          case snapshot of None \<Rightarrow> Some (False, ?closed, e3)
          | Some s \<Rightarrow> let (same, e4) = guard_verify L g d s e3
              in Some (same, Some (if same then g else g\<lparr>lg_open := False\<rparr>), e4)))"
      unfolding link_guard_check_def g Let_def option.case now prod.case d_def [symmetric] drain
      using True by simp
    show ?thesis
    proof (cases b)
      case False
      with check assms have "\<not> same" "guard' = ?closed" by simp_all
      with g show ?thesis by (intro that(3))
    next
      case b: True
      with assms check obtain snapshot e3 where read: "link_snapshot_read_until L d e2 = Some (snapshot, e3)"
        by (cases "link_snapshot_read_until L d e2") auto
      show ?thesis
      proof (cases snapshot)
        case None
        with check assms b read have "\<not> same" "guard' = ?closed" by simp_all
        with g show ?thesis by (intro that(3))
      next
        case s: (Some s)
        obtain v e4 where v: "guard_verify L g d s e3 = (v, e4)" by (cases "guard_verify L g d s e3")
        with check assms b read s have "same = v" "guard' = Some (if same then g else g\<lparr>lg_open := False\<rparr>)" "e4 = e'"
          by auto
        show ?thesis
        proof (cases v)
          case True
          with \<open>same = v\<close> \<open>guard' = _\<close> g have "same" "guard' = guard" by simp_all
          moreover have "guard_verify L g d s e3 = (True, e')" using v True \<open>e4 = e'\<close> by simp
          ultimately show ?thesis using g \<open>lg_open g\<close> drain b read s d_def by (intro that(4)) simp_all
        next
          case False
          with \<open>same = v\<close> \<open>guard' = _\<close> g show ?thesis by (intro that(3)) simp_all
        qed
      qed
    qed
  qed
qed


lemma guard_refusal_is_permanent:
  assumes "link_guard_check L guard deadline_msec e = Some (False, guard', e')"
  shows "link_guard_check L' guard' deadline_msec' e'' = Some (False, guard', e'')"
  using assms by (cases rule: guard_check_cases) (auto simp: link_guard_check_def)


text \<open>A system on which nothing happens and which dumps one link, with an alias, in one datagram.\<close>

definition sample_token :: string where "sample_token = replicate 32 CHR ''a''"

definition sample_dump :: bytes where
  "sample_dump =
     map byte_of ([96, 0, 0, 0, 16, 0, 0, 0, 1, 0, 0, 0, 0, 0, 0, 0, 0, 0, 0, 0, 7, 0, 0, 0] @ replicate 8 0 @
       [9, 0, 3, 0]) @ ''awg0'' @ map byte_of [0, 0, 0, 0] @
     map byte_of [52, 0, 20, 0] @ link_alias_prefix @ sample_token @ map byte_of [0] @
     map byte_of [20, 0, 0, 0, 3, 0, 0, 0, 1, 0, 0, 0, 0, 0, 0, 0, 0, 0, 0, 0]"

definition sample_os :: "unit link_os" where
  "sample_os =
     \<lparr>lo_now = (\<lambda>e. (0, e)), lo_cancelled = (\<lambda>e. (False, e)), lo_open = (\<lambda>ch e. (True, e)),
      lo_poll = (\<lambda>ch ev t e. (Poll_ready False True, e)),
      lo_send = (\<lambda>b e. (Send_count (length b), e)),
      lo_recv = (\<lambda>ch e. (case ch of GUARD_SOCKET \<Rightarrow> Recv_again
        | DUMP_SOCKET \<Rightarrow> Recv_message \<lparr>ld_data = sample_dump, ld_truncated = False,
            ld_sender_complete = True, ld_sender_netlink = True, ld_sender_pid = 0\<rparr>, e))\<rparr>"

definition sample_guard :: link_guard where
  "sample_guard = \<lparr>lg_identity = \<lparr>lr_ifindex = 7, lr_ifname = ''awg0'',
     lr_alias = link_alias_prefix @ sample_token, lr_has_alias = True\<rparr>, lg_open = True\<rparr>"

definition sample_links :: "link_record list" where
  "sample_links = [lg_identity sample_guard]"

lemma sample_os_simps:
  "lo_now sample_os e = (0, e)" "lo_open sample_os ch e = (True, e)"
  "0 < d \<Longrightarrow> operation_expired sample_os d e = (False, e)"
  "lo_poll sample_os ch ev t e = (Poll_ready False True, e)"
  "lo_send sample_os b e = (Send_count (length b), e)"
  "fst (lo_recv sample_os DUMP_SOCKET e) = Recv_message \<lparr>ld_data = sample_dump, ld_truncated = False,
            ld_sender_complete = True, ld_sender_netlink = True, ld_sender_pid = 0\<rparr>"
  "snd (lo_recv sample_os DUMP_SOCKET e) = e"
  by (simp_all add: sample_os_def operation_expired_def)

lemma sample_messages:
  "dump_messages sample_os 5000 sample_dump (int (length sample_dump)) empty_link_snapshot () =
     (Dump_complete (link_table sample_links), ())"
proof -
  let ?tail = "drop (nl_align (nlmsg_len sample_dump)) sample_dump"
  have first: "nlmsg_ok sample_dump (int (length sample_dump))" "nlmsg_seq sample_dump = 1"
    "\<not> dump_interrupted sample_dump" "nlmsg_type sample_dump = RTM_NEWLINK"
    "parse_link_message sample_dump True = Some (lg_identity sample_guard)"
    "int (length sample_dump) - int (nl_align (nlmsg_len sample_dump)) = 20"
    by code_simp+
  have last: "nlmsg_ok ?tail 20" "nlmsg_seq ?tail = 1" "\<not> dump_interrupted ?tail" "nlmsg_type ?tail = NLMSG_DONE"
    "nlmsg_len ?tail = 20" "s32_at ?tail 16 = 0" "nl_align 20 = 20"
    by code_simp+
  show ?thesis
    by (subst dump_messages.simps, subst dump_messages.simps)
      (simp add: first last sample_os_simps sample_links_def link_table_def LINK_DUMP_MAX_RECORDS_def
        empty_link_snapshot_def)
qed

lemma sample_read: "link_snapshot_read_until sample_os 5000 () = Some (Some (link_table sample_links), ())"
proof -
  have wait: "wait_for_socket sample_os DUMP_SOCKET POLLIN 5000 () = Some (True, ())"
    by (subst wait_for_socket.simps) (simp add: sample_os_simps)
  have send: "send_dump_request sample_os dump_request 5000 () = Some (True, ())"
    by (subst send_dump_request.simps) (simp add: sample_os_simps)
  have receive: "receive_datagram sample_os 5000 () = Some (Recv_message \<lparr>ld_data = sample_dump,
      ld_truncated = False, ld_sender_complete = True, ld_sender_netlink = True, ld_sender_pid = 0\<rparr>, ())"
    by (subst receive_datagram.simps) (simp add: sample_os_simps split_beta)
  have "length sample_dump = 116" by code_simp
  then have "dump_loop sample_os 5000 empty_link_snapshot () = Some (Some (link_table sample_links), ())"
    using sample_messages
    by (subst dump_loop.simps)
      (simp add: wait receive datagram_is_trusted_def LINK_DUMP_BUFFER_SIZE_def sample_os_simps)
  then show ?thesis
    by (simp add: link_snapshot_read_until_def sample_os_simps send LINK_DUMP_TIMEOUT_MSEC_def)
qed

lemma sample_check: "link_guard_check sample_os (Some sample_guard) 5 () = Some (True, Some sample_guard, ())"
proof -
  have "link_guard_drain sample_os sample_guard 5000 () = (True, ())" by code_simp
  moreover have "guard_verify sample_os sample_guard 5000 (link_table sample_links) () = (True, ())" by code_simp
  moreover have "lg_open sample_guard" by (simp add: sample_guard_def)
  ultimately show ?thesis
    by (simp add: link_guard_check_def sample_os_simps sample_read saturated_deadline_us_def
        LINK_DUMP_TIMEOUT_MSEC_def signed_divide_int_def)
qed


section \<open>Every read returns\<close>

text \<open>
  Time passes: every reading of the clock takes at least a \<open>k\<close>-th of a microsecond, and nothing
  turns the time back.
\<close>

definition clock_advances :: "'e link_os \<Rightarrow> ('e \<Rightarrow> int) \<Rightarrow> int \<Rightarrow> bool" where
  "clock_advances L tick k \<longleftrightarrow> 0 < k \<and>
     (\<forall>e. tick e \<le> fst (lo_now L e) * k \<and> tick e < tick (snd (lo_now L e))) \<and>
     (\<forall>e. tick e \<le> tick (snd (lo_cancelled L e))) \<and>
     (\<forall>ch e. tick e \<le> tick (snd (lo_open L ch e))) \<and>
     (\<forall>ch ev t e. tick e \<le> tick (snd (lo_poll L ch ev t e))) \<and>
     (\<forall>b e. tick e \<le> tick (snd (lo_send L b e))) \<and>
     (\<forall>ch e. tick e \<le> tick (snd (lo_recv L ch e)))"

lemma clock_ops:
  assumes "clock_advances L tick k"
  shows "lo_now L e = (now, e') \<Longrightarrow> tick e < tick e'"
    and "lo_open L ch e = (x1, e') \<Longrightarrow> tick e \<le> tick e'"
    and "lo_poll L ch ev t e = (x2, e') \<Longrightarrow> tick e \<le> tick e'"
    and "lo_send L b e = (x3, e') \<Longrightarrow> tick e \<le> tick e'"
    and "lo_recv L ch e = (x4, e') \<Longrightarrow> tick e \<le> tick e'"
    and "lo_cancelled L e = (x5, e') \<Longrightarrow> tick e \<le> tick e'"
  using assms by (auto simp: clock_advances_def split_beta dest: spec [of _ e]) (metis snd_conv)+

lemma expired_ticks:
  assumes "clock_advances L tick k" and "operation_expired L d e = (x, e')"
  shows "tick e < tick e' \<and> (\<not> x \<longrightarrow> tick e < d * k)"
proof -
  obtain now e1 where now: "lo_now L e = (now, e1)" by (cases "lo_now L e")
  have 1: "tick e < tick e1" and 2: "tick e \<le> now * k" and k: "0 < k"
    using assms(1) now by (auto simp: clock_advances_def dest: spec [of _ e])
  show ?thesis
  proof (cases "now \<ge> d")
    case True
    with assms(2) now 1 show ?thesis by (auto simp: operation_expired_def)
  next
    case False
    then have "now * k < d * k" using k by simp
    moreover have "tick e1 \<le> tick e'"
      using assms(2) now False clock_ops(6) [OF assms(1)] by (auto simp: operation_expired_def)
    ultimately show ?thesis using 1 2 by linarith
  qed
qed

lemma wait_returns:
  assumes "clock_advances L tick k"
  shows "\<exists>x e'. wait_for_socket L ch ev d e = Some (x, e') \<and> tick e < tick e' \<and> (x \<longrightarrow> tick e < d * k)"
proof (induction "nat (d * k - tick e)" arbitrary: e rule: less_induct)
  case less
  obtain x e1 where x: "operation_expired L d e = (x, e1)" by (cases "operation_expired L d e")
  obtain now e2 where now: "lo_now L e1 = (now, e2)" by (cases "lo_now L e1")
  define t where "t = max (min ((d - now + 999) sdiv 1000) LINK_DUMP_POLL_SLICE_MSEC) 1"
  obtain r e3 where r: "lo_poll L ch ev t e2 = (r, e3)" by (cases "lo_poll L ch ev t e2")
  note ticks = expired_ticks [OF assms x] clock_ops(1) [OF assms now] clock_ops(3) [OF assms r]
  have eq: "wait_for_socket L ch ev d e =
     (if x then Some (False, e1)
      else case r of Poll_interrupted \<Rightarrow> wait_for_socket L ch ev d e3 | Poll_failed \<Rightarrow> Some (False, e3)
        | Poll_timeout \<Rightarrow> wait_for_socket L ch ev d e3
        | Poll_ready failed wanted \<Rightarrow> if failed then Some (False, e3) else if wanted then Some (True, e3)
            else wait_for_socket L ch ev d e3)"
    by (subst wait_for_socket.simps) (simp add: x now r t_def [symmetric])
  show ?case
  proof (cases x)
    case True
    with eq ticks show ?thesis by auto
  next
    case False
    have lt: "tick e < tick e3" "tick e < d * k" using ticks False by linarith+
    then have "nat (d * k - tick e3) < nat (d * k - tick e)" by linarith
    from less [OF this] obtain y e4 where "wait_for_socket L ch ev d e3 = Some (y, e4)" "tick e3 < tick e4" by blast
    with eq False lt show ?thesis by (auto split: poll_outcome.splits)
  qed
qed

lemma send_returns:
  assumes "clock_advances L tick k"
  shows "\<exists>x e'. send_dump_request L b d e = Some (x, e') \<and> tick e < tick e'"
proof (induction "nat (d * k - tick e)" arbitrary: e rule: less_induct)
  case less
  obtain x e1 where x: "operation_expired L d e = (x, e1)" by (cases "operation_expired L d e")
  obtain r e2 where r: "lo_send L b e1 = (r, e2)" by (cases "lo_send L b e1")
  note ticks = expired_ticks [OF assms x] clock_ops(4) [OF assms r]
  obtain y e3 where y: "wait_for_socket L DUMP_SOCKET POLLOUT d e2 = Some (y, e3)" "tick e2 < tick e3"
    using wait_returns [OF assms] by blast
  have eq: "send_dump_request L b d e =
     (if x then Some (False, e1)
      else case r of Send_count n \<Rightarrow> Some (n = length b, e2) | Send_interrupted \<Rightarrow> send_dump_request L b d e2
        | Send_again \<Rightarrow> if y then send_dump_request L b d e3 else Some (False, e3)
        | Send_failed \<Rightarrow> Some (False, e2))"
    by (subst send_dump_request.simps) (simp add: x r y cong: send_outcome.case_cong)
  have later: "\<exists>x e''. send_dump_request L b d e' = Some (x, e'') \<and> tick e < tick e''"
    if "\<not> x" "tick e < tick e'" for e'
  proof -
    have "nat (d * k - tick e') < nat (d * k - tick e)" using ticks that by linarith
    from less [OF this] that(2) show ?thesis by (meson less_trans)
  qed
  show ?case
  proof (cases x)
    case True
    with eq ticks show ?thesis by auto
  next
    case False
    have "tick e < tick e2" "tick e < tick e3" using ticks y by linarith+
    with eq False later show ?thesis by (auto split: send_outcome.splits)
  qed
qed

lemma receive_returns:
  assumes "clock_advances L tick k"
  shows "\<exists>x e'. receive_datagram L d e = Some (x, e') \<and> tick e < tick e'"
proof (induction "nat (d * k - tick e)" arbitrary: e rule: less_induct)
  case less
  obtain x e1 where x: "operation_expired L d e = (x, e1)" by (cases "operation_expired L d e")
  obtain r e2 where r: "lo_recv L DUMP_SOCKET e1 = (r, e2)" by (cases "lo_recv L DUMP_SOCKET e1")
  note ticks = expired_ticks [OF assms x] clock_ops(5) [OF assms r]
  have eq: "receive_datagram L d e = (if x then Some (Recv_failed, e1)
      else if r = Recv_interrupted then receive_datagram L d e2 else Some (r, e2))"
    by (subst receive_datagram.simps) (simp add: x r split: recv_outcome.split)
  show ?case
  proof (cases x)
    case True
    with eq ticks show ?thesis by auto
  next
    case False
    have lt: "tick e < tick e2" "tick e < d * k" using ticks False by linarith+
    then have "nat (d * k - tick e2) < nat (d * k - tick e)" by linarith
    from less [OF this] obtain y e3 where "receive_datagram L d e2 = Some (y, e3)" "tick e2 < tick e3" by blast
    with eq False lt show ?thesis by auto
  qed
qed

lemma messages_tick:
  assumes "clock_advances L tick k"
  shows "dump_messages L d m remaining s e = (x, e') \<Longrightarrow> tick e \<le> tick e'"
proof (induction "nat remaining" arbitrary: m remaining s e rule: less_induct)
  case less
  obtain y e1 where y: "operation_expired L d e = (y, e1)" by (cases "operation_expired L d e")
  have e1: "tick e < tick e1" using expired_ticks [OF assms y] by simp
  show ?case
  proof (cases "nlmsg_ok m remaining")
    case False
    with less.prems show ?thesis by (simp add: dump_messages.simps [of L d m])
  next
    case True
    let ?m = "drop (nl_align (nlmsg_len m)) m" and ?n = "remaining - int (nl_align (nlmsg_len m))"
    have "nat ?n < nat remaining" using message_shrinks [OF True] by simp
    from less.hyps [OF this] have "dump_messages L d ?m ?n s' e1 = (x, e') \<Longrightarrow> tick e1 \<le> tick e'" for s' .
    with e1 have IH: "dump_messages L d ?m ?n s' e1 = (x, e') \<Longrightarrow> tick e \<le> tick e'" for s' by fastforce
    from True less.prems e1 IH show ?thesis
      by (simp add: dump_messages.simps [of L d m] y Let_def split: if_splits option.splits)
  qed
qed

lemma dump_loop_returns:
  assumes "clock_advances L tick k"
  shows "\<exists>x e'. dump_loop L d s e = Some (x, e')"
proof (induction "nat (d * k - tick e)" arbitrary: e s rule: less_induct)
  case less
  obtain x e1 where x: "wait_for_socket L DUMP_SOCKET POLLIN d e = Some (x, e1)" "tick e < tick e1"
      "x \<longrightarrow> tick e < d * k"
    using wait_returns [OF assms] by blast
  obtain r e2 where r: "receive_datagram L d e1 = Some (r, e2)" "tick e1 < tick e2"
    using receive_returns [OF assms] by blast
  have later: "\<exists>y e''. dump_loop L d s' e' = Some (y, e'')" if "x" "tick e < tick e'" for s' e'
  proof -
    have "nat (d * k - tick e') < nat (d * k - tick e)" using x that by linarith
    from less [OF this] show ?thesis .
  qed
  show ?case
  proof (cases x)
    case False
    then show ?thesis by (subst dump_loop.simps) (simp add: x(1))
  next
    case True
    have e2: "tick e < tick e2" using x r by linarith
    show ?thesis
    proof (cases r)
      case (Recv_message dg)
      obtain y e3 where y: "dump_messages L d (ld_data dg) (int (length (ld_data dg))) s e2 = (y, e3)"
        by (cases "dump_messages L d (ld_data dg) (int (length (ld_data dg))) s e2")
      have "tick e < tick e3" using e2 messages_tick [OF assms y] by linarith
      with True later have more: "\<exists>z e''. dump_loop L d s' e3 = Some (z, e'')" for s' by blast
      obtain z e4 where z: "operation_expired L d e3 = (z, e4)" by (cases "operation_expired L d e3")
      show ?thesis
        using more by (subst dump_loop.simps) (cases y; simp add: x(1) r(1) True Recv_message y z)
    next
      case Recv_again
      with True later e2 show ?thesis by (subst dump_loop.simps) (simp add: x(1) r(1))
    qed (use True in \<open>subst dump_loop.simps, simp add: x(1) r(1)\<close>)+
  qed
qed

lemma read_until_returns:
  assumes "clock_advances L tick k"
  shows "\<exists>s e'. link_snapshot_read_until L d e = Some (s, e')"
proof -
  obtain now e1 where now: "lo_now L e = (now, e1)" by (cases "lo_now L e")
  define d' where "d' = min d (now + LINK_DUMP_TIMEOUT_MSEC * 1000)"
  obtain x e2 where x: "operation_expired L d' e1 = (x, e2)" by (cases "operation_expired L d' e1")
  obtain y e3 where y: "lo_open L DUMP_SOCKET e2 = (y, e3)" by (cases "lo_open L DUMP_SOCKET e2")
  obtain z e4 where z: "send_dump_request L dump_request d' e3 = Some (z, e4)" using send_returns [OF assms] by blast
  show ?thesis
    using dump_loop_returns [OF assms, of d' empty_link_snapshot e4]
    by (auto simp: link_snapshot_read_until_def now d'_def [symmetric] Let_def x y z)
qed

lemma guard_check_returns:
  assumes "clock_advances L tick k"
  shows "\<exists>r. link_guard_check L guard d e = Some r"
proof (cases guard)
  case (Some g)
  obtain now e1 where now: "lo_now L e = (now, e1)" by (cases "lo_now L e")
  define d' where "d' = min (saturated_deadline_us d) (now + LINK_DUMP_TIMEOUT_MSEC * 1000)"
  obtain b e2 where b: "link_guard_drain L g d' e1 = (b, e2)" by (cases "link_guard_drain L g d' e1")
  obtain s e3 where s: "link_snapshot_read_until L d' e2 = Some (s, e3)" using read_until_returns [OF assms] by blast
  show ?thesis
    unfolding link_guard_check_def Some option.case Let_def now prod.case d'_def [symmetric] b s Option.bind.simps
    by (cases s) (auto simp: split_beta)
qed (auto simp: link_guard_check_def)

text \<open>
  C35. Every look at the links returns. If only the clock advances, however little at each reading,
  then whatever the kernel, the other sockets and the senders of datagrams do, reading the list of
  links, observing a link, creating a guard and checking one all come back with an answer, none of
  them can be kept waiting or looping for ever.
\<close>

theorem link_reads_return:
  assumes "clock_advances L tick k"
  shows "link_snapshot_read L e \<noteq> None \<and> link_observe L name token e \<noteq> None \<and>
    link_guard_new L identity deadline_msec e \<noteq> None \<and> link_guard_check L guard deadline_msec e \<noteq> None"
proof -
  have read: "link_snapshot_read L e \<noteq> None" for e
    using read_until_returns [OF assms] unfolding link_snapshot_read_def by fastforce
  moreover have "link_observe L name token e \<noteq> None"
    using read [of e] unfolding link_observe_def by (auto simp: split_beta)
  moreover have check: "link_guard_check L guard deadline_msec e \<noteq> None" for guard e
    using guard_check_returns [OF assms] by fastforce
  moreover have "link_guard_new L identity deadline_msec e \<noteq> None"
  proof -
    have "Option.bind (link_guard_check L g deadline_msec e')
        (\<lambda>(same, guard, e4). Some (if same then guard else None, e4)) \<noteq> None" for g e'
      using check [of g e'] by (auto simp: split_beta)
    then show ?thesis
      unfolding link_guard_new_def Let_def by (simp add: split_beta split: option.split)
  qed
  ultimately show ?thesis by blast
qed

text \<open>A clock that advances by a microsecond at every reading, on a system where nothing else works.\<close>

definition ticking_os :: "int link_os" where
  "ticking_os =
     \<lparr>lo_now = (\<lambda>e. (e, e + 1)), lo_cancelled = (\<lambda>e. (False, e)), lo_open = (\<lambda>ch e. (True, e)),
      lo_poll = (\<lambda>ch ev t e. (Poll_timeout, e)), lo_send = (\<lambda>b e. (Send_again, e)),
      lo_recv = (\<lambda>ch e. (Recv_interrupted, e))\<rparr>"

theorem link_reads_return_witness:
  "link_snapshot_read ticking_os 0 \<noteq> None \<and> link_observe ticking_os (Some ''awg0'') None 0 \<noteq> None \<and>
   link_guard_new ticking_os None 5 0 \<noteq> None \<and> link_guard_check ticking_os (Some sample_guard) 5 0 \<noteq> None"
  by (rule link_reads_return [where tick = "\<lambda>e. e" and k = 1]) (simp add: clock_advances_def ticking_os_def)

end
