(* ===== verification/Runtime_Records.thy ===== *)
theory Runtime_Records
  imports Profile_Model Link_Guard
begin

text \<open>
  The data of \<open>amneziawg/runtime_source.c\<close> and its pure functions: the request and the result of a
  scan, the normalized names, and the reconciliation of the cached records with an incomplete scan.
\<close>

definition runtime_directory :: string where "runtime_directory = ''/run/nm-sidebar/amneziawg''"
definition AWG_RUNTIME_MAX_NAMES :: nat where "AWG_RUNTIME_MAX_NAMES = 1024"

record runtime_scan_request =
  rq_names :: "string list"
  rq_previous_names :: "string list"
  rq_generation :: nat

record runtime_scan_result =
  sr_records :: "runtime_record list"
  sr_link_filter :: "link_event_filter option"
  sr_generation :: nat
  sr_complete :: bool

definition record_identifies_session :: "runtime_record \<Rightarrow> bool" where
  "record_identifies_session r \<longleftrightarrow> rr_state r \<noteq> RUNTIME_INACTIVE"

fun normalize_add :: "string list \<Rightarrow> string list \<Rightarrow> string list" where
  "normalize_add unique [] = unique"
| "normalize_add unique (n # ns) =
     normalize_add
       (if name_is_valid (Some n) \<and> (n \<in> set unique \<or> length unique < AWG_RUNTIME_MAX_NAMES)
        then hash_add n unique else unique) ns"

definition normalize_names :: "string list \<Rightarrow> string list" where
  "normalize_names names = sort (normalize_add [] names)"

text \<open>
  The records after an incomplete scan: the known sessions first, with what was observed of them,
  then the other observations. The table of observations maps a name to its last record.
\<close>

fun reconcile_previous ::
    "runtime_record list \<Rightarrow> (string \<rightharpoonup> runtime_record) \<Rightarrow> runtime_record list \<Rightarrow>
     runtime_record list \<times> (string \<rightharpoonup> runtime_record)" where
  "reconcile_previous [] obs out = (out, obs)"
| "reconcile_previous (p # ps) obs out =
     (if \<not> length out < AWG_RUNTIME_MAX_NAMES then (out, obs)
      else if \<not> record_identifies_session p then reconcile_previous ps obs out
      else
        let observed = obs (rr_name p);
            r = \<lparr>rr_name = rr_name p,
                 rr_state = (case observed of Some o' \<Rightarrow> rr_state o' | None \<Rightarrow> RUNTIME_UNKNOWN),
                 rr_interface_exists = (case observed of Some o' \<Rightarrow> rr_interface_exists o' | None \<Rightarrow> False)\<rparr>
        in reconcile_previous ps (obs(rr_name p := None)) (out @ [r]))"

fun reconcile_observed ::
    "runtime_record list \<Rightarrow> (string \<rightharpoonup> runtime_record) \<Rightarrow> runtime_record list \<Rightarrow> runtime_record list" where
  "reconcile_observed [] obs out = out"
| "reconcile_observed (r # rs) obs out =
     (if \<not> length out < AWG_RUNTIME_MAX_NAMES then out
      else if obs (rr_name r) = None then reconcile_observed rs obs out
      else reconcile_observed rs (obs(rr_name r := None)) (out @ [r]))"

definition reconcile_scan_records ::
    "runtime_record list \<Rightarrow> runtime_scan_result \<Rightarrow> runtime_record list" where
  "reconcile_scan_records previous res =
     (if sr_complete res then sr_records res
      else
        let obs = foldl (\<lambda>m r. m(rr_name r \<mapsto> r)) Map.empty (sr_records res);
            (out, obs') = reconcile_previous previous obs []
        in reconcile_observed (sr_records res) obs' out)"

fun remove_record :: "string \<Rightarrow> runtime_record list \<Rightarrow> runtime_record list" where
  "remove_record n [] = []"
| "remove_record n (r # rs) = (if rr_name r = n then rs else r # remove_record n rs)"

section \<open>Incomplete scans\<close>

text \<open>What an incomplete scan makes of a known session.\<close>

definition reconciled_session :: "(string \<rightharpoonup> runtime_record) \<Rightarrow> runtime_record \<Rightarrow> runtime_record" where
  "reconciled_session obs p =
     (case obs (rr_name p) of
        Some r \<Rightarrow> \<lparr>rr_name = rr_name p, rr_state = rr_state r, rr_interface_exists = rr_interface_exists r\<rparr>
      | None \<Rightarrow> \<lparr>rr_name = rr_name p, rr_state = RUNTIME_UNKNOWN, rr_interface_exists = False\<rparr>)"

abbreviation known_sessions :: "runtime_record list \<Rightarrow> runtime_record list" where
  "known_sessions rs \<equiv> filter record_identifies_session rs"

lemma reconciled_session_upd:
  "rr_name p \<noteq> n \<Longrightarrow> reconciled_session (obs(n := v)) p = reconciled_session obs p"
  by (simp add: reconciled_session_def)

lemma take_room: "length out < (n :: nat) \<Longrightarrow> take (n - length out) (x # xs) = x # take (n - Suc (length out)) xs"
  by (cases "n - length out") (auto simp: Suc_diff_Suc dest: sym intro: arg_cong2 [where f = take])

lemma reconcile_previous_session:
  assumes "length out < AWG_RUNTIME_MAX_NAMES \<and> record_identifies_session p"
  shows "reconcile_previous (p # ps) obs out =
    reconcile_previous ps (obs(rr_name p := None)) (out @ [reconciled_session obs p])"
  using assms by (simp add: Let_def reconciled_session_def split: option.split)

lemma reconcile_previous_out:
  assumes "distinct (map rr_name (known_sessions ps))"
  shows "fst (reconcile_previous ps obs out) =
    out @ take (AWG_RUNTIME_MAX_NAMES - length out) (map (reconciled_session obs) (known_sessions ps))"
  using assms
proof (induction ps arbitrary: obs out)
  case (Cons p ps)
  show ?case
  proof (cases "length out < AWG_RUNTIME_MAX_NAMES \<and> record_identifies_session p")
    case True
    note eq = reconcile_previous_session [OF True]
    have "map (reconciled_session (obs(rr_name p := None))) (known_sessions ps) =
        map (reconciled_session obs) (known_sessions ps)"
      using Cons.prems True by (auto simp: image_iff intro!: reconciled_session_upd)
    with Cons True show ?thesis by (simp add: eq take_room del: map_eq_conv reconcile_previous.simps)
  next
    case False
    then show ?thesis using Cons by auto
  qed
qed simp

lemma reconcile_previous_obs:
  assumes "length (fst (reconcile_previous ps obs out)) < AWG_RUNTIME_MAX_NAMES"
  shows "snd (reconcile_previous ps obs out) =
    (\<lambda>n. if n \<in> rr_name ` set (known_sessions ps) then None else obs n)"
  using assms
proof (induction ps arbitrary: obs out)
  case (Cons p ps)
  show ?case
  proof (cases "length out < AWG_RUNTIME_MAX_NAMES \<and> record_identifies_session p")
    case True
    note eq = reconcile_previous_session [OF True]
    show ?thesis
      unfolding eq Cons.IH [OF Cons.prems [unfolded eq]] using True by (intro ext) simp
  next
    case False
    then show ?thesis using Cons by (auto split: if_splits)
  qed
qed simp

lemma reconcile_observed_full: "\<not> length out < AWG_RUNTIME_MAX_NAMES \<Longrightarrow> reconcile_observed rs obs out = out"
  by (cases rs) simp_all

lemma reconcile_observed_out:
  assumes "distinct (map rr_name rs)"
  shows "reconcile_observed rs obs out =
    out @ take (AWG_RUNTIME_MAX_NAMES - length out) (filter (\<lambda>r. obs (rr_name r) \<noteq> None) rs)"
  using assms
proof (induction rs arbitrary: obs out)
  case (Cons r rs)
  have "filter (\<lambda>s. (obs(rr_name r := None)) (rr_name s) \<noteq> None) rs = filter (\<lambda>s. obs (rr_name s) \<noteq> None) rs"
    using Cons.prems by (intro filter_cong [OF refl]) (auto simp: image_iff)
  then show ?case
    using Cons by (cases "length out < AWG_RUNTIME_MAX_NAMES") (auto simp: take_room)
qed simp

definition observation_table :: "runtime_record list \<Rightarrow> (string \<rightharpoonup> runtime_record)" where
  "observation_table rs = foldl (\<lambda>m r. m(rr_name r \<mapsto> r)) Map.empty rs"

lemma foldl_table_dom: "dom (foldl (\<lambda>m r. m(rr_name r \<mapsto> r)) m rs) = dom m \<union> rr_name ` set rs"
  by (induction rs arbitrary: m) auto

lemma observation_table_Some: "(\<exists>r'. observation_table rs (rr_name r) = Some r') \<longleftrightarrow> rr_name r \<in> rr_name ` set rs"
  using foldl_table_dom [of Map.empty rs] unfolding observation_table_def by (auto simp: dom_def image_iff)

text \<open>
  C36. A scan that could not read everything forgets no session. With distinct names, the records
  after it are the known sessions in their order, each with what was observed of it or else
  unknown, followed by the observations of other names, cut off at the limit; a complete scan
  replaces the records.
\<close>

theorem incomplete_scan_keeps_sessions:
  assumes "distinct (map rr_name (known_sessions previous))" and "distinct (map rr_name (sr_records res))"
  shows "reconcile_scan_records previous res =
    (if sr_complete res then sr_records res
     else take AWG_RUNTIME_MAX_NAMES
       (map (reconciled_session (observation_table (sr_records res))) (known_sessions previous) @
        filter (\<lambda>r. rr_name r \<notin> rr_name ` set (known_sessions previous)) (sr_records res)))"
proof (cases "sr_complete res")
  case False
  define obs where "obs = observation_table (sr_records res)"
  define kept where "kept = map (reconciled_session obs) (known_sessions previous)"
  obtain out obs' where r: "reconcile_previous previous obs [] = (out, obs')" by (metis prod.exhaust)
  have out: "out = take AWG_RUNTIME_MAX_NAMES kept"
    using reconcile_previous_out [OF assms(1), of obs "[]"] r by (simp add: kept_def)
  have eq: "reconcile_scan_records previous res = reconcile_observed (sr_records res) obs' out"
    using False r by (simp add: reconcile_scan_records_def obs_def observation_table_def Let_def)
  show ?thesis
  proof (cases "length out < AWG_RUNTIME_MAX_NAMES")
    case True
    then have obs': "obs' = (\<lambda>n. if n \<in> rr_name ` set (known_sessions previous) then None else obs n)"
      using reconcile_previous_obs [of previous obs "[]"] r by simp
    have "filter (\<lambda>r. obs' (rr_name r) \<noteq> None) (sr_records res) =
        filter (\<lambda>r. rr_name r \<notin> rr_name ` set (known_sessions previous)) (sr_records res)"
      unfolding obs' obs_def by (rule filter_cong [OF refl]) (auto simp: observation_table_Some)
    moreover have "out = kept" using out True by simp
    ultimately show ?thesis
      using False True unfolding eq reconcile_observed_out [OF assms(2)]
      by (simp add: kept_def obs_def)
  next
    case full: False
    then show ?thesis using False out unfolding eq reconcile_observed_full [OF full]
      by (simp add: kept_def obs_def)
  qed
qed (simp add: reconcile_scan_records_def)

definition session_record :: "string \<Rightarrow> runtime_state \<Rightarrow> runtime_record" where
  "session_record n s = \<lparr>rr_name = n, rr_state = s, rr_interface_exists = (s = RUNTIME_ACTIVE)\<rparr>"

theorem incomplete_scan_keeps_sessions_witness:
  "reconcile_scan_records [session_record ''wg0'' RUNTIME_ACTIVE, session_record ''wg1'' RUNTIME_ACTIVE]
     \<lparr>sr_records = [session_record ''wg1'' RUNTIME_INACTIVE, session_record ''wg2'' RUNTIME_ACTIVE],
      sr_link_filter = None, sr_generation = 3, sr_complete = False\<rparr> =
   [session_record ''wg0'' RUNTIME_UNKNOWN, session_record ''wg1'' RUNTIME_INACTIVE,
    session_record ''wg2'' RUNTIME_ACTIVE]"
  by (subst incomplete_scan_keeps_sessions)
    (simp_all add: session_record_def record_identifies_session_def reconciled_session_def
      observation_table_def AWG_RUNTIME_MAX_NAMES_def)

end
