(* ===== verification/Runtime_Scan.thy ===== *)
theory Runtime_Scan
  imports Runtime_Records "HOL-Library.Multiset"
begin

text \<open>
  The worker of \<open>amneziawg/runtime_source.c\<close>: opening and listing the runtime directory, reading the
  markers, observing the links, and the result of one scan. The file system is a record of functions
  over a state of its own that extends the operating system of \<open>Link_Guard\<close>; the order in which the
  hash table of names is traversed is one of them. Closing descriptors has no counterpart, apart
  from the status of \<open>closedir\<close>. Reads repeated while a signal interrupts them are a
  \<open>partial_function\<close>.
\<close>

section \<open>The file system\<close>

definition AWG_RUNTIME_MAX_DIRECTORY_ENTRIES :: nat where "AWG_RUNTIME_MAX_DIRECTORY_ENTRIES = 4096"

datatype runtime_directory_state = RUNTIME_DIRECTORY_MISSING | RUNTIME_DIRECTORY_TRUSTED | RUNTIME_DIRECTORY_UNKNOWN

datatype runtime_marker_state =
  RUNTIME_MARKER_ABSENT | RUNTIME_MARKER_VALID | RUNTIME_MARKER_INVALID | RUNTIME_MARKER_UNKNOWN

datatype file_kind = FILE_REGULAR | FILE_DIRECTORY | FILE_OTHER

record file_stat =
  st_kind :: file_kind
  st_permissions :: "9 word"
  st_uid :: nat
  st_gid :: nat
  st_nlink :: nat
  st_dev :: nat
  st_ino :: nat

datatype 'a file_outcome = File_ok 'a | File_missing | File_failed
datatype readdir_outcome = Dir_entry string | Dir_end | Dir_failed
datatype read_outcome = Read_bytes bytes | Read_interrupted | Read_failed

record 'e scan_os = "'e link_os" +
  so_open_directory :: "'e \<Rightarrow> unit file_outcome \<times> 'e"
  so_stat_directory :: "'e \<Rightarrow> file_stat option \<times> 'e"
  so_iterate :: "'e \<Rightarrow> bool \<times> 'e"
  so_readdir :: "'e \<Rightarrow> readdir_outcome \<times> 'e"
  so_closedir :: "'e \<Rightarrow> bool \<times> 'e"
  so_stat :: "string \<Rightarrow> 'e \<Rightarrow> file_stat file_outcome \<times> 'e"
  so_open :: "string \<Rightarrow> 'e \<Rightarrow> bool \<times> 'e"
  so_fstat :: "'e \<Rightarrow> file_stat option \<times> 'e"
  so_read :: "nat \<Rightarrow> 'e \<Rightarrow> read_outcome \<times> 'e"
  so_hash_order :: "string list \<Rightarrow> string list"

unbundle bit_operations_syntax

section \<open>Reading the directory and the markers\<close>

definition directory_is_trusted :: "file_stat \<Rightarrow> bool" where
  "directory_is_trusted st \<longleftrightarrow>
     st_kind st = FILE_DIRECTORY \<and> st_uid st = 0 \<and> st_gid st = 0 \<and> st_permissions st AND 18 = 0"

definition marker_file_is_trusted :: "file_stat \<Rightarrow> bool" where
  "marker_file_is_trusted st \<longleftrightarrow>
     st_kind st = FILE_REGULAR \<and> st_uid st = 0 \<and> st_gid st = 0 \<and> st_nlink st = 1 \<and>
     st_permissions st AND 511 = 420"

definition open_runtime_directory :: "('e, 'x) scan_os_scheme \<Rightarrow> 'e \<Rightarrow> runtime_directory_state \<times> 'e" where
  "open_runtime_directory S e =
     (case so_open_directory S e of
        (File_missing, e1) \<Rightarrow> (RUNTIME_DIRECTORY_MISSING, e1)
      | (File_failed, e1) \<Rightarrow> (RUNTIME_DIRECTORY_UNKNOWN, e1)
      | (File_ok _, e1) \<Rightarrow>
          (case so_stat_directory S e1 of
             (None, e2) \<Rightarrow> (RUNTIME_DIRECTORY_UNKNOWN, e2)
           | (Some st, e2) \<Rightarrow>
               (if directory_is_trusted st then RUNTIME_DIRECTORY_TRUSTED else RUNTIME_DIRECTORY_UNKNOWN, e2)))"

text \<open>The loop over the entries; the first argument counts the entries that may still be examined.\<close>

fun add_entries ::
    "('e, 'x) scan_os_scheme \<Rightarrow> nat \<Rightarrow> string list \<Rightarrow> 'e \<Rightarrow> bool \<times> string list \<times> 'e" where
  "add_entries S left names e =
     (let (cancelled, e1) = lo_cancelled S e
      in if cancelled then (False, names, e1)
         else case left of
           0 \<Rightarrow> (False, names, e1)
         | Suc left' \<Rightarrow>
             (case so_readdir S e1 of
                (Dir_end, e2) \<Rightarrow> (True, names, e2)
              | (Dir_failed, e2) \<Rightarrow> (False, names, e2)
              | (Dir_entry n, e2) \<Rightarrow>
                  if \<not> name_is_valid (Some n) then add_entries S left' names e2
                  else if length names \<ge> AWG_RUNTIME_MAX_NAMES \<and> n \<notin> set names then (False, names, e2)
                  else add_entries S left' (hash_add n names) e2))"

declare add_entries.simps [simp del]

definition add_runtime_names ::
    "('e, 'x) scan_os_scheme \<Rightarrow> string list \<Rightarrow> 'e \<Rightarrow> bool \<times> string list \<times> 'e" where
  "add_runtime_names S names e =
     (let (opened, e1) = so_iterate S e
      in if \<not> opened then (False, names, e1)
         else
           let (complete, names', e2) = add_entries S AWG_RUNTIME_MAX_DIRECTORY_ENTRIES names e1;
               (closed, e3) = so_closedir S e2
           in (if \<not> closed then False else complete, names', e3))"

text \<open>The bytes of a marker up to the size of the buffer; nothing if reading fails.\<close>

partial_function (option) read_marker_bytes ::
    "('e, 'x) scan_os_scheme \<Rightarrow> bytes \<Rightarrow> 'e \<Rightarrow> (bytes option \<times> 'e) option" where
  "read_marker_bytes S used e =
     (if \<not> length used < max_runtime_marker_size then Some (Some used, e)
      else case so_read S (max_runtime_marker_size - length used) e of
        (Read_interrupted, e1) \<Rightarrow> read_marker_bytes S used e1
      | (Read_failed, e1) \<Rightarrow> Some (None, e1)
      | (Read_bytes bs, e1) \<Rightarrow> if bs = [] then Some (Some used, e1) else read_marker_bytes S (used @ bs) e1)"

text \<open>The read of one more byte after a full buffer: nothing more, something more, or a failure.\<close>

partial_function (option) read_extra :: "('e, 'x) scan_os_scheme \<Rightarrow> 'e \<Rightarrow> (bytes option \<times> 'e) option" where
  "read_extra S e =
     (case so_read S 1 e of
        (Read_interrupted, e1) \<Rightarrow> read_extra S e1
      | (Read_failed, e1) \<Rightarrow> Some (None, e1)
      | (Read_bytes bs, e1) \<Rightarrow> Some (Some bs, e1))"

definition parsed_marker :: "bytes \<Rightarrow> runtime_marker_state \<times> runtime_marker option" where
  "parsed_marker data =
     (case runtime_marker_parse data of
        Some m \<Rightarrow> (RUNTIME_MARKER_VALID, Some m)
      | None \<Rightarrow> (RUNTIME_MARKER_INVALID, None))"

text \<open>From the opened file on.\<close>

definition read_marker_file ::
    "('e, 'x) scan_os_scheme \<Rightarrow> file_stat \<Rightarrow> 'e \<Rightarrow> ((runtime_marker_state \<times> runtime_marker option) \<times> 'e) option" where
  "read_marker_file S before e =
     (let (after, e1) = so_fstat S e
      in if (case after of None \<Rightarrow> True | Some st \<Rightarrow>
               st_dev before \<noteq> st_dev st \<or> st_ino before \<noteq> st_ino st \<or> \<not> marker_file_is_trusted st)
         then Some ((RUNTIME_MARKER_UNKNOWN, None), e1)
         else Option.bind (read_marker_bytes S [] e1) (\<lambda>(data, e2).
           case data of
             None \<Rightarrow> Some ((RUNTIME_MARKER_UNKNOWN, None), e2)
           | Some used \<Rightarrow>
               if length used = max_runtime_marker_size then
                 Option.bind (read_extra S e2) (\<lambda>(extra, e3).
                   case extra of
                     None \<Rightarrow> Some ((RUNTIME_MARKER_UNKNOWN, None), e3)
                   | Some bs \<Rightarrow>
                       if bs \<noteq> [] then Some ((RUNTIME_MARKER_INVALID, None), e3)
                       else Some (parsed_marker used, e3))
               else Some (parsed_marker used, e2)))"

definition read_runtime_marker ::
    "('e, 'x) scan_os_scheme \<Rightarrow> runtime_directory_state \<Rightarrow> string \<Rightarrow> 'e \<Rightarrow>
     ((runtime_marker_state \<times> runtime_marker option) \<times> 'e) option" where
  "read_runtime_marker S directory_state name e =
     (if directory_state = RUNTIME_DIRECTORY_MISSING then Some ((RUNTIME_MARKER_ABSENT, None), e)
      else if directory_state \<noteq> RUNTIME_DIRECTORY_TRUSTED then Some ((RUNTIME_MARKER_UNKNOWN, None), e)
      else case so_stat S name e of
        (File_missing, e1) \<Rightarrow> Some ((RUNTIME_MARKER_ABSENT, None), e1)
      | (File_failed, e1) \<Rightarrow> Some ((RUNTIME_MARKER_UNKNOWN, None), e1)
      | (File_ok before, e1) \<Rightarrow>
          if \<not> marker_file_is_trusted before then Some ((RUNTIME_MARKER_INVALID, None), e1)
          else let (opened, e2) = so_open S name e1
               in if \<not> opened then Some ((RUNTIME_MARKER_UNKNOWN, None), e2)
                  else read_marker_file S before e2)"

section \<open>The scan\<close>

text \<open>The names to inspect before the directory is listed, and whether all of them had room.\<close>

fun add_requested :: "string list \<Rightarrow> string list \<Rightarrow> bool \<Rightarrow> string list \<times> bool" where
  "add_requested [] names complete = (names, complete)"
| "add_requested (n # ns) names complete =
     (if n \<in> set names \<or> length names < AWG_RUNTIME_MAX_NAMES
      then add_requested ns (hash_add n names) complete
      else add_requested ns names False)"

definition collect_names ::
    "('e, 'x) scan_os_scheme \<Rightarrow> runtime_scan_request \<Rightarrow> 'e \<Rightarrow> runtime_directory_state \<times> string list \<times> bool \<times> 'e" where
  "collect_names S request e =
     (let (names, complete) =
            add_requested (rq_names request) (fold hash_add (rq_previous_names request) []) True;
          (directory_state, e1) = open_runtime_directory S e
      in if directory_state = RUNTIME_DIRECTORY_TRUSTED then
           let (listed, names', e2) = add_runtime_names S names e1
           in (directory_state, names', complete \<and> listed, e2)
         else (directory_state, names, complete \<and> directory_state \<noteq> RUNTIME_DIRECTORY_UNKNOWN, e1))"

text \<open>What is found out about one name: the marker's state, what to track, and the record.\<close>

definition scan_name ::
    "runtime_marker_state \<times> runtime_marker option \<Rightarrow> link_snapshot option \<Rightarrow> string \<Rightarrow>
     runtime_scan_result \<Rightarrow> runtime_scan_result" where
  "scan_name found links name res =
     (let (marker_state, marker) = found;
          valid = (marker_state = RUNTIME_MARKER_VALID);
          token = (if valid then map_option link_token marker else None);
          identity = \<lparr>li_name = Some name, li_token = token,
                      li_ifindex = (if valid then (case marker of Some m \<Rightarrow> ifindex m | None \<Rightarrow> 0) else 0)\<rparr>;
          observation = (if links \<noteq> None then link_snapshot_observe links (Some name) token else None);
          unknown = (marker_state = RUNTIME_MARKER_UNKNOWN \<or> observation = None);
          state = (if unknown then RUNTIME_UNKNOWN
                   else runtime_state_classify (marker_state \<noteq> RUNTIME_MARKER_ABSENT) valid marker observation)
      in res\<lparr>sr_link_filter := map_option (\<lambda>f. link_event_filter_add f links identity) (sr_link_filter res),
             sr_complete := sr_complete res \<and> \<not> unknown,
             sr_records := sr_records res @
               [\<lparr>rr_name = name, rr_state = state,
                 rr_interface_exists = (case observation of Some obs \<Rightarrow> named_exists obs | None \<Rightarrow> False)\<rparr>]\<rparr>)"

text \<open>The loop over the names; no result if the scan is cancelled.\<close>

fun scan_names ::
    "('e, 'x) scan_os_scheme \<Rightarrow> runtime_directory_state \<Rightarrow> link_snapshot option \<Rightarrow> string list \<Rightarrow>
     runtime_scan_result \<Rightarrow> 'e \<Rightarrow> (runtime_scan_result option \<times> 'e) option" where
  "scan_names S directory_state links [] res e = Some (Some res, e)"
| "scan_names S directory_state links (name # names) res e =
     (let (cancelled, e1) = lo_cancelled S e
      in if cancelled then Some (None, e1)
         else Option.bind (read_runtime_marker S directory_state name e1) (\<lambda>(found, e2).
           scan_names S directory_state links names (scan_name found links name res) e2))"

definition scan_runtime ::
    "('e, 'x) scan_os_scheme \<Rightarrow> runtime_scan_request \<Rightarrow> 'e \<Rightarrow> (runtime_scan_result option \<times> 'e) option" where
  "scan_runtime S request e =
     (let (directory_state, names, complete, e1) = collect_names S request e;
          (cancelled, e2) = lo_cancelled S e1
      in if cancelled then Some (None, e2)
         else Option.bind (link_snapshot_read (link_os.truncate S) e2) (\<lambda>(links, e3).
           Option.bind
             (scan_names S directory_state links (so_hash_order S names)
               \<lparr>sr_records = [], sr_link_filter = Some link_event_filter_new,
                sr_generation = rq_generation request, sr_complete = complete \<and> links \<noteq> None\<rparr> e3)
             (\<lambda>(result, e4).
               Some (map_option (\<lambda>r. if sr_complete r then r else r\<lparr>sr_link_filter := None\<rparr>) result, e4))))"

section \<open>The names of a scan\<close>

lemma hash_add_set [simp]: "set (hash_add n ns) = insert n (set ns)"
  by (auto simp: hash_add_def)

lemma hash_add_distinct [simp]: "distinct ns \<Longrightarrow> distinct (hash_add n ns)"
  by (simp add: hash_add_def)

lemma hash_add_length: "length (hash_add n ns) = (if n \<in> set ns then length ns else Suc (length ns))"
  by (simp add: hash_add_def)

lemma hash_add_all:
  "set (fold hash_add ns acc) = set ns \<union> set acc \<and>
   (distinct acc \<longrightarrow> distinct (fold hash_add ns acc)) \<and>
   length (fold hash_add ns acc) \<le> length ns + length acc"
proof (induction ns arbitrary: acc)
  case (Cons n ns)
  from Cons [of "hash_add n acc"] show ?case by (auto simp: hash_add_length split: if_splits)
qed simp

text \<open>Adding names keeps those already there, keeps them distinct, and stays within the limit.\<close>

definition names_grow :: "string list \<Rightarrow> string list \<Rightarrow> bool" where
  "names_grow names names' \<longleftrightarrow>
     set names \<subseteq> set names' \<and> (distinct names \<longrightarrow> distinct names') \<and>
     (length names \<le> AWG_RUNTIME_MAX_NAMES \<longrightarrow> length names' \<le> AWG_RUNTIME_MAX_NAMES)"

lemma names_grow_refl [simp]: "names_grow ns ns"
  by (simp add: names_grow_def)

lemma names_grow_trans: "names_grow a b \<Longrightarrow> names_grow b c \<Longrightarrow> names_grow a c"
  by (auto simp: names_grow_def)

lemma names_grow_add: "n \<in> set ns \<or> length ns < AWG_RUNTIME_MAX_NAMES \<Longrightarrow> names_grow ns (hash_add n ns)"
  by (auto simp: names_grow_def hash_add_length)

lemma add_requested_grows:
  "names_grow names (fst (add_requested ns names complete)) \<and>
   (snd (add_requested ns names complete) \<longrightarrow> complete \<and> set ns \<subseteq> set (fst (add_requested ns names complete)))"
proof (induction ns names complete rule: add_requested.induct)
  case (2 n ns names complete)
  then show ?case
    using names_grow_trans [OF names_grow_add, of n names "fst (add_requested ns (hash_add n names) complete)"]
    by (auto simp: names_grow_def)
qed simp

lemma add_entries_grows: "names_grow names (fst (snd (add_entries S left names e)))"
proof (induction left arbitrary: names e)
  case 0
  then show ?case by (subst add_entries.simps) (auto split: prod.splits)
next
  case (Suc left)
  obtain cancelled e1 where c: "lo_cancelled S e = (cancelled, e1)" by (cases "lo_cancelled S e")
  obtain entry e2 where r: "so_readdir S e1 = (entry, e2)" by (cases "so_readdir S e1")
  show ?case
    using Suc [of names e2] names_grow_trans [OF names_grow_add Suc]
    by (subst add_entries.simps) (auto simp: c r split: readdir_outcome.splits)
qed

lemma add_runtime_names_grows: "names_grow names (fst (snd (add_runtime_names S names e)))"
  using add_entries_grows [of names S AWG_RUNTIME_MAX_DIRECTORY_ENTRIES]
  by (auto simp: add_runtime_names_def Let_def split: prod.splits) (metis fst_conv snd_conv)

lemma collect_names_grows:
  assumes "collect_names S request e = (directory_state, names, complete, e1)"
  shows "names_grow (fold hash_add (rq_previous_names request) []) names \<and> (complete \<longrightarrow> set (rq_names request) \<subseteq> set names)"
proof -
  obtain ns c where a: "add_requested (rq_names request) (fold hash_add (rq_previous_names request) []) True = (ns, c)"
    by (metis prod.exhaust)
  have g: "names_grow (fold hash_add (rq_previous_names request) []) ns" "c \<longrightarrow> set (rq_names request) \<subseteq> set ns"
    using add_requested_grows [of "fold hash_add (rq_previous_names request) []" "rq_names request" True] a by auto
  obtain d e2 where d: "open_runtime_directory S e = (d, e2)" by (metis prod.exhaust)
  obtain listed ns' e3 where l: "add_runtime_names S ns e2 = (listed, ns', e3)" by (metis prod.exhaust)
  have "names_grow ns ns'" using add_runtime_names_grows [of ns S e2] l by simp
  then have "names_grow ns names \<and> (complete \<longrightarrow> c)"
    using assms by (auto simp: collect_names_def a d l split: if_splits)
  with g show ?thesis by (auto intro: names_grow_trans) (auto simp: names_grow_def)
qed

section \<open>The result of a scan\<close>

lemma scan_name_fields:
  "map rr_name (sr_records (scan_name found links n res)) = map rr_name (sr_records res) @ [n]"
  "sr_generation (scan_name found links n res) = sr_generation res"
  "sr_link_filter (scan_name found links n res) = None \<longleftrightarrow> sr_link_filter res = None"
  "sr_complete (scan_name found links n res) \<Longrightarrow> sr_complete res"
  by (auto simp: scan_name_def Let_def split: prod.splits)

lemma scan_names_result:
  assumes "scan_names S d links names res e = Some (Some r, e')"
  shows "map rr_name (sr_records r) = map rr_name (sr_records res) @ names \<and> sr_generation r = sr_generation res \<and>
    (sr_link_filter r = None \<longleftrightarrow> sr_link_filter res = None) \<and> (sr_complete r \<longrightarrow> sr_complete res)"
  using assms
proof (induction names arbitrary: res e)
  case (Cons n names)
  then obtain found e1 e2 where "scan_names S d links names (scan_name found links n res) e2 = Some (Some r, e')"
    by (auto simp: bind_eq_Some_conv split: prod.splits if_splits)
  from Cons.IH [OF this] show ?case using scan_name_fields [of found links n res] by auto
qed simp

text \<open>
  C37. A scan leaves no session out. Its records have distinct names, among them every session known
  before, however many names the configuration and the directory add, and they stay within the limit;
  if it calls itself complete, every requested name has its record too, and only then it keeps a
  filter for link events. It carries the generation of its request.
\<close>

theorem scan_covers_sessions:
  assumes "scan_runtime S request e = Some (Some r, e')"
    and "\<And>ns. mset (so_hash_order S ns) = mset ns"
  shows "distinct (map rr_name (sr_records r)) \<and> set (rq_previous_names request) \<subseteq> rr_name ` set (sr_records r) \<and>
    (length (rq_previous_names request) \<le> AWG_RUNTIME_MAX_NAMES \<longrightarrow> length (sr_records r) \<le> AWG_RUNTIME_MAX_NAMES) \<and>
    (sr_complete r \<longrightarrow> set (rq_names request) \<subseteq> rr_name ` set (sr_records r)) \<and>
    (sr_complete r \<longleftrightarrow> sr_link_filter r \<noteq> None) \<and> sr_generation r = rq_generation request"
proof -
  obtain d names complete e1 where c: "collect_names S request e = (d, names, complete, e1)"
    by (metis prod.exhaust)
  from assms(1) obtain links e3 r' e4 where
    n: "scan_names S d links (so_hash_order S names)
         \<lparr>sr_records = [], sr_link_filter = Some link_event_filter_new,
          sr_generation = rq_generation request, sr_complete = complete \<and> links \<noteq> None\<rparr> e3 = Some (Some r', e4)"
    and r: "r = (if sr_complete r' then r' else r'\<lparr>sr_link_filter := None\<rparr>)"
    unfolding scan_runtime_def c Let_def prod.case
    by (auto simp: bind_eq_Some_conv split: prod.splits if_splits)
  have names: "map rr_name (sr_records r) = so_hash_order S names"
    using scan_names_result [OF n] r by simp
  then have set_eq: "rr_name ` set (sr_records r) = set names"
    using assms(2) [of names] by (metis set_mset_mset set_map)
  have "distinct (so_hash_order S names) = distinct names"
    using assms(2) [of names] by (metis mset_eq_imp_distinct_iff)
  moreover have "length (sr_records r) = length names"
    using assms(2) [of names] names by (metis length_map mset_eq_length)
  moreover note collect_names_grows [OF c] hash_add_all [of "rq_previous_names request" "[]"] scan_names_result [OF n]
  ultimately show ?thesis using names set_eq r by (auto simp: names_grow_def)
qed

text \<open>A system with an empty clock, no runtime directory and no sockets.\<close>

definition bare_os :: "int scan_os" where
  "bare_os =
     \<lparr>lo_now = (\<lambda>e. (e, e + 1)), lo_cancelled = (\<lambda>e. (False, e)), lo_open = (\<lambda>ch e. (False, e)),
      lo_poll = (\<lambda>ch ev t e. (Poll_timeout, e)), lo_send = (\<lambda>b e. (Send_again, e)),
      lo_recv = (\<lambda>ch e. (Recv_interrupted, e)), so_open_directory = (\<lambda>e. (File_missing, e)),
      so_stat_directory = (\<lambda>e. (None, e)), so_iterate = (\<lambda>e. (False, e)), so_readdir = (\<lambda>e. (Dir_end, e)),
      so_closedir = (\<lambda>e. (True, e)), so_stat = (\<lambda>n e. (File_missing, e)), so_open = (\<lambda>n e. (False, e)),
      so_fstat = (\<lambda>e. (None, e)), so_read = (\<lambda>n e. (Read_failed, e)), so_hash_order = rev\<rparr>"

definition sample_request :: runtime_scan_request where
  "sample_request = \<lparr>rq_names = [''awg1''], rq_previous_names = [''awg0''], rq_generation = 7\<rparr>"

lemma bare_scan:
  "scan_runtime bare_os sample_request 0 =
     Some (Some \<lparr>sr_records = [\<lparr>rr_name = ''awg1'', rr_state = RUNTIME_UNKNOWN, rr_interface_exists = False\<rparr>,
                                \<lparr>rr_name = ''awg0'', rr_state = RUNTIME_UNKNOWN, rr_interface_exists = False\<rparr>],
                sr_link_filter = None, sr_generation = 7, sr_complete = False\<rparr>, 2)"
  by (simp add: scan_runtime_def collect_names_def sample_request_def bare_os_def hash_add_def
      AWG_RUNTIME_MAX_NAMES_def open_runtime_directory_def link_snapshot_read_def link_snapshot_read_until_def
      operation_expired_def read_runtime_marker_def scan_name_def LINK_DUMP_TIMEOUT_MSEC_def
      link_os.truncate_def)

theorem scan_covers_sessions_witness:
  "set (rq_previous_names sample_request) \<subseteq> rr_name ` set (sr_records (the (fst (the (scan_runtime bare_os sample_request 0)))))"
proof -
  have "\<And>ns. mset (so_hash_order bare_os ns) = mset ns" by (simp add: bare_os_def)
  from scan_covers_sessions [OF bare_scan this] show ?thesis unfolding bare_scan by simp
qed

lemma parsed_marker_valid:
  "parsed_marker data = (RUNTIME_MARKER_VALID, marker) \<longleftrightarrow>
     (\<exists>m. marker = Some m \<and> runtime_marker_parse data = Some m)"
  by (auto simp: parsed_marker_def split: option.splits)



definition sample_marker :: runtime_marker where
  "sample_marker = \<lparr>link_token = replicate 32 (CHR ''a''), ifindex = 5, dns_backend = DNS_BACKEND_NONE,
     marker_state = JOURNAL_ACTIVE, dns_state = JOURNAL_DNS_ABSENT, was_active = True, firewall_scope = 0\<rparr>"

definition sample_stat :: file_stat where
  "sample_stat = \<lparr>st_kind = FILE_REGULAR, st_permissions = 420, st_uid = 0, st_gid = 0, st_nlink = 1,
     st_dev = 1, st_ino = 9\<rparr>"

definition marker_os :: "int scan_os" where
  "marker_os = bare_os\<lparr>so_stat := (\<lambda>n e. (File_ok sample_stat, e)), so_open := (\<lambda>n e. (True, e)),
     so_fstat := (\<lambda>e. (Some sample_stat, e)),
     so_read := (\<lambda>n e. if e = 0 then (Read_bytes (the (runtime_marker_serialize (Some sample_marker))), 1)
                         else (Read_bytes [], e))\<rparr>"

lemma marker_read:
  "read_runtime_marker marker_os RUNTIME_DIRECTORY_TRUSTED ''awg0'' 0 = Some ((RUNTIME_MARKER_VALID, Some sample_marker), 1)"
proof -
  define content where "content = the (runtime_marker_serialize (Some sample_marker))"
  have content: "content \<noteq> [] \<and> length content < max_runtime_marker_size \<and> runtime_marker_parse content = Some sample_marker"
    unfolding content_def by code_simp
  have "read_marker_bytes marker_os [] 0 = Some (Some content, 1)"
    using content
    by (subst read_marker_bytes.simps, simp add: marker_os_def bare_os_def content_def [symmetric] max_runtime_marker_size_def)
      (subst read_marker_bytes.simps, simp)
  then have "read_marker_file marker_os sample_stat 0 = Some (parsed_marker content, 1)"
    using content by (simp add: read_marker_file_def) (simp add: marker_os_def sample_stat_def marker_file_is_trusted_def)
  then show ?thesis
    using content
    by (simp add: read_runtime_marker_def parsed_marker_def)
      (simp add: marker_os_def sample_stat_def marker_file_is_trusted_def)
qed


section \<open>Termination\<close>

text \<open>A read is not interrupted for ever: a rank of the state falls at every interruption.\<close>

definition reads_settle :: "('e, 'x) scan_os_scheme \<Rightarrow> ('e \<Rightarrow> nat) \<Rightarrow> bool" where
  "reads_settle S rank \<longleftrightarrow> (\<forall>n e e'. so_read S n e = (Read_interrupted, e') \<longrightarrow> rank e' < rank e)"

lemma link_snapshot_read_returns:
  assumes "clock_advances L tick k"
  shows "\<exists>r. link_snapshot_read L e = Some r"
  using read_until_returns [OF assms] unfolding link_snapshot_read_def by fastforce

lemma read_marker_bytes_returns:
  assumes "reads_settle S rank"
  shows "\<exists>r. read_marker_bytes S used e = Some r"
proof (induction "(used, e)" arbitrary: used e
    rule: wf_induct_rule [OF wf_measures [where fs = "[\<lambda>(used, e). max_runtime_marker_size - length used, \<lambda>(used, e). rank e]"]])
  case 1
  have IH: "\<exists>r. read_marker_bytes S used' e' = Some r"
    if "max_runtime_marker_size - length used' < max_runtime_marker_size - length used \<or>
        length used' = length used \<and> rank e' < rank e" for used' e'
    using 1 that by auto
  show ?case
  proof (cases "length used < max_runtime_marker_size")
    case True
    obtain outcome e1 where r: "so_read S (max_runtime_marker_size - length used) e = (outcome, e1)"
      by (metis prod.exhaust)
    have "outcome = Read_interrupted \<Longrightarrow> rank e1 < rank e" using assms r by (auto simp: reads_settle_def)
    moreover have "bs \<noteq> [] \<Longrightarrow> \<exists>r. read_marker_bytes S (used @ bs) e1 = Some r" for bs
      using True by (intro IH disjI1) (cases bs, auto)
    ultimately show ?thesis
      using True r IH [of used e1] by (subst read_marker_bytes.simps) (auto split: read_outcome.split)
  next
    case False
    then show ?thesis by (subst read_marker_bytes.simps) simp
  qed
qed

lemma read_extra_returns:
  assumes "reads_settle S rank"
  shows "\<exists>r. read_extra S e = Some r"
proof (induction "rank e" arbitrary: e rule: less_induct)
  case less
  obtain outcome e1 where r: "so_read S 1 e = (outcome, e1)" by (metis prod.exhaust)
  have "outcome = Read_interrupted \<Longrightarrow> rank e1 < rank e" using assms r by (auto simp: reads_settle_def)
  with less r show ?case by (subst read_extra.simps) (auto split: read_outcome.split)
qed

lemma read_runtime_marker_returns:
  assumes "reads_settle S rank"
  shows "\<exists>r. read_runtime_marker S d name e = Some r"
proof -
  have file_returns: "\<exists>r. read_marker_file S before e = Some r" for before e
  proof -
    obtain after e1 where f: "so_fstat S e = (after, e1)" by (metis prod.exhaust)
    obtain data e2 where d: "read_marker_bytes S [] e1 = Some (data, e2)"
      using read_marker_bytes_returns [OF assms] by (metis prod.exhaust)
    obtain extra e3 where x: "read_extra S e2 = Some (extra, e3)"
      using read_extra_returns [OF assms] by (metis prod.exhaust)
    show ?thesis by (simp add: read_marker_file_def f d x split: option.split)
  qed
  show ?thesis
    using file_returns by (simp add: read_runtime_marker_def Let_def split: prod.split file_outcome.split)
qed

lemma scan_names_return:
  assumes "reads_settle S rank"
  shows "\<exists>r. scan_names S d links names res e = Some r"
proof (induction names arbitrary: res e)
  case (Cons n names)
  obtain cancelled e1 where c: "lo_cancelled S e = (cancelled, e1)" by (metis prod.exhaust)
  obtain found e2 where "read_runtime_marker S d n e1 = Some (found, e2)"
    using read_runtime_marker_returns [OF assms] by (metis prod.exhaust)
  with Cons c show ?case by simp
qed simp

text \<open>
  C38. Every scan of the runtime directory ends. If the clock advances and no read is interrupted for
  ever, the worker comes back, with a result or cancelled, whatever the directory holds, however
  often it changes while it is listed, and whatever the kernel answers.
\<close>

theorem scan_returns:
  assumes "clock_advances (link_os.truncate S) tick k" and "reads_settle S rank"
  shows "scan_runtime S request e \<noteq> None"
proof -
  obtain d names complete e1 where c: "collect_names S request e = (d, names, complete, e1)"
    by (metis prod.exhaust)
  obtain cancelled e2 where x: "lo_cancelled S e1 = (cancelled, e2)" by (metis prod.exhaust)
  obtain links e3 where l: "link_snapshot_read (link_os.truncate S) e2 = Some (links, e3)"
    using link_snapshot_read_returns [OF assms(1)] by (metis prod.exhaust)
  obtain result e4 where "scan_names S d links (so_hash_order S names)
      \<lparr>sr_records = [], sr_link_filter = Some link_event_filter_new,
       sr_generation = rq_generation request, sr_complete = complete \<and> links \<noteq> None\<rparr> e3 = Some (result, e4)"
    using scan_names_return [OF assms(2)] by (metis prod.exhaust)
  then show ?thesis by (simp add: scan_runtime_def c x l)
qed

theorem scan_returns_witness: "scan_runtime marker_os sample_request 0 \<noteq> None"
  by (rule scan_returns [where tick = "\<lambda>e. e" and k = 1 and rank = "\<lambda>_. 0"])
    (simp_all add: clock_advances_def reads_settle_def marker_os_def bare_os_def link_os.truncate_def)

end
