(* ===== verification/Runtime_Source.thy ===== *)
theory Runtime_Source
  imports Inventory Runtime_Records
begin

text \<open>
  \<open>amneziawg/runtime_source.h\<close> and the state machine of \<open>runtime_source.c\<close>: the cached runtime records
  and when they are fresh, the timers, the scan in flight and its publication, the directory and
  link monitors. Its state extends that of the inventory, and the rest of the world extends it, so
  that the \<open>changed\<close> callback is an arbitrary function of the whole state and may call back into it.
  The scan itself runs in a worker thread; its result arrives as an argument of \<open>scan_complete_cb\<close>
  (the worker is the theory \<open>Runtime_Scan\<close>). A source, a timer and a file descriptor are present or
  absent; the idle source that publishes a result holds that result, and the task in flight holds
  its request. Creating a file monitor and a subscribed socket are functions of the state.
\<close>

section \<open>Data\<close>

definition AWG_RUNTIME_MONITOR_DEBOUNCE_MSEC :: nat where "AWG_RUNTIME_MONITOR_DEBOUNCE_MSEC = 150"
definition AWG_LINK_EVENT_DRAIN_LIMIT :: nat where "AWG_LINK_EVENT_DRAIN_LIMIT = 64"

record file_monitor =
  fm_path :: string
  fm_expected_child :: "string option"

record runtime_source = inventory +
  rs_changed_set :: bool
  rs_monitor :: "file_monitor option"
  rs_names :: "string list"
  rs_records :: "runtime_record list"
  rs_link_filter :: "link_event_filter option"
  rs_debounce_source :: "nat option"
  rs_retry_source :: "nat option"
  rs_publish_source :: "runtime_scan_result option option"
  rs_task :: "runtime_scan_request option"
  rs_retry_attempt :: nat
  rs_link_monitor_source :: bool
  rs_generation :: nat
  rs_records_fresh :: bool
  rs_refresh_pending :: bool
  rs_scan_running :: bool
  rs_scan_queued :: bool
  rs_queued_purpose :: refresh_purpose
  rs_scan_purpose :: refresh_purpose
  rs_retry_purpose :: refresh_purpose
  rs_mutation_active :: bool
  rs_reconciliation_active :: bool
  rs_monitor_enabled :: bool
  rs_started :: bool
  rs_stopping :: bool

record 'x runtime_env =
  re_changed :: "'x runtime_source_scheme \<Rightarrow> 'x runtime_source_scheme"
  re_create_monitor :: "string \<Rightarrow> 'x runtime_source_scheme \<Rightarrow> bool"
  re_monitor_cancelled :: "'x runtime_source_scheme \<Rightarrow> bool"
  re_open_link_monitor :: "'x runtime_source_scheme \<Rightarrow> bool"

section \<open>Queries\<close>

definition runtime_source_is_running :: "'x runtime_source_scheme \<Rightarrow> bool" where
  "runtime_source_is_running w \<longleftrightarrow> rs_started w \<and> \<not> rs_stopping w"

definition runtime_source_is_checking :: "'x runtime_source_scheme \<Rightarrow> bool" where
  "runtime_source_is_checking w \<longleftrightarrow>
     runtime_source_is_running w \<and> rs_monitor_enabled w \<and> (rs_debounce_source w \<noteq> None \<or> rs_scan_running w)"

definition runtime_source_is_loading :: "'x runtime_source_scheme \<Rightarrow> bool" where
  "runtime_source_is_loading w \<longleftrightarrow>
     runtime_source_is_checking w \<and>
     (rs_scan_running w \<and> rs_scan_purpose w = REFRESH_VISIBLE \<or>
      rs_refresh_pending w \<and> rs_queued_purpose w = REFRESH_VISIBLE)"

definition automatic_refresh_purpose :: "'x runtime_source_scheme \<Rightarrow> refresh_purpose" where
  "automatic_refresh_purpose w =
     (if rs_mutation_active w \<or> rs_reconciliation_active w then REFRESH_RECONCILE else REFRESH_VISIBLE)"

definition dup_cached_records :: "'x runtime_source_scheme \<Rightarrow> runtime_record list" where
  "dup_cached_records w =
     map (\<lambda>r. \<lparr>rr_name = rr_name r,
               rr_state = (if rs_records_fresh w then rr_state r else RUNTIME_UNKNOWN),
               rr_interface_exists = (rs_records_fresh w \<and> rr_interface_exists r)\<rparr>)
       (filter (\<lambda>r. \<not> (\<not> rs_records_fresh w \<and> \<not> record_identifies_session r)) (rs_records w))"

text \<open>The state and the existence of the interface, and whether the name was found.\<close>

definition get_cached :: "'x runtime_source_scheme \<Rightarrow> string option \<Rightarrow> bool \<times> runtime_state \<times> bool" where
  "get_cached w name =
     (if \<not> rs_records_fresh w \<or> \<not> name_is_valid name then (False, RUNTIME_UNKNOWN, False)
      else case find_runtime_record (rs_records w) (the name) of
        None \<Rightarrow> (False, RUNTIME_UNKNOWN, False)
      | Some r \<Rightarrow> (True, rr_state r, rr_interface_exists r))"

section \<open>Operations\<close>

definition runtime_set_mutation_active :: "bool \<Rightarrow> 'x runtime_source_scheme \<Rightarrow> 'x runtime_source_scheme" where
  "runtime_set_mutation_active active w = (if rs_stopping w then w else w\<lparr>rs_mutation_active := active\<rparr>)"

definition clear_monitor :: "'x runtime_source_scheme \<Rightarrow> 'x runtime_source_scheme" where
  "clear_monitor w = w\<lparr>rs_monitor := None\<rparr>"

definition clear_link_monitor :: "'x runtime_source_scheme \<Rightarrow> 'x runtime_source_scheme" where
  "clear_link_monitor w = w\<lparr>rs_link_monitor_source := False\<rparr>"

definition runtime_source_stop :: "'x runtime_source_scheme \<Rightarrow> 'x runtime_source_scheme" where
  "runtime_source_stop w =
     (if rs_stopping w then w
      else (clear_link_monitor (clear_monitor
        (w\<lparr>rs_stopping := True, rs_started := False, rs_debounce_source := None,
           rs_retry_source := None, rs_publish_source := None\<rparr>)))
        \<lparr>rs_changed_set := False, rs_monitor_enabled := False, rs_records_fresh := False,
         rs_refresh_pending := False, rs_scan_queued := False\<rparr>)"

definition runtime_source_new :: "'x runtime_source_scheme \<Rightarrow> 'x runtime_source_scheme" where
  "runtime_source_new w =
     w\<lparr>rs_changed_set := True, rs_monitor := None, rs_names := [], rs_records := [],
       rs_link_filter := None, rs_debounce_source := None, rs_retry_source := None,
       rs_publish_source := None, rs_task := None, rs_retry_attempt := 0,
       rs_link_monitor_source := False, rs_generation := 0, rs_records_fresh := False,
       rs_refresh_pending := False, rs_scan_running := False, rs_scan_queued := False,
       rs_queued_purpose := REFRESH_RECONCILE, rs_scan_purpose := REFRESH_RECONCILE,
       rs_retry_purpose := REFRESH_RECONCILE, rs_mutation_active := False,
       rs_reconciliation_active := False, rs_monitor_enabled := False, rs_started := False,
       rs_stopping := False\<rparr>"

definition runtime_notify_changed ::
    "'x runtime_env \<Rightarrow> 'x runtime_source_scheme \<Rightarrow> 'x runtime_source_scheme" where
  "runtime_notify_changed R w =
     (if \<not> runtime_source_is_running w then w else if \<not> rs_changed_set w then w else re_changed R w)"

definition next_generation :: "nat \<Rightarrow> nat" where
  "next_generation g = (if g = G_MAXUINT64 then 1 else g + 1)"

definition queue_scan :: "refresh_purpose \<Rightarrow> 'x runtime_source_scheme \<Rightarrow> 'x runtime_source_scheme" where
  "queue_scan purpose w =
     (let w1 = w\<lparr>rs_reconciliation_active := (purpose = REFRESH_RECONCILE)\<rparr>;
          w2 = (if \<not> rs_refresh_pending w1 then w1\<lparr>rs_generation := next_generation (rs_generation w1)\<rparr> else w1);
          p = (if rs_scan_running w2 then max purpose (rs_scan_purpose w2) else purpose)
      in w2\<lparr>rs_refresh_pending := True, rs_queued_purpose := max (rs_queued_purpose w2) p\<rparr>)"

definition invalidate_records ::
    "refresh_purpose \<Rightarrow> 'x runtime_source_scheme \<Rightarrow> bool \<times> 'x runtime_source_scheme" where
  "invalidate_records purpose w = (rs_records_fresh w, (queue_scan purpose w)\<lparr>rs_records_fresh := False\<rparr>)"

definition schedule_refresh :: "nat \<Rightarrow> 'x runtime_source_scheme \<Rightarrow> 'x runtime_source_scheme" where
  "schedule_refresh delay_msec w =
     (if \<not> runtime_source_is_running w \<or> \<not> rs_monitor_enabled w \<or> rs_debounce_source w \<noteq> None then w
      else w\<lparr>rs_debounce_source := Some delay_msec\<rparr>)"

definition clear_retry :: "'x runtime_source_scheme \<Rightarrow> 'x runtime_source_scheme" where
  "clear_retry w = w\<lparr>rs_retry_source := None, rs_retry_purpose := REFRESH_RECONCILE\<rparr>"

definition runtime_retry_delays :: "nat list" where
  "runtime_retry_delays = [2, 5, 15, 30, 60]"

definition schedule_runtime_retry ::
    "refresh_purpose \<Rightarrow> 'x runtime_source_scheme \<Rightarrow> 'x runtime_source_scheme" where
  "schedule_runtime_retry purpose w =
     (if \<not> runtime_source_is_running w \<or> \<not> rs_monitor_enabled w then w
      else
        let w1 = w\<lparr>rs_retry_purpose := max (rs_retry_purpose w) purpose\<rparr>
        in if rs_retry_source w1 \<noteq> None then w1
           else
             let limit = length runtime_retry_delays - 1;
                 delay = runtime_retry_delays ! min (rs_retry_attempt w1) limit
             in w1\<lparr>rs_retry_attempt :=
                    (if rs_retry_attempt w1 < limit then rs_retry_attempt w1 + 1 else rs_retry_attempt w1),
                  rs_retry_source := Some delay\<rparr>)"

definition runtime_request_refresh ::
    "'x runtime_env \<Rightarrow> refresh_purpose \<Rightarrow> 'x runtime_source_scheme \<Rightarrow> 'x runtime_source_scheme" where
  "runtime_request_refresh R purpose w =
     (if \<not> runtime_source_is_running w \<or> \<not> rs_monitor_enabled w then w
      else
        let was_checking = runtime_source_is_checking w;
            was_loading = runtime_source_is_loading w;
            (was_fresh, w1) = invalidate_records purpose (clear_retry w);
            w2 = schedule_refresh 0 w1
        in if was_fresh \<or> \<not> was_checking \<or> was_loading \<noteq> runtime_source_is_loading w2
           then runtime_notify_changed R w2 else w2)"

definition retry_cb :: "'x runtime_env \<Rightarrow> 'x runtime_source_scheme \<Rightarrow> 'x runtime_source_scheme" where
  "retry_cb R w =
     runtime_request_refresh R (rs_retry_purpose w)
       (w\<lparr>rs_retry_source := None, rs_retry_purpose := REFRESH_RECONCILE\<rparr>)"


section \<open>Monitors\<close>

definition monitored_path_parents :: "(string \<times> string option) list" where
  "monitored_path_parents =
     [(runtime_directory, None), (''/run/nm-sidebar'', Some runtime_directory), (''/run'', Some ''/run/nm-sidebar'')]"

text \<open>The candidates from the runtime directory upwards; whether the monitor changed, and is ready.\<close>

fun ensure_file_monitor_at ::
    "'x runtime_env \<Rightarrow> (string \<times> string option) list \<Rightarrow> 'x runtime_source_scheme \<Rightarrow>
     (bool \<times> bool) \<times> 'x runtime_source_scheme" where
  "ensure_file_monitor_at R [] w = ((False, False), w)"
| "ensure_file_monitor_at R ((path, expected) # candidates) w =
     (if (case rs_monitor w of None \<Rightarrow> False | Some m \<Rightarrow> fm_path m = path) then ((False, True), w)
      else if \<not> re_create_monitor R path w then ensure_file_monitor_at R candidates w
      else ((True, True),
        (clear_monitor w)\<lparr>rs_monitor := Some \<lparr>fm_path = path, fm_expected_child = expected\<rparr>\<rparr>))"

definition ensure_file_monitor ::
    "'x runtime_env \<Rightarrow> 'x runtime_source_scheme \<Rightarrow> (bool \<times> bool) \<times> 'x runtime_source_scheme" where
  "ensure_file_monitor R w =
     ensure_file_monitor_at R monitored_path_parents
       (if rs_monitor w \<noteq> None \<and> re_monitor_cancelled R w then clear_monitor w else w)"

definition ensure_link_monitor ::
    "'x runtime_env \<Rightarrow> 'x runtime_source_scheme \<Rightarrow> (bool \<times> bool) \<times> 'x runtime_source_scheme" where
  "ensure_link_monitor R w =
     (if rs_link_monitor_source w then ((False, True), w)
      else if \<not> re_open_link_monitor R w then ((False, False), w)
      else ((True, True), w\<lparr>rs_link_monitor_source := True\<rparr>))"

definition ensure_monitors ::
    "'x runtime_env \<Rightarrow> 'x runtime_source_scheme \<Rightarrow> (bool \<times> bool) \<times> 'x runtime_source_scheme" where
  "ensure_monitors R w =
     (let ((file_changed, file_ready), w1) = ensure_file_monitor R w;
          ((link_changed, link_ready), w2) = ensure_link_monitor R w1
      in ((link_changed \<or> file_changed, file_ready \<and> link_ready), w2))"

definition runtime_ensure_monitor ::
    "'x runtime_env \<Rightarrow> 'x runtime_source_scheme \<Rightarrow> 'x runtime_source_scheme" where
  "runtime_ensure_monitor R w =
     (if \<not> runtime_source_is_running w \<or> \<not> rs_monitor_enabled w then w
      else
        let was_checking = runtime_source_is_checking w;
            ((changed, ready), w1) = ensure_monitors R w;
            (was_fresh, w2) = (if changed \<or> \<not> ready
              then let (fresh, w') = invalidate_records (automatic_refresh_purpose w1) w1
                   in (fresh, if changed then schedule_refresh 0 w' else w')
              else (False, w1));
            w3 = (if \<not> ready then schedule_runtime_retry (automatic_refresh_purpose w2) w2 else w2)
        in if was_fresh \<or> was_checking \<noteq> runtime_source_is_checking w3
           then runtime_notify_changed R w3 else w3)"

section \<open>Scans\<close>

text \<open>From the point where the conditions hold: the request is taken and the task launched.\<close>

definition launch_scan :: "'x runtime_source_scheme \<Rightarrow> 'x runtime_source_scheme" where
  "launch_scan w =
     w\<lparr>rs_task := Some
         \<lparr>rq_names = rs_names w,
          rq_previous_names = map rr_name (filter record_identifies_session (rs_records w)),
          rq_generation = rs_generation w\<rparr>,
       rs_refresh_pending := False, rs_scan_queued := False, rs_scan_running := True,
       rs_scan_purpose := rs_queued_purpose w, rs_queued_purpose := REFRESH_RECONCILE\<rparr>"

definition scan_may_start :: "'x runtime_source_scheme \<Rightarrow> bool" where
  "scan_may_start w \<longleftrightarrow>
     runtime_source_is_running w \<and> rs_monitor_enabled w \<and> \<not> rs_scan_running w \<and> rs_refresh_pending w"

definition start_scan :: "'x runtime_env \<Rightarrow> 'x runtime_source_scheme \<Rightarrow> 'x runtime_source_scheme" where
  "start_scan R w =
     (if \<not> scan_may_start w then w
      else
        let ((changed, ready), w1) = ensure_monitors R w;
            w2 = (if changed \<or> \<not> ready
                  then let (was_fresh, w') = invalidate_records (rs_queued_purpose w1) w1
                       in if was_fresh then runtime_notify_changed R w' else w'
                  else w1)
        in if \<not> scan_may_start w2 then w2 else launch_scan w2)"

text \<open>The first half of publishing: the monitors, and what a lost observation invalidates.\<close>

definition publish_monitors ::
    "'x runtime_env \<Rightarrow> refresh_purpose \<Rightarrow> runtime_scan_result option \<Rightarrow> 'x runtime_source_scheme \<Rightarrow>
     (bool \<times> bool) \<times> 'x runtime_source_scheme" where
  "publish_monitors R purpose res w =
     (if \<not> runtime_source_is_running w \<or> \<not> rs_monitor_enabled w then ((False, False), w)
      else
        let ((monitors_changed, monitors_ready), w1) = ensure_monitors R w
        in if monitors_changed \<or> \<not> monitors_ready then
             let (invalidated, w2) = invalidate_records purpose w1
             in ((invalidated, monitors_ready), if monitors_changed then w2\<lparr>rs_scan_queued := True\<rparr> else w2)
           else if res = None \<and> \<not> rs_refresh_pending w1 then
             let (invalidated, w2) = invalidate_records purpose w1
             in ((invalidated, monitors_ready), schedule_runtime_retry purpose w2)
           else ((False, monitors_ready), w1))"

definition publish_result ::
    "refresh_purpose \<Rightarrow> bool \<Rightarrow> runtime_scan_result option \<Rightarrow> 'x runtime_source_scheme \<Rightarrow>
     bool \<times> 'x runtime_source_scheme" where
  "publish_result purpose monitors_ready res w =
     (case res of
        None \<Rightarrow> (False, w)
      | Some r \<Rightarrow>
          if runtime_source_is_running w \<and> rs_monitor_enabled w \<and> monitors_ready \<and>
             sr_generation r = rs_generation w \<and> \<not> rs_refresh_pending w
          then
            let w1 = w\<lparr>rs_records := reconcile_scan_records (rs_records w) r,
                       rs_link_filter := sr_link_filter r, rs_records_fresh := True\<rparr>
            in (True, if sr_complete r then (clear_retry w1)\<lparr>rs_retry_attempt := 0\<rparr>
                      else schedule_runtime_retry purpose w1)
          else (False, w))"

definition publish_scan_cb ::
    "'x runtime_env \<Rightarrow> runtime_scan_result option \<Rightarrow> 'x runtime_source_scheme \<Rightarrow> 'x runtime_source_scheme" where
  "publish_scan_cb R res w =
     (let was_checking = runtime_source_is_checking w;
          was_loading = runtime_source_is_loading w;
          purpose = rs_scan_purpose w;
          w1 = w\<lparr>rs_publish_source := None, rs_scan_running := False\<rparr>;
          ((invalidated, monitors_ready), w2) = publish_monitors R purpose res w1;
          (accepted, w3) = publish_result purpose monitors_ready res w2;
          w4 = (if runtime_source_is_running w3 \<and> rs_monitor_enabled w3 \<and> \<not> monitors_ready
                then schedule_runtime_retry purpose w3 else w3);
          restart = (runtime_source_is_running w4 \<and> rs_monitor_enabled w4 \<and> rs_refresh_pending w4 \<and>
                     rs_scan_queued w4);
          w5 = w4\<lparr>rs_scan_queued := False, rs_scan_purpose := REFRESH_RECONCILE\<rparr>;
          w6 = (if restart then start_scan R w5 else w5);
          w7 = (if \<not> runtime_source_is_checking w6 then w6\<lparr>rs_reconciliation_active := False\<rparr> else w6)
      in if accepted \<or> invalidated \<or> was_checking \<noteq> runtime_source_is_checking w7 \<or>
            was_loading \<noteq> runtime_source_is_loading w7
         then runtime_notify_changed R w7 else w7)"

definition scan_complete_cb :: "runtime_scan_result option \<Rightarrow> 'x runtime_source_scheme \<Rightarrow> 'x runtime_source_scheme" where
  "scan_complete_cb res w =
     (let w1 = w\<lparr>rs_task := None\<rparr>
      in if \<not> runtime_source_is_running w1 \<or> \<not> rs_monitor_enabled w1
         then w1\<lparr>rs_scan_running := False, rs_scan_purpose := REFRESH_RECONCILE\<rparr>
         else w1\<lparr>rs_publish_source := Some res\<rparr>)"

definition runtime_poll ::
    "'x runtime_env \<Rightarrow> refresh_purpose \<Rightarrow> 'x runtime_source_scheme \<Rightarrow> 'x runtime_source_scheme" where
  "runtime_poll R purpose w =
     (if \<not> runtime_source_is_running w \<or> \<not> rs_monitor_enabled w then w
      else if rs_scan_running w \<or> rs_refresh_pending w then
        let was_loading = runtime_source_is_loading w;
            w1 = (if purpose = REFRESH_VISIBLE then w\<lparr>rs_reconciliation_active := False\<rparr> else w);
            w2 = (if rs_scan_running w1 then w1\<lparr>rs_scan_purpose := max (rs_scan_purpose w1) purpose\<rparr> else w1);
            w3 = (if rs_refresh_pending w2
                  then w2\<lparr>rs_queued_purpose := max (rs_queued_purpose w2) purpose\<rparr> else w2)
        in if was_loading \<noteq> runtime_source_is_loading w3 then runtime_notify_changed R w3 else w3
      else runtime_notify_changed R (schedule_refresh 0 (queue_scan purpose (clear_retry w))))"

definition runtime_record_delete ::
    "'x runtime_env \<Rightarrow> string option \<Rightarrow> 'x runtime_source_scheme \<Rightarrow> 'x runtime_source_scheme" where
  "runtime_record_delete R name w =
     (if rs_stopping w \<or> \<not> name_is_valid name then w
      else runtime_request_refresh R REFRESH_RECONCILE
        (w\<lparr>rs_records := remove_record (the name) (rs_records w)\<rparr>))"

definition runtime_set_names ::
    "'x runtime_env \<Rightarrow> string list \<Rightarrow> refresh_purpose \<Rightarrow> 'x runtime_source_scheme \<Rightarrow> 'x runtime_source_scheme" where
  "runtime_set_names R names purpose w =
     (if rs_stopping w \<or> rs_names w = normalize_names names then w
      else
        let was_checking = runtime_source_is_checking w;
            was_loading = runtime_source_is_loading w;
            (was_fresh, w1) = invalidate_records purpose (w\<lparr>rs_names := normalize_names names\<rparr>);
            w2 = (if runtime_source_is_running w1 \<and> rs_monitor_enabled w1
                  then schedule_refresh 0 (clear_retry w1) else w1)
        in if was_fresh \<or> was_checking \<noteq> runtime_source_is_checking w2 \<or>
              was_loading \<noteq> runtime_source_is_loading w2
           then runtime_notify_changed R w2 else w2)"

definition scheduled_refresh_cb ::
    "'x runtime_env \<Rightarrow> 'x runtime_source_scheme \<Rightarrow> 'x runtime_source_scheme" where
  "scheduled_refresh_cb R w =
     (let w1 = (if rs_scan_running w then w\<lparr>rs_scan_queued := True\<rparr> else start_scan R w)
      in w1\<lparr>rs_debounce_source := None\<rparr>)"


section \<open>Events\<close>

definition schedule_monitor_refresh ::
    "'x runtime_env \<Rightarrow> 'x runtime_source_scheme \<Rightarrow> 'x runtime_source_scheme" where
  "schedule_monitor_refresh R w =
     (if \<not> runtime_source_is_running w \<or> \<not> rs_monitor_enabled w then w
      else
        let was_checking = runtime_source_is_checking w;
            w1 = clear_retry w;
            (was_fresh, w2) = invalidate_records (automatic_refresh_purpose w1) w1;
            w3 = schedule_refresh AWG_RUNTIME_MONITOR_DEBOUNCE_MSEC w2
        in if was_fresh \<or> \<not> was_checking then runtime_notify_changed R w3 else w3)"

datatype file_event = FILE_UNMOUNTED | FILE_DELETED | FILE_MOVED_OUT | FILE_RENAMED | FILE_OTHER_EVENT

definition monitor_changed_cb ::
    "'x runtime_env \<Rightarrow> string option \<Rightarrow> string option \<Rightarrow> file_event \<Rightarrow>
     'x runtime_source_scheme \<Rightarrow> 'x runtime_source_scheme" where
  "monitor_changed_cb R path other_path event w =
     (if \<not> runtime_source_is_running w \<or> \<not> rs_monitor_enabled w then w
      else
        let monitor_path = map_option fm_path (rs_monitor w);
            expected_child = Option.bind (rs_monitor w) fm_expected_child;
            monitor_removed = (event = FILE_UNMOUNTED \<or>
              (event = FILE_DELETED \<or> event = FILE_MOVED_OUT \<or> event = FILE_RENAMED) \<and>
              (path = monitor_path \<or> other_path = monitor_path));
            fallback_event = (expected_child \<noteq> None \<and> (path = expected_child \<or> other_path = expected_child))
        in if expected_child \<noteq> None \<and> \<not> fallback_event \<and> \<not> monitor_removed then w
           else schedule_monitor_refresh R (if fallback_event \<or> monitor_removed then clear_monitor w else w))"

text \<open>The bounded drain of the link socket: whether it failed, saw a relevant event, and was emptied.\<close>

fun drain_link_events ::
    "bool \<Rightarrow> link_event_filter option \<Rightarrow> (nat \<Rightarrow> recv_outcome) \<Rightarrow> nat \<Rightarrow> nat \<Rightarrow> bool \<Rightarrow> bool \<times> bool \<times> bool" where
  "drain_link_events fresh flt received i 0 changed = (False, changed, False)"
| "drain_link_events fresh flt received i (Suc reads) changed =
     (case received i of
        Recv_message d \<Rightarrow>
          if \<not> datagram_is_trusted d then (True, changed, False)
          else drain_link_events fresh flt received (i + 1) reads
                 (changed \<or> \<not> fresh \<or> link_event_filter_is_relevant flt (Some (ld_data d)))
      | Recv_interrupted \<Rightarrow> drain_link_events fresh flt received (i + 1) reads changed
      | Recv_again \<Rightarrow> (False, changed, True)
      | Recv_failed \<Rightarrow> (True, changed, False))"

definition link_monitor_cb ::
    "'x runtime_env \<Rightarrow> bool \<Rightarrow> (nat \<Rightarrow> recv_outcome) \<Rightarrow> 'x runtime_source_scheme \<Rightarrow> 'x runtime_source_scheme" where
  "link_monitor_cb R condition_failed received w =
     (let (failed, changed, drained) =
            (if condition_failed then (True, False, False)
             else drain_link_events (rs_records_fresh w) (rs_link_filter w) received 0
                    AWG_LINK_EVENT_DRAIN_LIMIT False)
      in if \<not> failed then (if changed \<or> \<not> drained then schedule_monitor_refresh R w else w)
         else schedule_monitor_refresh R (w\<lparr>rs_link_monitor_source := False\<rparr>))"

definition runtime_source_start ::
    "'x runtime_env \<Rightarrow> 'x runtime_source_scheme \<Rightarrow> 'x runtime_source_scheme" where
  "runtime_source_start R w =
     (if rs_started w \<or> rs_stopping w then w
      else
        let w1 = w\<lparr>rs_started := True\<rparr>
        in if rs_monitor_enabled w1
           then runtime_request_refresh R REFRESH_VISIBLE (runtime_ensure_monitor R w1)
           else w1)"

definition disable_monitor :: "'x runtime_source_scheme \<Rightarrow> 'x runtime_source_scheme" where
  "disable_monitor w =
     (clear_link_monitor (clear_monitor (w\<lparr>rs_debounce_source := None, rs_retry_source := None\<rparr>)))
       \<lparr>rs_generation := next_generation (rs_generation w), rs_records_fresh := False,
        rs_refresh_pending := False, rs_scan_queued := False, rs_retry_attempt := 0,
        rs_queued_purpose := REFRESH_RECONCILE, rs_scan_purpose := REFRESH_RECONCILE,
        rs_retry_purpose := REFRESH_RECONCILE, rs_mutation_active := False,
        rs_reconciliation_active := False\<rparr>"

definition runtime_set_monitor_enabled ::
    "'x runtime_env \<Rightarrow> bool \<Rightarrow> 'x runtime_source_scheme \<Rightarrow> 'x runtime_source_scheme" where
  "runtime_set_monitor_enabled R on w =
     (if rs_monitor_enabled w = on then w
      else
        let was_checking = runtime_source_is_checking w;
            w1 = w\<lparr>rs_monitor_enabled := on\<rparr>
        in if \<not> on then
             let w2 = disable_monitor w1
             in if was_checking then runtime_notify_changed R w2 else w2
           else runtime_request_refresh R REFRESH_VISIBLE (runtime_ensure_monitor R w1))"

section \<open>Histories\<close>

datatype runtime_event =
  Rt_Set_Names "string list" refresh_purpose | Rt_Poll refresh_purpose | Rt_Refresh refresh_purpose
| Rt_Mutation bool | Rt_Delete "string option" | Rt_Enable bool | Rt_Ensure | Rt_Start | Rt_Stop
| Rt_File "string option" "string option" file_event | Rt_Link bool "nat \<Rightarrow> recv_outcome"
| Rt_Debounce | Rt_Retry | Rt_Complete "runtime_scan_result option" | Rt_Publish

text \<open>Timers, tasks and idle sources only fire while they exist.\<close>

fun runtime_step ::
    "'x runtime_env \<Rightarrow> runtime_event \<Rightarrow> 'x runtime_source_scheme \<Rightarrow> 'x runtime_source_scheme" where
  "runtime_step R (Rt_Set_Names ns p) w = runtime_set_names R ns p w"
| "runtime_step R (Rt_Poll p) w = runtime_poll R p w"
| "runtime_step R (Rt_Refresh p) w = runtime_request_refresh R p w"
| "runtime_step R (Rt_Mutation a) w = runtime_set_mutation_active a w"
| "runtime_step R (Rt_Delete n) w = runtime_record_delete R n w"
| "runtime_step R (Rt_Enable on) w = runtime_set_monitor_enabled R on w"
| "runtime_step R Rt_Ensure w = runtime_ensure_monitor R w"
| "runtime_step R Rt_Start w = runtime_source_start R w"
| "runtime_step R Rt_Stop w = runtime_source_stop w"
| "runtime_step R (Rt_File path other event) w =
     (if rs_monitor w = None then w else monitor_changed_cb R path other event w)"
| "runtime_step R (Rt_Link failed received) w =
     (if \<not> rs_link_monitor_source w then w else link_monitor_cb R failed received w)"
| "runtime_step R Rt_Debounce w = (if rs_debounce_source w = None then w else scheduled_refresh_cb R w)"
| "runtime_step R Rt_Retry w = (if rs_retry_source w = None then w else retry_cb R w)"
| "runtime_step R (Rt_Complete res) w = (if rs_task w = None then w else scan_complete_cb res w)"
| "runtime_step R Rt_Publish w =
     (case rs_publish_source w of None \<Rightarrow> w | Some res \<Rightarrow> publish_scan_cb R res w)"

fun runtime_run ::
    "'x runtime_env \<Rightarrow> runtime_event list \<Rightarrow> 'x runtime_source_scheme \<Rightarrow> 'x runtime_source_scheme" where
  "runtime_run R [] w = w"
| "runtime_run R (ev # evs) w = runtime_run R evs (runtime_step R ev w)"

end
