(* ===== verification/Runtime_Contract.thy ===== *)
theory Runtime_Contract
  imports Runtime_Source
begin

text \<open>
  What the operations of \<open>amneziawg/runtime_source.c\<close> keep: the invariants of the cache, the timers
  and the scan in flight, for every callback that keeps them too, and so for every history.
\<close>

section \<open>Invariants\<close>

text \<open>
  A scan in flight is a task in the worker or a result that waits for publication, never both; an
  idle or stopped source holds no timer and no fresh records; records are not fresh while a scan is
  in flight that must be repeated.
\<close>

definition rs_ok :: "'x runtime_source_scheme \<Rightarrow> bool" where
  "rs_ok w \<longleftrightarrow>
     \<not> (rs_started w \<and> rs_stopping w) \<and>
     (rs_publish_source w \<noteq> None \<longrightarrow> rs_scan_running w) \<and>
     (rs_task w \<noteq> None \<longrightarrow> rs_scan_running w \<and> rs_publish_source w = None) \<and>
     (rs_scan_running w \<longrightarrow> rs_stopping w \<or> rs_started w \<and> (rs_task w \<noteq> None \<or> rs_publish_source w \<noteq> None)) \<and>
     (rs_debounce_source w \<noteq> None \<longrightarrow> rs_started w \<and> rs_monitor_enabled w) \<and>
     (rs_retry_source w \<noteq> None \<longrightarrow> rs_started w \<and> rs_monitor_enabled w) \<and>
     (rs_records_fresh w \<longrightarrow> rs_started w \<and> rs_monitor_enabled w \<and>
        \<not> (rs_scan_running w \<and> rs_refresh_pending w))"

text \<open>A refresh that is pending while the source runs and is enabled is on its way.\<close>

definition rs_lively :: "'x runtime_source_scheme \<Rightarrow> bool" where
  "rs_lively w \<longleftrightarrow>
     (runtime_source_is_running w \<and> rs_monitor_enabled w \<and> rs_refresh_pending w \<longrightarrow>
      rs_debounce_source w \<noteq> None \<or> rs_retry_source w \<noteq> None \<or> rs_scan_running w \<and> rs_scan_queued w)"

text \<open>The scan in flight was superseded: its result must not be believed.\<close>

definition superseded :: "'x runtime_source_scheme \<Rightarrow> bool" where
  "superseded w \<longleftrightarrow> rs_scan_running w \<and>
     (rs_refresh_pending w \<or> \<not> rs_monitor_enabled w \<or> \<not> runtime_source_is_running w)"

text \<open>
  What the callbacks and the operations keep, started in a state where the invariant holds: it
  holds afterwards, the scan in flight is the same and stays superseded, no records appear and none
  become fresh, and a stopped source stays stopped. A scan starts and ends only in the main loop.
\<close>

definition rs_keeps :: "'x runtime_source_scheme \<Rightarrow> 'x runtime_source_scheme \<Rightarrow> bool" where
  "rs_keeps w w' \<longleftrightarrow> (rs_ok w \<longrightarrow>
     rs_ok w' \<and> (superseded w \<longrightarrow> superseded w') \<and>
     rs_scan_running w' = rs_scan_running w \<and> rs_task w' = rs_task w \<and>
     (rs_publish_source w' = rs_publish_source w \<or> rs_stopping w' \<and> rs_publish_source w' = None) \<and>
     (rs_stopping w \<longrightarrow> rs_stopping w') \<and> (rs_records_fresh w' \<longrightarrow> rs_records_fresh w) \<and>
     set (rs_records w') \<subseteq> set (rs_records w))"

definition rs_evolves :: "'x runtime_source_scheme \<Rightarrow> 'x runtime_source_scheme \<Rightarrow> bool" where
  "rs_evolves w w' \<longleftrightarrow> rs_keeps w w' \<and> (rs_ok w \<and> rs_lively w \<longrightarrow> rs_lively w')"

lemma rs_keeps_refl [simp, intro]: "rs_keeps w w"
  by (simp add: rs_keeps_def)

lemma rs_keeps_trans [trans]: "rs_keeps a b \<Longrightarrow> rs_keeps b c \<Longrightarrow> rs_keeps a c"
  by (auto simp: rs_keeps_def)

lemma rs_evolves_refl [simp, intro]: "rs_evolves w w"
  by (simp add: rs_evolves_def)

lemma rs_evolves_trans [trans]: "rs_evolves a b \<Longrightarrow> rs_evolves b c \<Longrightarrow> rs_evolves a c"
  by (auto simp: rs_evolves_def intro: rs_keeps_trans) (auto simp: rs_keeps_def)

lemma rs_evolves_keeps: "rs_evolves w w' \<Longrightarrow> rs_keeps w w'"
  by (simp add: rs_evolves_def)

lemma rs_keeps_lively: "rs_keeps w w' \<Longrightarrow> rs_lively w' \<Longrightarrow> rs_evolves w w'"
  by (simp add: rs_evolves_def)

text \<open>The steps of the source itself change nothing but its own state.\<close>

definition same_world :: "'x runtime_source_scheme \<Rightarrow> 'x runtime_source_scheme \<Rightarrow> bool" where
  "same_world w w' \<longleftrightarrow> inventory.truncate w' = inventory.truncate w \<and> runtime_source.more w' = runtime_source.more w"

lemma same_world_refl [simp, intro]: "same_world w w"
  by (simp add: same_world_def)

lemma same_world_trans [trans]: "same_world a b \<Longrightarrow> same_world b c \<Longrightarrow> same_world a c"
  by (simp add: same_world_def)

definition rs_step :: "'x runtime_source_scheme \<Rightarrow> 'x runtime_source_scheme \<Rightarrow> bool" where
  "rs_step w w' \<longleftrightarrow> rs_keeps w w' \<and> same_world w w'"

lemma rs_step_refl [simp, intro]: "rs_step w w"
  by (simp add: rs_step_def)

lemma rs_step_trans [trans]: "rs_step a b \<Longrightarrow> rs_step b c \<Longrightarrow> rs_step a c"
  unfolding rs_step_def by (blast intro: rs_keeps_trans same_world_trans)

lemmas world_defs = same_world_def inventory.defs

lemmas runtime_invs = rs_ok_def rs_lively_def superseded_def runtime_source_is_running_def

lemma clear_retry_keeps: "rs_keeps w (clear_retry w)"
  by (auto simp: rs_keeps_def clear_retry_def runtime_invs)

lemma queue_scan_fields:
  "rs_started (queue_scan p w) = rs_started w" "rs_stopping (queue_scan p w) = rs_stopping w"
  "rs_publish_source (queue_scan p w) = rs_publish_source w" "rs_task (queue_scan p w) = rs_task w"
  "rs_scan_running (queue_scan p w) = rs_scan_running w" "rs_scan_queued (queue_scan p w) = rs_scan_queued w"
  "rs_debounce_source (queue_scan p w) = rs_debounce_source w" "rs_retry_source (queue_scan p w) = rs_retry_source w"
  "rs_monitor_enabled (queue_scan p w) = rs_monitor_enabled w" "rs_records_fresh (queue_scan p w) = rs_records_fresh w"
  "rs_records (queue_scan p w) = rs_records w" "rs_refresh_pending (queue_scan p w)"
  by (simp_all add: queue_scan_def Let_def)

lemma invalidate_keeps: "rs_keeps w (snd (invalidate_records p w))"
  by (auto simp: rs_keeps_def invalidate_records_def runtime_invs queue_scan_fields)

lemma invalidate_pending: "rs_refresh_pending (snd (invalidate_records p w))"
  by (simp add: invalidate_records_def queue_scan_fields)

lemma schedule_refresh_fields:
  "rs_started (schedule_refresh d w) = rs_started w" "rs_stopping (schedule_refresh d w) = rs_stopping w"
  "rs_publish_source (schedule_refresh d w) = rs_publish_source w" "rs_task (schedule_refresh d w) = rs_task w"
  "rs_scan_running (schedule_refresh d w) = rs_scan_running w"
  "rs_scan_queued (schedule_refresh d w) = rs_scan_queued w"
  "rs_retry_source (schedule_refresh d w) = rs_retry_source w"
  "rs_monitor_enabled (schedule_refresh d w) = rs_monitor_enabled w"
  "rs_records_fresh (schedule_refresh d w) = rs_records_fresh w"
  "rs_records (schedule_refresh d w) = rs_records w"
  "rs_refresh_pending (schedule_refresh d w) = rs_refresh_pending w"
  by (simp_all add: schedule_refresh_def)

lemma schedule_refresh_source:
  "(rs_debounce_source (schedule_refresh d w) \<noteq> None) =
     (rs_debounce_source w \<noteq> None \<or> runtime_source_is_running w \<and> rs_monitor_enabled w)"
  by (auto simp: schedule_refresh_def)

lemma schedule_refresh_keeps: "rs_keeps w (schedule_refresh d w)"
  unfolding rs_keeps_def runtime_invs schedule_refresh_fields
  using schedule_refresh_source [of d w] by (simp add: runtime_source_is_running_def)

lemma schedule_refresh_lively [wf_intros]: "rs_lively (schedule_refresh d w)"
  unfolding runtime_invs schedule_refresh_fields
  using schedule_refresh_source [of d w] by (simp add: runtime_source_is_running_def)

lemma schedule_retry_fields:
  "rs_started (schedule_runtime_retry p w) = rs_started w" "rs_stopping (schedule_runtime_retry p w) = rs_stopping w"
  "rs_publish_source (schedule_runtime_retry p w) = rs_publish_source w"
  "rs_task (schedule_runtime_retry p w) = rs_task w"
  "rs_scan_running (schedule_runtime_retry p w) = rs_scan_running w"
  "rs_scan_queued (schedule_runtime_retry p w) = rs_scan_queued w"
  "rs_debounce_source (schedule_runtime_retry p w) = rs_debounce_source w"
  "rs_monitor_enabled (schedule_runtime_retry p w) = rs_monitor_enabled w"
  "rs_records_fresh (schedule_runtime_retry p w) = rs_records_fresh w"
  "rs_records (schedule_runtime_retry p w) = rs_records w"
  "rs_refresh_pending (schedule_runtime_retry p w) = rs_refresh_pending w"
  by (simp_all add: schedule_runtime_retry_def Let_def)

lemma schedule_retry_source:
  "(rs_retry_source (schedule_runtime_retry p w) \<noteq> None) =
     (rs_retry_source w \<noteq> None \<or> runtime_source_is_running w \<and> rs_monitor_enabled w)"
  by (simp add: schedule_runtime_retry_def Let_def)

lemma schedule_retry_keeps: "rs_keeps w (schedule_runtime_retry p w)"
  unfolding rs_keeps_def runtime_invs schedule_retry_fields
  using schedule_retry_source [of p w] by (simp add: runtime_source_is_running_def)

lemma schedule_retry_lively [wf_intros]: "rs_lively (schedule_runtime_retry p w)"
  unfolding runtime_invs schedule_retry_fields
  using schedule_retry_source [of p w] by (simp add: runtime_source_is_running_def)



lemma clear_retry_world: "same_world w (clear_retry w)"
  by (simp add: clear_retry_def world_defs)

lemma queue_scan_world: "same_world w (queue_scan p w)"
  by (simp add: queue_scan_def Let_def world_defs)

lemma invalidate_world: "same_world w (snd (invalidate_records p w))"
  using queue_scan_world [of w p] by (simp add: invalidate_records_def world_defs)

lemma schedule_refresh_world: "same_world w (schedule_refresh d w)"
  by (simp add: schedule_refresh_def world_defs)

lemma schedule_retry_world: "same_world w (schedule_runtime_retry p w)"
  by (simp add: schedule_runtime_retry_def Let_def world_defs)

lemmas own_steps [wf_intros] =
  rs_step_def [THEN iffD2, OF conjI, OF clear_retry_keeps clear_retry_world]
  rs_step_def [THEN iffD2, OF conjI, OF invalidate_keeps invalidate_world]
  rs_step_def [THEN iffD2, OF conjI, OF schedule_refresh_keeps schedule_refresh_world]
  rs_step_def [THEN iffD2, OF conjI, OF schedule_retry_keeps schedule_retry_world]

text \<open>What neither the monitors nor the purposes change.\<close>

definition same_scan_state :: "'x runtime_source_scheme \<Rightarrow> 'x runtime_source_scheme \<Rightarrow> bool" where
  "same_scan_state w w' \<longleftrightarrow> same_world w w' \<and>
     rs_started w' = rs_started w \<and> rs_stopping w' = rs_stopping w \<and>
     rs_publish_source w' = rs_publish_source w \<and> rs_task w' = rs_task w \<and>
     rs_scan_running w' = rs_scan_running w \<and> rs_scan_queued w' = rs_scan_queued w \<and>
     rs_debounce_source w' = rs_debounce_source w \<and> rs_retry_source w' = rs_retry_source w \<and>
     rs_monitor_enabled w' = rs_monitor_enabled w \<and> rs_records_fresh w' = rs_records_fresh w \<and>
     rs_records w' = rs_records w \<and> rs_refresh_pending w' = rs_refresh_pending w"

lemma same_scan_trans: "same_scan_state a b \<Longrightarrow> same_scan_state b c \<Longrightarrow> same_scan_state a c"
  by (auto simp: same_scan_state_def intro: same_world_trans)

lemma clear_monitor_same: "same_scan_state w (clear_monitor w)"
  by (simp add: same_scan_state_def clear_monitor_def world_defs)

lemma file_monitor_at_same: "same_scan_state w (snd (ensure_file_monitor_at R cs w))"
proof (induction cs arbitrary: w)
  case (Cons c cs)
  obtain path expected where c: "c = (path, expected)" by (cases c)
  show ?case
    using Cons.IH [of w] by (simp add: c same_scan_state_def clear_monitor_def world_defs)
qed (simp add: same_scan_state_def)

lemma ensure_monitors_same: "same_scan_state w (snd (ensure_monitors R w))"
proof -
  have 2: "same_scan_state w (snd (ensure_file_monitor R w))" for w
    by (simp add: ensure_file_monitor_def file_monitor_at_same
        same_scan_trans [OF clear_monitor_same file_monitor_at_same])
  have 3: "same_scan_state w (snd (ensure_link_monitor R w))" for w
    by (simp add: same_scan_state_def ensure_link_monitor_def world_defs)
  show ?thesis
    using same_scan_trans [OF 2 3] by (simp add: ensure_monitors_def split_beta)
qed

lemma same_scan_step: "same_scan_state w w' \<Longrightarrow> rs_step w w' \<and> (rs_lively w \<longrightarrow> rs_lively w')"
  unfolding same_scan_state_def rs_step_def rs_keeps_def runtime_invs by simp

lemmas ensure_monitors_step [wf_intros] = same_scan_step [OF ensure_monitors_same, THEN conjunct1]

lemma queue_scan_keeps: "\<not> rs_scan_running w \<Longrightarrow> rs_keeps w (queue_scan p w)"
  by (simp add: rs_keeps_def runtime_invs queue_scan_fields)

lemma set_remove_record: "set (remove_record n rs) \<subseteq> set rs"
  by (induction rs) auto

lemma remove_record_step: "rs_step w (w\<lparr>rs_records := remove_record n (rs_records w)\<rparr>) \<and>
    (rs_lively w \<longrightarrow> rs_lively (w\<lparr>rs_records := remove_record n (rs_records w)\<rparr>))"
  using set_remove_record [of n "rs_records w"]
  by (simp add: rs_step_def rs_keeps_def runtime_invs world_defs)

lemma set_names_step: "rs_step w (w\<lparr>rs_names := ns\<rparr>)"
  by (simp add: rs_step_def rs_keeps_def runtime_invs world_defs)

lemma stop_step: "rs_step w (runtime_source_stop w)"
  by (simp add: rs_step_def rs_keeps_def runtime_invs world_defs runtime_source_stop_def
      clear_monitor_def clear_link_monitor_def) fastforce

lemma stop_lively: "rs_lively (runtime_source_stop w) \<or> runtime_source_stop w = w"
  by (simp add: runtime_invs runtime_source_stop_def clear_monitor_def clear_link_monitor_def)

lemma disable_step: "rs_monitor_enabled w \<Longrightarrow> rs_step w (disable_monitor (w\<lparr>rs_monitor_enabled := False\<rparr>))"
  by (simp add: rs_step_def rs_keeps_def runtime_invs world_defs disable_monitor_def
      clear_monitor_def clear_link_monitor_def)

lemma disable_lively: "rs_lively (disable_monitor (w\<lparr>rs_monitor_enabled := False\<rparr>))"
  by (simp add: runtime_invs disable_monitor_def clear_monitor_def clear_link_monitor_def)

section \<open>The contract of the callback and what it gives\<close>

definition rs_rel ::
    "('x runtime_source_scheme \<Rightarrow> 'x runtime_source_scheme \<Rightarrow> bool) \<Rightarrow>
     'x runtime_source_scheme \<Rightarrow> 'x runtime_source_scheme \<Rightarrow> bool" where
  "rs_rel Q w w' \<longleftrightarrow> rs_evolves w w' \<and> Q w w'"

text \<open>
  The callback keeps what the operations keep, and a second relation of the client's choice, which
  holds of every step that changes only the source's own state.
\<close>

locale runtime_contract =
  fixes R :: "'x runtime_env" and Q :: "'x runtime_source_scheme \<Rightarrow> 'x runtime_source_scheme \<Rightarrow> bool"
  assumes Q_trans: "Q a b \<Longrightarrow> Q b c \<Longrightarrow> Q a c"
    and Q_own: "same_world a b \<Longrightarrow> Q a b"
    and changed_evolves: "rs_evolves w (re_changed R w)"
    and changed_Q: "Q w (re_changed R w)"
begin

lemma rel_trans: "rs_rel Q a b \<Longrightarrow> rs_rel Q b c \<Longrightarrow> rs_rel Q a c"
  unfolding rs_rel_def by (blast intro: rs_evolves_trans Q_trans)

lemma rel_refl: "rs_rel Q w w"
  by (simp add: rs_rel_def Q_own)

lemma step_rel: "rs_step w w' \<Longrightarrow> rs_lively w' \<Longrightarrow> rs_rel Q w w'"
  by (simp add: rs_step_def rs_rel_def rs_keeps_lively Q_own)

lemma same_scan_rel: "same_scan_state w w' \<Longrightarrow> rs_rel Q w w'"
  using same_scan_step [of w w'] by (auto simp: rs_step_def rs_rel_def rs_evolves_def Q_own)

lemma notify_rel: "rs_rel Q w (runtime_notify_changed R w)"
  by (simp add: runtime_notify_changed_def rel_refl) (simp add: rs_rel_def changed_evolves changed_Q)

lemma notify_if: "rs_rel Q w w' \<Longrightarrow> rs_rel Q w (if c then runtime_notify_changed R w' else w')"
  using rel_trans [OF _ notify_rel] by simp

lemma request_refresh_rel: "rs_rel Q w (runtime_request_refresh R p w)"
proof (cases "runtime_source_is_running w \<and> rs_monitor_enabled w")
  case False
  then show ?thesis by (auto simp: runtime_request_refresh_def rel_refl)
next
  case True
  have "rs_step w (schedule_refresh 0 (snd (invalidate_records p (clear_retry w))))"
    by (rule rs_step_trans [OF own_steps(1) rs_step_trans [OF own_steps(2) own_steps(3)]])
  then show ?thesis
    using True unfolding runtime_request_refresh_def Let_def split_beta
    by (simp only: simp_thms if_False, intro notify_if step_rel schedule_refresh_lively)
qed

lemma schedule_monitor_rel: "rs_rel Q w (schedule_monitor_refresh R w)"
proof (cases "runtime_source_is_running w \<and> rs_monitor_enabled w")
  case False
  then show ?thesis by (auto simp: schedule_monitor_refresh_def rel_refl)
next
  case True
  have "rs_step w (schedule_refresh d (snd (invalidate_records p (clear_retry w))))" for d p
    by (rule rs_step_trans [OF own_steps(1) rs_step_trans [OF own_steps(2) own_steps(3)]])
  then show ?thesis
    using True unfolding schedule_monitor_refresh_def Let_def split_beta
    by (simp only: simp_thms if_False, intro notify_if step_rel schedule_refresh_lively)
qed

lemma poll_rel: "rs_rel Q w (runtime_poll R p w)"
proof (cases "runtime_source_is_running w \<and> rs_monitor_enabled w")
  case False
  then show ?thesis by (auto simp: runtime_poll_def rel_refl)
next
  case on: True
  show ?thesis
  proof (cases "rs_scan_running w \<or> rs_refresh_pending w")
    case False
    then have "rs_step (clear_retry w) (queue_scan p (clear_retry w))"
      by (simp add: rs_step_def queue_scan_keeps queue_scan_world clear_retry_def)
    then have "rs_step w (schedule_refresh 0 (queue_scan p (clear_retry w)))"
      by (rule rs_step_trans [OF own_steps(1) rs_step_trans [OF _ own_steps(3)]])
    then have "rs_rel Q w (runtime_notify_changed R (schedule_refresh 0 (queue_scan p (clear_retry w))))"
      by (intro rel_trans [OF _ notify_rel] step_rel schedule_refresh_lively)
    with on False show ?thesis
      unfolding runtime_poll_def Let_def by (simp only: simp_thms if_False)
  next
    case True
    define w1 where "w1 = (if p = REFRESH_VISIBLE then w\<lparr>rs_reconciliation_active := False\<rparr> else w)"
    define w2 where "w2 = (if rs_scan_running w1 then w1\<lparr>rs_scan_purpose := max (rs_scan_purpose w1) p\<rparr> else w1)"
    define w3 where "w3 = (if rs_refresh_pending w2
        then w2\<lparr>rs_queued_purpose := max (rs_queued_purpose w2) p\<rparr> else w2)"
    have "same_scan_state w w1" "same_scan_state w1 w2" "same_scan_state w2 w3"
      by (simp_all add: w1_def w2_def w3_def same_scan_state_def world_defs)
    then have "rs_rel Q w w3" by (intro same_scan_rel [OF same_scan_trans [OF same_scan_trans]])
    with on True show ?thesis
      unfolding runtime_poll_def Let_def w1_def [symmetric] w2_def [symmetric] w3_def [symmetric]
      by (simp only: simp_thms if_False if_True) (rule notify_if)
  qed
qed

lemma set_mutation_rel: "rs_rel Q w (runtime_set_mutation_active a w)"
  by (rule same_scan_rel) (simp add: runtime_set_mutation_active_def same_scan_state_def world_defs)

lemma quiet_rel: "rs_step w w' \<and> (rs_lively w \<longrightarrow> rs_lively w') \<Longrightarrow> rs_rel Q w w'"
  by (auto simp: rs_step_def rs_rel_def rs_evolves_def Q_own)

lemma stop_rel: "rs_rel Q w (runtime_source_stop w)"
  by (rule quiet_rel) (use stop_lively [of w] in \<open>auto simp: stop_step\<close>)

lemma record_delete_rel: "rs_rel Q w (runtime_record_delete R n w)"
  unfolding runtime_record_delete_def
  using rel_trans [OF quiet_rel [OF remove_record_step] request_refresh_rel] rel_refl by simp

lemma set_names_rel: "rs_rel Q w (runtime_set_names R ns p w)"
proof (cases "rs_stopping w \<or> rs_names w = normalize_names ns")
  case True
  then show ?thesis by (auto simp: runtime_set_names_def rel_refl)
next
  case False
  define w1 where "w1 = snd (invalidate_records p (w\<lparr>rs_names := normalize_names ns\<rparr>))"
  define w2 where "w2 = (if runtime_source_is_running w1 \<and> rs_monitor_enabled w1
      then schedule_refresh 0 (clear_retry w1) else w1)"
  have 1: "rs_step w w1" unfolding w1_def by (rule rs_step_trans [OF set_names_step own_steps(2)])
  moreover have "rs_step w1 (schedule_refresh 0 (clear_retry w1))"
    by (rule rs_step_trans [OF own_steps(1) own_steps(3)])
  ultimately have "rs_step w w2" unfolding w2_def using rs_step_trans by auto
  moreover have "rs_lively w2" by (auto simp: w2_def schedule_refresh_lively) (auto simp: rs_lively_def)
  ultimately show ?thesis
    using False unfolding runtime_set_names_def Let_def split_beta w1_def [symmetric] w2_def [symmetric]
    by (simp only: simp_thms if_False) (intro notify_if step_rel)
qed

lemma ensure_monitor_rel: "rs_rel Q w (runtime_ensure_monitor R w)"
proof (cases "runtime_source_is_running w \<and> rs_monitor_enabled w")
  case False
  then show ?thesis by (auto simp: runtime_ensure_monitor_def rel_refl)
next
  case on: True
  obtain changed ready w1 where m: "ensure_monitors R w = ((changed, ready), w1)"
    by (metis prod.exhaust)
  have same: "same_scan_state w w1" using ensure_monitors_same [of w R] by (simp add: m)
  define p where "p = automatic_refresh_purpose w1"
  define w2 where "w2 = (if changed \<or> \<not> ready
      then if changed then schedule_refresh 0 (snd (invalidate_records p w1)) else snd (invalidate_records p w1)
      else w1)"
  define w3 where "w3 = (if \<not> ready then schedule_runtime_retry (automatic_refresh_purpose w2) w2 else w2)"
  have 1: "rs_step w w1" using ensure_monitors_step [of w R] by (simp add: m)
  have 2: "rs_step w1 w2" unfolding w2_def by (simp add: own_steps rs_step_trans [OF own_steps(2) own_steps(3)])
  have 3: "rs_step w2 w3" unfolding w3_def by (simp add: own_steps)
  have "rs_lively w3 \<or> w3 = w1"
    by (auto simp: w3_def w2_def schedule_retry_lively schedule_refresh_lively)
  with same_scan_step [OF same] have "rs_lively w \<longrightarrow> rs_lively w3" by auto
  with rs_step_trans [OF rs_step_trans [OF 1 2] 3] have "rs_rel Q w w3" by (intro quiet_rel conjI)
  moreover have "runtime_ensure_monitor R w =
     (if (if changed \<or> \<not> ready then rs_records_fresh w1 else False) \<or>
         runtime_source_is_checking w \<noteq> runtime_source_is_checking w3
      then runtime_notify_changed R w3 else w3)"
    using on by (simp add: runtime_ensure_monitor_def m p_def w2_def w3_def Let_def invalidate_records_def)
  ultimately show ?thesis by (simp add: notify_if del: if_split_asm split del: if_split)
qed

end

text \<open>Enabling the monitors ends one reason for a scan to be superseded and starts another.\<close>

definition rs_core :: "'x runtime_source_scheme \<Rightarrow> 'x runtime_source_scheme \<Rightarrow> bool" where
  "rs_core w w' \<longleftrightarrow> (rs_ok w \<longrightarrow>
     rs_ok w' \<and> rs_scan_running w' = rs_scan_running w \<and> rs_task w' = rs_task w \<and>
     (rs_publish_source w' = rs_publish_source w \<or> rs_stopping w' \<and> rs_publish_source w' = None) \<and>
     (rs_stopping w \<longrightarrow> rs_stopping w') \<and> (rs_records_fresh w' \<longrightarrow> rs_records_fresh w) \<and>
     set (rs_records w') \<subseteq> set (rs_records w))"

lemma rs_core_trans: "rs_core a b \<Longrightarrow> rs_core b c \<Longrightarrow> rs_core a c"
  by (auto simp: rs_core_def)

lemma rs_keeps_core: "rs_keeps w w' \<Longrightarrow> rs_core w w'"
  by (auto simp: rs_keeps_def rs_core_def)

lemma rs_core_keeps: "rs_core w w' \<Longrightarrow> (rs_ok w \<Longrightarrow> superseded w \<Longrightarrow> superseded w') \<Longrightarrow> rs_keeps w w'"
  by (auto simp: rs_keeps_def rs_core_def)

lemma started_core: "\<not> rs_started w \<Longrightarrow> \<not> rs_stopping w \<Longrightarrow> rs_core w (w\<lparr>rs_started := True\<rparr>)"
  by (auto simp: rs_core_def rs_ok_def)

lemma enabled_core: "rs_core w (w\<lparr>rs_monitor_enabled := True\<rparr>)"
  by (auto simp: rs_core_def rs_ok_def)

context runtime_contract
begin

lemma request_refresh_settles:
  assumes "rs_ok w"
  shows "rs_lively (runtime_request_refresh R p w) \<and>
    (rs_scan_running w \<longrightarrow> superseded (runtime_request_refresh R p w))"
proof (cases "runtime_source_is_running w \<and> rs_monitor_enabled w")
  case False
  then show ?thesis by (auto simp: runtime_request_refresh_def rs_lively_def superseded_def)
next
  case True
  define w2 where "w2 = schedule_refresh 0 (snd (invalidate_records p (clear_retry w)))"
  have step: "rs_step w w2" unfolding w2_def
    by (rule rs_step_trans [OF own_steps(1) rs_step_trans [OF own_steps(2) own_steps(3)]])
  then have ok: "rs_ok w2" "rs_scan_running w2 = rs_scan_running w"
    using assms by (simp_all add: rs_step_def rs_keeps_def)
  have pend: "rs_refresh_pending w2"
    by (simp add: w2_def schedule_refresh_fields invalidate_pending)
  have "rs_rel Q w2 (if c then runtime_notify_changed R w2 else w2)" for c
    by (rule notify_if) (rule rel_refl)
  then have "rs_rel Q w2 (runtime_request_refresh R p w)"
    using True unfolding runtime_request_refresh_def Let_def split_beta w2_def [symmetric]
    by (simp only: simp_thms if_False)
  moreover have "rs_lively w2" by (simp add: w2_def schedule_refresh_lively)
  moreover have "rs_scan_running w \<longrightarrow> superseded w2" using pend ok by (simp add: superseded_def)
  ultimately show ?thesis using ok by (auto simp: rs_rel_def rs_evolves_def rs_keeps_def)
qed

lemma rel_core: "rs_rel Q w w' \<Longrightarrow> rs_core w w'"
  by (simp add: rs_rel_def rs_evolves_def rs_keeps_core)

lemma rel_Q: "rs_rel Q w w' \<Longrightarrow> Q w w'"
  by (simp add: rs_rel_def)

lemma refresh_after_core:
  assumes "rs_core w w1" and "same_world w w1"
  shows "rs_rel Q w (runtime_request_refresh R p (runtime_ensure_monitor R w1))"
proof -
  define w2 where "w2 = runtime_ensure_monitor R w1"
  have 1: "rs_rel Q w1 w2" unfolding w2_def by (rule ensure_monitor_rel)
  have 2: "rs_rel Q w2 (runtime_request_refresh R p w2)" by (rule request_refresh_rel)
  have core: "rs_core w w2" using rs_core_trans [OF assms(1) rel_core [OF 1]] .
  have all: "rs_core w (runtime_request_refresh R p w2)" using rs_core_trans [OF core rel_core [OF 2]] .
  have Q: "Q w (runtime_request_refresh R p w2)"
    using Q_own [OF assms(2)] rel_Q [OF 1] rel_Q [OF 2] Q_trans by blast
  have "rs_ok w \<Longrightarrow> rs_ok w2 \<and> rs_scan_running w2 = rs_scan_running w" using core by (simp add: rs_core_def)
  with request_refresh_settles [of w2 p] have final: "rs_ok w \<Longrightarrow>
      rs_lively (runtime_request_refresh R p w2) \<and> (rs_scan_running w \<longrightarrow> superseded (runtime_request_refresh R p w2))"
    by simp
  then have "rs_keeps w (runtime_request_refresh R p w2)"
    by (intro rs_core_keeps [OF all]) (simp add: superseded_def)
  with final Q show ?thesis unfolding w2_def [symmetric] by (simp add: rs_rel_def rs_evolves_def)
qed

lemma start_rel: "rs_rel Q w (runtime_source_start R w)"
proof (cases "rs_started w \<or> rs_stopping w")
  case True
  then show ?thesis by (auto simp: runtime_source_start_def rel_refl)
next
  case False
  have world: "same_world w (w\<lparr>rs_started := True\<rparr>)" by (simp add: world_defs)
  have core: "rs_core w (w\<lparr>rs_started := True\<rparr>)" using False by (intro started_core) auto
  show ?thesis
  proof (cases "rs_monitor_enabled w")
    case True
    with False refresh_after_core [OF core world] show ?thesis by (simp add: runtime_source_start_def)
  next
    case off: False
    have "rs_keeps w (w\<lparr>rs_started := True\<rparr>)"
      using False by (intro rs_core_keeps [OF core]) (auto simp: rs_ok_def superseded_def)
    with off False show ?thesis
      by (simp add: runtime_source_start_def rs_rel_def rs_keeps_lively rs_lively_def Q_own [OF world])
  qed
qed

lemma set_monitor_enabled_rel: "rs_rel Q w (runtime_set_monitor_enabled R on w)"
proof (cases "rs_monitor_enabled w = on")
  case True
  then show ?thesis by (simp add: runtime_set_monitor_enabled_def rel_refl)
next
  case diff: False
  show ?thesis
  proof (cases on)
    case True
    have "same_world w (w\<lparr>rs_monitor_enabled := True\<rparr>)" by (simp add: world_defs)
    from refresh_after_core [OF enabled_core this] diff True show ?thesis
      by (simp add: runtime_set_monitor_enabled_def Let_def)
  next
    case False
    with diff have "rs_rel Q w (disable_monitor (w\<lparr>rs_monitor_enabled := False\<rparr>))"
      by (intro step_rel disable_step disable_lively) simp
    moreover have "runtime_set_monitor_enabled R on w =
        (if runtime_source_is_checking w
         then runtime_notify_changed R (disable_monitor (w\<lparr>rs_monitor_enabled := False\<rparr>))
         else disable_monitor (w\<lparr>rs_monitor_enabled := False\<rparr>))"
      using diff False unfolding runtime_set_monitor_enabled_def Let_def by simp
    ultimately show ?thesis by (simp only: notify_if)
  qed
qed

lemma monitor_changed_rel: "rs_rel Q w (monitor_changed_cb R path other event w)"
proof -
  have "rs_rel Q w (schedule_monitor_refresh R (if c then clear_monitor w else w))" for c
    using rel_trans [OF same_scan_rel [OF clear_monitor_same] schedule_monitor_rel] schedule_monitor_rel by simp
  then show ?thesis unfolding monitor_changed_cb_def Let_def by (simp add: rel_refl)
qed

lemma link_monitor_rel: "rs_rel Q w (link_monitor_cb R failed received w)"
proof -
  have "same_scan_state w (w\<lparr>rs_link_monitor_source := False\<rparr>)" by (simp add: same_scan_state_def world_defs)
  from rel_trans [OF same_scan_rel [OF this] schedule_monitor_rel] show ?thesis
    unfolding link_monitor_cb_def Let_def split_beta by (simp add: rel_refl schedule_monitor_rel)
qed

lemma retry_rel: "rs_rel Q w (retry_cb R w)"
proof -
  let ?w = "w\<lparr>rs_retry_source := None, rs_retry_purpose := REFRESH_RECONCILE\<rparr>"
  have "rs_step w ?w" using own_steps(1) [of w] by (simp add: clear_retry_def)
  then have keeps: "rs_keeps w ?w" and Q: "Q w ?w" by (simp_all add: rs_step_def Q_own)
  have "rs_rel Q ?w (retry_cb R w)" unfolding retry_cb_def by (rule request_refresh_rel)
  moreover have "rs_ok w \<Longrightarrow> rs_lively (retry_cb R w)"
    using keeps request_refresh_settles [of ?w "rs_retry_purpose w"] by (simp add: retry_cb_def rs_keeps_def)
  ultimately show ?thesis
    using keeps Q unfolding rs_rel_def rs_evolves_def by (blast intro: rs_keeps_trans Q_trans)
qed

end

section \<open>The events of the main loop\<close>

text \<open>What the beginning and the end of a scan keep.\<close>

definition rs_event ::
    "('x runtime_source_scheme \<Rightarrow> 'x runtime_source_scheme \<Rightarrow> bool) \<Rightarrow>
     'x runtime_source_scheme \<Rightarrow> 'x runtime_source_scheme \<Rightarrow> bool" where
  "rs_event Q w w' \<longleftrightarrow> Q w w' \<and> (rs_ok w \<longrightarrow>
     rs_ok w' \<and> (rs_stopping w \<longrightarrow> rs_stopping w') \<and>
     (rs_records_fresh w' \<longrightarrow> rs_records_fresh w) \<and> set (rs_records w') \<subseteq> set (rs_records w))"

lemma superseded_not_fresh: "rs_ok w \<Longrightarrow> superseded w \<Longrightarrow> \<not> rs_records_fresh w"
  by (auto simp: runtime_invs)

lemma launch_ok: "rs_ok w \<Longrightarrow> scan_may_start w \<Longrightarrow> rs_ok (launch_scan w)"
  by (auto simp: launch_scan_def scan_may_start_def runtime_invs)

lemma launch_world: "same_world w (launch_scan w)"
  by (simp add: launch_scan_def world_defs)

lemma launch_fields: "rs_refresh_pending (launch_scan w) = False" "rs_records (launch_scan w) = rs_records w"
  "rs_records_fresh (launch_scan w) = rs_records_fresh w" "rs_stopping (launch_scan w) = rs_stopping w"
  by (simp_all add: launch_scan_def)

definition waiting :: "'x runtime_source_scheme \<Rightarrow> bool" where
  "waiting w \<longleftrightarrow> runtime_source_is_running w \<and> rs_monitor_enabled w \<and> rs_refresh_pending w"

context runtime_contract
begin

lemma event_trans: "rs_event Q a b \<Longrightarrow> rs_event Q b c \<Longrightarrow> rs_event Q a c"
  unfolding rs_event_def using Q_trans by blast

lemma rel_event: "rs_rel Q w w' \<Longrightarrow> rs_event Q w w'"
  by (auto simp: rs_rel_def rs_evolves_def rs_keeps_def rs_event_def)

lemma step_event: "rs_step w w' \<Longrightarrow> rs_event Q w w'"
  by (auto simp: rs_step_def rs_keeps_def rs_event_def Q_own)

lemma launch_event: "scan_may_start w \<Longrightarrow> rs_event Q w (launch_scan w)"
  by (simp add: rs_event_def launch_ok launch_fields Q_own [OF launch_world])

lemma start_scan_event:
  "rs_event Q w (start_scan R w) \<and> (rs_ok w \<and> \<not> rs_scan_running w \<longrightarrow>
     \<not> waiting (start_scan R w) \<and> rs_publish_source (start_scan R w) = None)"
proof (cases "scan_may_start w")
  case False
  then show ?thesis
    by (auto simp: start_scan_def scan_may_start_def waiting_def rs_ok_def intro: rel_event rel_refl)
next
  case True
  obtain changed ready w1 where m: "ensure_monitors R w = ((changed, ready), w1)"
    by (metis prod.exhaust)
  define i where "i = snd (invalidate_records (rs_queued_purpose w1) w1)"
  define w2 where "w2 = (if changed \<or> \<not> ready
      then if rs_records_fresh w1 then runtime_notify_changed R i else i else w1)"
  have 1: "rs_step w w1" using ensure_monitors_step [of w R] by (simp add: m)
  have i: "rs_step w1 i" unfolding i_def by (rule own_steps)
  have keep: "rs_event Q w w2 \<and> (rs_ok w \<longrightarrow> rs_scan_running w2 = rs_scan_running w)"
  proof -
    have n: "rs_rel Q i (runtime_notify_changed R i)" by (rule notify_rel)
    have "rs_step w i" by (rule rs_step_trans [OF 1 i])
    with 1 event_trans [OF step_event rel_event [OF n]] n show ?thesis
      by (auto simp: w2_def step_event) (auto simp: rs_step_def rs_rel_def rs_evolves_def rs_keeps_def)
  qed
  have eq: "start_scan R w = (if \<not> scan_may_start w2 then w2 else launch_scan w2)"
    using True by (simp add: start_scan_def m w2_def i_def Let_def invalidate_records_def)
  have idle: "rs_ok w \<and> \<not> rs_scan_running w \<longrightarrow> rs_publish_source w2 = None"
    using keep by (auto simp: rs_event_def rs_ok_def)
  show ?thesis
  proof (cases "scan_may_start w2")
    case True
    with keep eq idle event_trans [OF _ launch_event] show ?thesis
      by (simp add: waiting_def launch_fields) (simp add: launch_scan_def)
  next
    case False
    with keep eq idle show ?thesis by (auto simp: waiting_def scan_may_start_def)
  qed
qed

lemma scheduled_refresh_event:
  assumes "rs_debounce_source w \<noteq> None"
  shows "rs_event Q w (scheduled_refresh_cb R w) \<and>
    (rs_ok w \<longrightarrow> rs_lively (scheduled_refresh_cb R w) \<and> (superseded w \<longrightarrow> superseded (scheduled_refresh_cb R w)) \<and>
      (rs_publish_source w = None \<longrightarrow> rs_publish_source (scheduled_refresh_cb R w) = None))"
proof (cases "rs_scan_running w")
  case True
  have "rs_step w (w\<lparr>rs_scan_queued := True, rs_debounce_source := None\<rparr>)"
    by (simp add: rs_step_def rs_keeps_def runtime_invs world_defs)
  from step_event [OF this] True show ?thesis
    by (simp add: scheduled_refresh_cb_def runtime_invs)
next
  case False
  have drop: "rs_step x (x\<lparr>rs_debounce_source := None\<rparr>)" for x :: "'x runtime_source_scheme"
    by (simp add: rs_step_def rs_keeps_def runtime_invs world_defs)
  have eq: "scheduled_refresh_cb R w = (start_scan R w)\<lparr>rs_debounce_source := None\<rparr>"
    using False by (simp add: scheduled_refresh_cb_def)
  from start_scan_event [of w] event_trans [OF _ step_event [OF drop]] False show ?thesis
    unfolding eq by (auto simp: waiting_def rs_lively_def superseded_def runtime_source_is_running_def)
qed

lemma scan_complete_event:
  assumes "rs_task w \<noteq> None"
  shows "rs_event Q w (scan_complete_cb res w) \<and> (rs_ok w \<and> rs_lively w \<longrightarrow> rs_lively (scan_complete_cb res w))"
proof (cases "runtime_source_is_running w \<and> rs_monitor_enabled w")
  case True
  then have eq: "scan_complete_cb res w = w\<lparr>rs_task := None, rs_publish_source := Some res\<rparr>"
    by (simp add: scan_complete_cb_def runtime_source_is_running_def)
  have "same_world w (scan_complete_cb res w)" by (simp add: eq world_defs)
  moreover have "rs_ok w \<longrightarrow> rs_ok (scan_complete_cb res w)"
    using assms True by (auto simp: eq runtime_invs)
  ultimately show ?thesis
    by (simp add: rs_event_def Q_own) (simp add: eq runtime_invs)
next
  case False
  then have eq: "scan_complete_cb res w =
      w\<lparr>rs_task := None, rs_scan_running := False, rs_scan_purpose := REFRESH_RECONCILE\<rparr>"
    by (auto simp: scan_complete_cb_def runtime_source_is_running_def)
  have "same_world w (scan_complete_cb res w)" by (simp add: eq world_defs)
  moreover have "rs_ok w \<longrightarrow> rs_ok (scan_complete_cb res w)"
    using assms by (auto simp: eq runtime_invs)
  moreover have "rs_lively (scan_complete_cb res w)" using False by (auto simp: eq runtime_invs)
  ultimately show ?thesis by (simp add: rs_event_def Q_own) (simp add: eq)
qed

end

text \<open>While a result is published a pending refresh may also rely on the restart that follows.\<close>

definition rs_restartable :: "'x runtime_source_scheme \<Rightarrow> bool" where
  "rs_restartable w \<longleftrightarrow> (waiting w \<longrightarrow>
     rs_debounce_source w \<noteq> None \<or> rs_retry_source w \<noteq> None \<or> rs_scan_queued w)"

lemma restartable_retry: "rs_restartable (schedule_runtime_retry p w)"
  by (auto simp: schedule_runtime_retry_def rs_restartable_def waiting_def runtime_source_is_running_def Let_def)

lemma queue_step: "rs_step w (w\<lparr>rs_scan_queued := True\<rparr>)"
  by (simp add: rs_step_def rs_keeps_def runtime_invs world_defs)

lemma publish_monitors_cases:
  assumes "publish_monitors R purpose res w = ((invalidated, ready), w2)"
  obtains (off) "w2 = w" "\<not> (runtime_source_is_running w \<and> rs_monitor_enabled w)"
    | (changed) w1 where "same_scan_state w w1" "w2 = (snd (invalidate_records purpose w1))\<lparr>rs_scan_queued := True\<rparr>"
    | (lost) w1 where "same_scan_state w w1" "w2 = snd (invalidate_records purpose w1)" "\<not> ready"
    | (failed) w1 where "same_scan_state w w1"
        "w2 = schedule_runtime_retry purpose (snd (invalidate_records purpose w1))"
    | (fine) "same_scan_state w w2"
proof (cases "runtime_source_is_running w \<and> rs_monitor_enabled w")
  case False
  with assms off show ?thesis by (auto simp: publish_monitors_def)
next
  case True
  obtain changed ready' w1 where m: "ensure_monitors R w = ((changed, ready'), w1)"
    by (metis prod.exhaust)
  have same: "same_scan_state w w1" using ensure_monitors_same [of w R] by (simp add: m)
  have eq: "publish_monitors R purpose res w =
      (if changed \<or> \<not> ready' then
         ((rs_records_fresh w1, ready'),
          if changed then (snd (invalidate_records purpose w1))\<lparr>rs_scan_queued := True\<rparr>
          else snd (invalidate_records purpose w1))
       else if res = None \<and> \<not> rs_refresh_pending w1 then
         ((rs_records_fresh w1, ready'), schedule_runtime_retry purpose (snd (invalidate_records purpose w1)))
       else ((False, ready'), w1))"
    using True by (simp add: publish_monitors_def m Let_def invalidate_records_def)
  show ?thesis
  proof (cases "changed \<or> \<not> ready'")
    case c: True
    show ?thesis
    proof (cases changed)
      case True
      with eq assms have "w2 = (snd (invalidate_records purpose w1))\<lparr>rs_scan_queued := True\<rparr>" by simp
      with same show ?thesis by (intro that(2))
    next
      case False
      with c eq assms have "w2 = snd (invalidate_records purpose w1)" "\<not> ready" by auto
      with same show ?thesis by (intro that(3))
    qed
  next
    case c: False
    show ?thesis
    proof (cases "res = None \<and> \<not> rs_refresh_pending w1")
      case True
      with c eq assms have "w2 = schedule_runtime_retry purpose (snd (invalidate_records purpose w1))" by simp
      with same show ?thesis by (intro that(4))
    next
      case False
      with c eq assms have "w2 = w1" by auto
      with same show ?thesis by (intro that(5)) simp
    qed
  qed
qed

lemma publish_monitors_spec:
  assumes "publish_monitors R purpose res w = ((invalidated, ready), w2)"
  shows "rs_step w w2" and "rs_restartable w \<Longrightarrow> \<not> waiting w2 \<or> rs_restartable w2 \<or> \<not> ready"
proof -
  have i: "rs_step w (snd (invalidate_records purpose w1))" if "same_scan_state w w1" for w1
    using same_scan_step [OF that] rs_step_trans own_steps(2) by blast
  show "rs_step w w2"
    using assms
  proof (cases rule: publish_monitors_cases)
    case (changed w1)
    then show ?thesis using rs_step_trans [OF i queue_step] by simp
  next
    case (failed w1)
    then show ?thesis using rs_step_trans [OF i own_steps(4)] by simp
  qed (use i same_scan_step in auto)
  show "\<not> waiting w2 \<or> rs_restartable w2 \<or> \<not> ready" if "rs_restartable w"
    using assms
  proof (cases rule: publish_monitors_cases)
    case fine
    with that show ?thesis
      by (simp add: rs_restartable_def waiting_def same_scan_state_def runtime_source_is_running_def)
  qed (use restartable_retry in \<open>auto simp: waiting_def rs_restartable_def\<close>)
qed

lemma publish_monitors_fields:
  assumes "publish_monitors R purpose res w = ((invalidated, ready), w2)"
  shows "rs_started w2 = rs_started w \<and> rs_stopping w2 = rs_stopping w \<and>
    rs_monitor_enabled w2 = rs_monitor_enabled w \<and> (rs_refresh_pending w \<longrightarrow> rs_refresh_pending w2)"
  using assms
  by (cases rule: publish_monitors_cases)
    (simp_all add: same_scan_state_def invalidate_records_def queue_scan_fields schedule_retry_fields)

lemma publish_result_cases:
  assumes "publish_result purpose ready res w = (accepted, w')"
  shows "accepted = False \<and> w' = w \<or>
    accepted \<and> ready \<and> \<not> rs_refresh_pending w \<and> runtime_source_is_running w \<and> rs_monitor_enabled w \<and>
    (\<exists>r. res = Some r \<and> sr_generation r = rs_generation w \<and>
       rs_records w' = reconcile_scan_records (rs_records w) r)"
  using assms by (auto simp: publish_result_def Let_def schedule_retry_fields clear_retry_def
      split: option.splits if_splits)

lemma publish_result_ok:
  assumes "publish_result purpose ready res w = (accepted, w')" and "\<not> rs_scan_running w"
  shows "same_world w w' \<and> (rs_ok w \<longrightarrow> rs_ok w') \<and> \<not> rs_scan_running w' \<and>
    rs_refresh_pending w' = rs_refresh_pending w \<and> rs_stopping w' = rs_stopping w"
proof (cases accepted)
  case False
  with publish_result_cases [OF assms(1)] assms(2) show ?thesis by auto
next
  case True
  then obtain r where r: "res = Some r" "ready" "\<not> rs_refresh_pending w" "runtime_source_is_running w" "rs_monitor_enabled w"
    "sr_generation r = rs_generation w"
    using publish_result_cases [OF assms(1)] by blast
  define w1 where "w1 = w\<lparr>rs_records := reconcile_scan_records (rs_records w) r,
                       rs_link_filter := sr_link_filter r, rs_records_fresh := True\<rparr>"
  have w': "w' = (if sr_complete r then (clear_retry w1)\<lparr>rs_retry_attempt := 0\<rparr> else schedule_runtime_retry purpose w1)"
    using assms(1) r unfolding publish_result_def w1_def Let_def by (cases "sr_complete r") auto
  have world: "same_world w w1" by (simp add: w1_def world_defs)
  have ok: "rs_ok w \<longrightarrow> rs_ok w1" using r assms(2) by (auto simp: w1_def runtime_invs)
  have "same_world w1 ((clear_retry w1)\<lparr>rs_retry_attempt := 0\<rparr>)" by (simp add: clear_retry_def world_defs)
  moreover have "rs_ok w1 \<longrightarrow> rs_ok ((clear_retry w1)\<lparr>rs_retry_attempt := 0\<rparr>)"
    by (auto simp: clear_retry_def runtime_invs)
  moreover have "rs_ok w1 \<longrightarrow> rs_ok (schedule_runtime_retry purpose w1)"
    using own_steps(4) [where w = w1 and p = purpose] by (simp add: rs_step_def rs_keeps_def)
  ultimately show ?thesis
    using world ok schedule_retry_world [of w1 purpose] assms(2) same_world_trans [OF world]
    by (simp add: w' schedule_retry_fields clear_retry_def) (simp add: w1_def)
qed


context runtime_contract
begin

lemma publish_event:
  assumes "rs_publish_source w = Some res"
  shows "Q w (publish_scan_cb R res w)"
    and "rs_ok w \<Longrightarrow> rs_ok (publish_scan_cb R res w) \<and> (rs_stopping w \<longrightarrow> rs_stopping (publish_scan_cb R res w))"
    and "rs_ok w \<Longrightarrow> rs_lively w \<Longrightarrow> rs_lively (publish_scan_cb R res w)"
    and "rs_ok w \<Longrightarrow> superseded w \<Longrightarrow> \<not> rs_records_fresh (publish_scan_cb R res w) \<and>
      set (rs_records (publish_scan_cb R res w)) \<subseteq> set (rs_records w)"
proof -
  define purpose where "purpose = rs_scan_purpose w"
  define w1 where "w1 = w\<lparr>rs_publish_source := None, rs_scan_running := False\<rparr>"
  obtain invalidated ready w2 where m: "publish_monitors R purpose res w1 = ((invalidated, ready), w2)"
    by (metis prod.exhaust)
  obtain accepted w3 where r: "publish_result purpose ready res w2 = (accepted, w3)"
    by (metis prod.exhaust)
  define w4 where "w4 = (if runtime_source_is_running w3 \<and> rs_monitor_enabled w3 \<and> \<not> ready
      then schedule_runtime_retry purpose w3 else w3)"
  define restart where "restart \<longleftrightarrow> runtime_source_is_running w4 \<and> rs_monitor_enabled w4 \<and>
      rs_refresh_pending w4 \<and> rs_scan_queued w4"
  define w5 where "w5 = w4\<lparr>rs_scan_queued := False, rs_scan_purpose := REFRESH_RECONCILE\<rparr>"
  define w6 where "w6 = (if restart then start_scan R w5 else w5)"
  define w7 where "w7 = (if \<not> runtime_source_is_checking w6 then w6\<lparr>rs_reconciliation_active := False\<rparr> else w6)"
  obtain c where eq: "publish_scan_cb R res w = (if c then runtime_notify_changed R w7 else w7)"
    unfolding publish_scan_cb_def Let_def purpose_def [symmetric] w1_def [symmetric] m prod.case r
      w4_def [symmetric] restart_def [symmetric] w5_def [symmetric] w6_def [symmetric] w7_def [symmetric] by blast
  have "rs_rel Q w7 (publish_scan_cb R res w)" unfolding eq by (rule notify_if) (rule rel_refl)
  then have end_rel: "rs_rel Q w7 (publish_scan_cb R res w)" .
  have s12: "rs_step w1 w2" using publish_monitors_spec(1) [OF m] .
  have s34: "rs_step w3 w4" by (simp add: w4_def own_steps)
  have s45: "same_world w4 w5" "rs_ok w4 \<longrightarrow> rs_ok w5" by (auto simp: w5_def world_defs runtime_invs)
  have s56: "rs_event Q w5 w6" "rs_ok w5 \<and> \<not> rs_scan_running w5 \<and> restart \<longrightarrow> \<not> waiting w6"
    using start_scan_event [of w5] rel_event [OF rel_refl] by (auto simp: w6_def)
  have s67: "same_scan_state w6 w7" by (simp add: w7_def same_scan_state_def world_defs)
  have "same_world w w1" by (simp add: w1_def world_defs)
  with s12 have w2: "same_world w w2" by (auto simp: rs_step_def intro: same_world_trans)
  show "Q w (publish_scan_cb R res w)"
  proof -
    have "\<not> accepted \<longrightarrow> w3 = w2" using publish_result_cases [OF r] by blast
    have "same_world w2 w3"
    proof (cases accepted)
      case False
      then show ?thesis using publish_result_cases [OF r] by simp
    next
      case True
      then show ?thesis
        using r by (auto simp: publish_result_def Let_def schedule_retry_world world_defs clear_retry_def
            schedule_runtime_retry_def split: option.splits if_splits)
    qed
    then have "same_world w w5" using w2 s34 s45 by (auto simp: rs_step_def intro: same_world_trans)
    moreover have "same_world w6 w7" using s67 by (simp add: same_scan_state_def)
    ultimately show ?thesis
      using Q_own s56(1) end_rel Q_trans unfolding rs_event_def rs_rel_def by meson
  qed
  assume ok: "rs_ok w"
  have ok1: "rs_ok w1" using ok assms by (auto simp: w1_def runtime_invs)
  then have ok2: "rs_ok w2" "\<not> rs_scan_running w2" "rs_stopping w \<longrightarrow> rs_stopping w2"
      "rs_records_fresh w2 \<longrightarrow> rs_records_fresh w" "set (rs_records w2) \<subseteq> set (rs_records w)"
    using s12 by (auto simp: rs_step_def rs_keeps_def) (auto simp: w1_def)
  then have ok3: "rs_ok w3" "\<not> rs_scan_running w3" "rs_stopping w2 \<longrightarrow> rs_stopping w3"
    using publish_result_ok [OF r ok2(2)] by auto
  then have ok4: "rs_ok w4" "\<not> rs_scan_running w4" "rs_stopping w3 \<longrightarrow> rs_stopping w4"
    using s34 by (auto simp: rs_step_def rs_keeps_def)
  then have ok5: "rs_ok w5" "\<not> rs_scan_running w5" "rs_stopping w4 \<longrightarrow> rs_stopping w5"
    using s45 by (auto simp: w5_def)
  then have ok6: "rs_ok w6" "rs_stopping w5 \<longrightarrow> rs_stopping w6" using s56 by (auto simp: rs_event_def)
  then have ok7: "rs_ok w7" using same_scan_step [OF s67] by (auto simp: rs_step_def rs_keeps_def)
  have stop7: "rs_stopping w \<longrightarrow> rs_stopping w7" using ok2 ok3 ok4 ok5 ok6 s67 by (auto simp: same_scan_state_def)
  then show "rs_ok (publish_scan_cb R res w) \<and> (rs_stopping w \<longrightarrow> rs_stopping (publish_scan_cb R res w))"
    using end_rel ok7 by (auto simp: rs_rel_def rs_evolves_def rs_keeps_def)
  show "rs_lively (publish_scan_cb R res w)" if "rs_lively w"
  proof -
    have "rs_restartable w1" using that by (auto simp: rs_restartable_def waiting_def w1_def runtime_invs)
    from publish_monitors_spec(2) [OF m this] have "\<not> waiting w2 \<or> rs_restartable w2 \<or> \<not> ready" .
    moreover have "accepted \<longrightarrow> \<not> waiting w3"
      using publish_result_cases [OF r] publish_result_ok [OF r ok2(2)] by (auto simp: waiting_def)
    moreover have "\<not> accepted \<longrightarrow> w3 = w2" using publish_result_cases [OF r] by blast
    moreover have "\<not> ready \<longrightarrow> \<not> waiting w3 \<or> w4 = schedule_runtime_retry purpose w3"
      by (simp add: w4_def waiting_def)
    moreover have "\<not> waiting w3 \<Longrightarrow> \<not> waiting w4"
      by (auto simp add: w4_def waiting_def schedule_retry_fields runtime_source_is_running_def)
    moreover have "ready \<Longrightarrow> w4 = w3" by (simp add: w4_def)
    ultimately have "\<not> waiting w4 \<or> rs_restartable w4"
      using restartable_retry [of purpose w3] by (cases accepted; cases ready) auto
    then have "rs_lively w6"
    proof (cases restart)
      case True
      with s56(2) ok5 show ?thesis by (auto simp: rs_lively_def waiting_def)
    next
      case False
      with \<open>\<not> waiting w4 \<or> rs_restartable w4\<close> show ?thesis
        by (auto simp: w6_def w5_def restart_def rs_restartable_def waiting_def runtime_invs)
    qed
    then have "rs_lively w7" using same_scan_step [OF s67] by simp
    then show ?thesis using end_rel ok7 by (auto simp: rs_rel_def rs_evolves_def)
  qed
  assume sup: "superseded w"
  have "accepted = False"
  proof (rule ccontr)
    assume "accepted \<noteq> False"
    with publish_result_cases [OF r] have a: "\<not> rs_refresh_pending w2" "runtime_source_is_running w2" "rs_monitor_enabled w2"
      by auto
    from publish_monitors_fields [OF m] a sup show False by (auto simp: superseded_def w1_def runtime_source_is_running_def)
  qed
  then have "w3 = w2" using publish_result_cases [OF r] by blast
  have "(rs_records_fresh w4 \<longrightarrow> rs_records_fresh w2) \<and> set (rs_records w4) \<subseteq> set (rs_records w2)"
    using \<open>w3 = w2\<close> s34 ok3(1) by (simp add: rs_step_def rs_keeps_def)
  moreover have "rs_records_fresh w5 = rs_records_fresh w4" "rs_records w5 = rs_records w4" by (simp_all add: w5_def)
  moreover have "(rs_records_fresh w6 \<longrightarrow> rs_records_fresh w5) \<and> set (rs_records w6) \<subseteq> set (rs_records w5)"
    using s56(1) ok5(1) by (simp add: rs_event_def)
  moreover have "rs_records_fresh w7 = rs_records_fresh w6" "rs_records w7 = rs_records w6"
    using s67 by (simp_all add: same_scan_state_def)
  ultimately have "rs_records_fresh w7 \<longrightarrow> rs_records_fresh w2" "set (rs_records w7) \<subseteq> set (rs_records w2)" by auto
  with ok2 ok7 end_rel superseded_not_fresh [OF ok sup]
  show "\<not> rs_records_fresh (publish_scan_cb R res w) \<and>
      set (rs_records (publish_scan_cb R res w)) \<subseteq> set (rs_records w)"
    by (auto simp: rs_rel_def rs_evolves_def rs_keeps_def)
qed

end

section \<open>Reachable states\<close>

inductive runtime_reachable :: "'x runtime_env \<Rightarrow> 'x runtime_source_scheme \<Rightarrow> bool" for R where
  fresh: "runtime_reachable R (runtime_source_new w)"
| event: "runtime_reachable R w \<Longrightarrow> runtime_reachable R (runtime_step R ev w)"
| world: "runtime_reachable R w \<Longrightarrow> rs_evolves w w' \<Longrightarrow> runtime_reachable R w'"

lemma new_ok: "rs_ok (runtime_source_new w) \<and> rs_lively (runtime_source_new w)"
  by (simp add: runtime_source_new_def runtime_invs)

context runtime_contract
begin

lemmas operation_rels =
  set_names_rel poll_rel request_refresh_rel set_mutation_rel record_delete_rel set_monitor_enabled_rel
  ensure_monitor_rel start_rel stop_rel monitor_changed_rel link_monitor_rel retry_rel

lemma step_cases:
  obtains (rel) "rs_rel Q w (runtime_step R ev w)"
    | (debounce) "rs_debounce_source w \<noteq> None" "runtime_step R ev w = scheduled_refresh_cb R w" "ev = Rt_Debounce"
    | (complete) res where "ev = Rt_Complete res" "rs_task w \<noteq> None" "runtime_step R ev w = scan_complete_cb res w"
    | (publish) res where "ev = Rt_Publish" "rs_publish_source w = Some res" "runtime_step R ev w = publish_scan_cb R res w"
proof (cases ev)
  case Rt_Debounce
  then show ?thesis using rel [unfolded Rt_Debounce] debounce by (cases "rs_debounce_source w") (auto simp: rel_refl)
next
  case (Rt_Complete res)
  then show ?thesis using rel [unfolded Rt_Complete] complete by (cases "rs_task w") (auto simp: rel_refl)
next
  case Rt_Publish
  then show ?thesis using rel [unfolded Rt_Publish] publish by (cases "rs_publish_source w") (auto simp: rel_refl)
qed (rule rel, simp add: operation_rels rel_refl)+

lemma step_ok: "rs_ok w \<Longrightarrow> rs_lively w \<Longrightarrow> rs_ok (runtime_step R ev w) \<and> rs_lively (runtime_step R ev w)"
proof (cases rule: step_cases [of w ev])
  case rel
  then show "rs_ok w \<Longrightarrow> rs_lively w \<Longrightarrow> ?thesis" by (simp add: rs_rel_def rs_evolves_def rs_keeps_def)
next
  case debounce
  then show "rs_ok w \<Longrightarrow> rs_lively w \<Longrightarrow> ?thesis" using scheduled_refresh_event by (simp add: rs_event_def)
next
  case (complete res)
  then show "rs_ok w \<Longrightarrow> rs_lively w \<Longrightarrow> ?thesis" using scan_complete_event by (simp add: rs_event_def)
next
  case (publish res)
  then show "rs_ok w \<Longrightarrow> rs_lively w \<Longrightarrow> ?thesis" using publish_event by simp
qed

lemma step_Q: "Q w (runtime_step R ev w)"
  by (cases rule: step_cases [of w ev])
    (simp_all add: rs_rel_def scheduled_refresh_event [unfolded rs_event_def]
      scan_complete_event [unfolded rs_event_def] publish_event)

lemma reachable_ok: "runtime_reachable R w \<Longrightarrow> rs_ok w \<and> rs_lively w"
proof (induction rule: runtime_reachable.induct)
  case (fresh w)
  show ?case by (rule new_ok)
next
  case (event w ev)
  then show ?case using step_ok by blast
next
  case (world w w')
  then show ?case by (auto simp: rs_evolves_def rs_keeps_def)
qed

text \<open>Until it is published, a superseded scan stays so, or its result is dropped.\<close>

lemma superseded_step:
  assumes "rs_ok w" and "superseded w" and "ev \<noteq> Rt_Publish" and "\<And>res. ev \<noteq> Rt_Complete res"
  shows "superseded (runtime_step R ev w) \<and> rs_task (runtime_step R ev w) = rs_task w \<and>
    set (rs_records (runtime_step R ev w)) \<subseteq> set (rs_records w)"
proof (cases rule: step_cases [of w ev])
  case debounce
  from assms(2) have "scheduled_refresh_cb R w = w\<lparr>rs_scan_queued := True, rs_debounce_source := None\<rparr>"
    by (simp add: scheduled_refresh_cb_def superseded_def)
  with debounce assms(1,2) scheduled_refresh_event [OF debounce(1)] show ?thesis by simp
qed (use assms in \<open>auto simp: rs_rel_def rs_evolves_def rs_keeps_def\<close>)

lemma no_result_step:
  assumes "rs_ok w" and "\<not> rs_records_fresh w" and "rs_publish_source w = None" and "\<And>res. ev \<noteq> Rt_Complete res"
  shows "\<not> rs_records_fresh (runtime_step R ev w) \<and> rs_publish_source (runtime_step R ev w) = None \<and>
    set (rs_records (runtime_step R ev w)) \<subseteq> set (rs_records w)"
proof (cases rule: step_cases [of w ev])
  case debounce
  with scheduled_refresh_event [OF debounce(1)] assms show ?thesis by (auto simp: rs_event_def)
qed (use assms in \<open>auto simp: rs_rel_def rs_evolves_def rs_keeps_def\<close>)

end

definition quiet_runtime :: "'x runtime_env" where
  "quiet_runtime =
     \<lparr>re_changed = (\<lambda>w. w), re_create_monitor = (\<lambda>path w. True),
      re_monitor_cancelled = (\<lambda>w. False), re_open_link_monitor = (\<lambda>w. True)\<rparr>"

lemma quiet_runtime_contract: "runtime_contract quiet_runtime (\<lambda>_ _. True)"
  by unfold_locales (simp_all add: quiet_runtime_def)

text \<open>
  C19. No refresh of the runtime records is lost, and none runs twice. In every state that the
  source's operations, timers, monitors and scans, and any callback within the contract, can bring
  about: a refresh that is pending while the source runs and is enabled has its timer or its retry
  armed, or will follow the scan in flight; a scan in flight is either in the worker or waiting to
  be published, never both; and records are only called fresh while the source is started and
  enabled and no repetition of a scan in flight is due.
\<close>

theorem runtime_refresh_never_lost:
  assumes "runtime_contract R (\<lambda>_ _. True)" and "runtime_reachable R w"
  shows "(rs_started w \<and> \<not> rs_stopping w \<and> rs_monitor_enabled w \<and> rs_refresh_pending w \<longrightarrow>
      rs_debounce_source w \<noteq> None \<or> rs_retry_source w \<noteq> None \<or> rs_scan_running w \<and> rs_scan_queued w) \<and>
    (rs_scan_running w \<and> \<not> rs_stopping w \<longrightarrow> (rs_task w = None) \<noteq> (rs_publish_source w = None)) \<and>
    (\<not> rs_scan_running w \<longrightarrow> rs_task w = None \<and> rs_publish_source w = None) \<and>
    (rs_records_fresh w \<longrightarrow> rs_started w \<and> rs_monitor_enabled w \<and> \<not> (rs_scan_running w \<and> rs_refresh_pending w))"
  using runtime_contract.reachable_ok [OF assms] unfolding runtime_invs by auto

theorem runtime_refresh_never_lost_witness:
  "\<forall>w0 :: runtime_source.
     rs_refresh_pending (runtime_run quiet_runtime [Rt_Start, Rt_Enable True] (runtime_source_new w0)) \<and>
     (rs_debounce_source (runtime_run quiet_runtime [Rt_Start, Rt_Enable True] (runtime_source_new w0)) \<noteq> None \<or>
      rs_retry_source (runtime_run quiet_runtime [Rt_Start, Rt_Enable True] (runtime_source_new w0)) \<noteq> None \<or>
      rs_scan_running (runtime_run quiet_runtime [Rt_Start, Rt_Enable True] (runtime_source_new w0)) \<and>
      rs_scan_queued (runtime_run quiet_runtime [Rt_Start, Rt_Enable True] (runtime_source_new w0)))"
proof
  fix w0 :: runtime_source
  let ?w = "runtime_run quiet_runtime [Rt_Start, Rt_Enable True] (runtime_source_new w0)"
  have "runtime_reachable quiet_runtime ?w"
    by (simp add: runtime_reachable.intros del: runtime_step.simps)
  note lost = runtime_refresh_never_lost [OF quiet_runtime_contract this, THEN conjunct1]
  have "rs_started ?w \<and> \<not> rs_stopping ?w \<and> rs_monitor_enabled ?w \<and> rs_refresh_pending ?w"
    by (cases w0, hypsubst) code_simp
  with lost show "rs_refresh_pending ?w \<and> (rs_debounce_source ?w \<noteq> None \<or> rs_retry_source ?w \<noteq> None \<or>
      rs_scan_running ?w \<and> rs_scan_queued ?w)" by blast
qed

text \<open>
  C18. A superseded scan is never believed. Let a scan be in flight when a refresh is queued, or the
  monitors are disabled, or the source is stopped. Whatever happens until the result of that scan
  comes to be published, its publication neither makes the records fresh nor adds a record.
\<close>

theorem superseded_scan_is_not_published:
  assumes "runtime_contract R (\<lambda>_ _. True)" and "runtime_reachable R w" and "superseded w"
    and "Rt_Publish \<notin> set evs"
    and "length (filter (\<lambda>ev. \<exists>res. ev = Rt_Complete res) evs) \<le> (if rs_task w = None then 0 else 1)"
    and "w' = runtime_step R Rt_Publish (runtime_run R evs w)"
  shows "\<not> rs_records_fresh w' \<and> set (rs_records w') \<subseteq> set (rs_records w)"
proof -
  have dropped: "rs_ok x \<Longrightarrow> rs_lively x \<Longrightarrow> \<not> rs_records_fresh x \<Longrightarrow> rs_publish_source x = None \<Longrightarrow>
      filter (\<lambda>ev. \<exists>res. ev = Rt_Complete res) evs = [] \<Longrightarrow>
      \<not> rs_records_fresh (runtime_step R Rt_Publish (runtime_run R evs x)) \<and>
      set (rs_records (runtime_step R Rt_Publish (runtime_run R evs x))) \<subseteq> set (rs_records x)" for evs x
  proof (induction evs arbitrary: x)
    case (Cons ev evs)
    then have ev: "\<And>res. ev \<noteq> Rt_Complete res" by auto
    from Cons runtime_contract.no_result_step [OF assms(1) _ _ _ ev, of x]
      runtime_contract.step_ok [OF assms(1), of x ev] ev
    show ?case by fastforce
  qed simp
  have "rs_ok x \<Longrightarrow> rs_lively x \<Longrightarrow> superseded x \<Longrightarrow> Rt_Publish \<notin> set evs \<Longrightarrow>
      length (filter (\<lambda>ev. \<exists>res. ev = Rt_Complete res) evs) \<le> (if rs_task x = None then 0 else 1) \<Longrightarrow>
      \<not> rs_records_fresh (runtime_step R Rt_Publish (runtime_run R evs x)) \<and>
      set (rs_records (runtime_step R Rt_Publish (runtime_run R evs x))) \<subseteq> set (rs_records x)" for x evs
  proof (induction evs arbitrary: x)
    case Nil
    then show ?case
      using runtime_contract.publish_event(4) [OF assms(1), of x] superseded_not_fresh [of x]
      by (auto split: option.split)
  next
    case (Cons ev evs)
    note ok = runtime_contract.step_ok [OF assms(1) Cons.prems(1,2), of ev]
    show ?case
    proof (cases "\<exists>res. ev = Rt_Complete res")
      case False
      then have ev: "\<And>res. ev \<noteq> Rt_Complete res" by blast
      have p: "ev \<noteq> Rt_Publish" using Cons.prems by auto
      from runtime_contract.superseded_step [OF assms(1) Cons.prems(1,3) p ev] ok Cons.IH Cons.prems False
      show ?thesis by fastforce
    next
      case True
      then obtain res where ev: "ev = Rt_Complete res" by blast
      with Cons.prems have task: "rs_task x \<noteq> None" and rest: "filter (\<lambda>ev. \<exists>res. ev = Rt_Complete res) evs = []"
        by (auto split: if_splits)
      have step: "runtime_step R ev x = scan_complete_cb res x" using task ev by auto
      have keep: "\<not> rs_records_fresh (scan_complete_cb res x)" "rs_records (scan_complete_cb res x) = rs_records x"
        using superseded_not_fresh [OF Cons.prems(1,3)] by (simp_all add: scan_complete_cb_def Let_def)
      show ?thesis
      proof (cases "runtime_source_is_running x \<and> rs_monitor_enabled x")
        case True
        then have "superseded (scan_complete_cb res x)"
          using Cons.prems(3) by (auto simp: scan_complete_cb_def superseded_def runtime_source_is_running_def)
        with Cons.IH [of "scan_complete_cb res x"] ok step keep rest Cons.prems show ?thesis by simp
      next
        case False
        then have "rs_publish_source (scan_complete_cb res x) = None"
          using Cons.prems(1) task by (auto simp: scan_complete_cb_def rs_ok_def runtime_source_is_running_def)
        with dropped [of "scan_complete_cb res x" evs] ok step keep rest show ?thesis by simp
      qed
    qed
  qed
  from this [of w evs] runtime_contract.reachable_ok [OF assms(1,2)] assms(3-6) show ?thesis by blast
qed


theorem superseded_scan_is_not_published_witness:
  "\<forall>w0 :: runtime_source. \<not> rs_records_fresh (runtime_step quiet_runtime Rt_Publish
     (runtime_run quiet_runtime [Rt_Complete (Some \<lparr>sr_records = [], sr_link_filter = None,
          sr_generation = 1, sr_complete = True\<rparr>)]
       (runtime_run quiet_runtime [Rt_Start, Rt_Enable True, Rt_Debounce, Rt_Refresh REFRESH_VISIBLE]
         (runtime_source_new w0))))"
proof
  fix w0 :: runtime_source
  define w where "w = runtime_run quiet_runtime [Rt_Start, Rt_Enable True, Rt_Debounce, Rt_Refresh REFRESH_VISIBLE]
      (runtime_source_new w0)"
  have "runtime_reachable quiet_runtime w"
    unfolding w_def by (simp add: runtime_reachable.intros del: runtime_step.simps)
  moreover have "superseded w \<and> \<not> Option.is_none (rs_task w)"
    unfolding w_def by (cases w0, hypsubst) code_simp
  then have "superseded w \<and> rs_task w \<noteq> None" by (auto simp: Option.is_none_def)
  ultimately show "\<not> rs_records_fresh (runtime_step quiet_runtime Rt_Publish
     (runtime_run quiet_runtime [Rt_Complete (Some \<lparr>sr_records = [], sr_link_filter = None,
          sr_generation = 1, sr_complete = True\<rparr>)]
       (runtime_run quiet_runtime [Rt_Start, Rt_Enable True, Rt_Debounce, Rt_Refresh REFRESH_VISIBLE]
         (runtime_source_new w0))))"
    unfolding w_def [symmetric]
    by (intro superseded_scan_is_not_published [OF quiet_runtime_contract _ _ _ _ refl, THEN conjunct1]) simp_all
qed

end
