(* ===== verification/Controller.thy ===== *)
theory Controller
  imports Runtime_Source
begin

text \<open>
  \<open>amneziawg/controller.h\<close>, \<open>controller_internal.h\<close> and \<open>controller.c\<close>: the activities of the user,
  their admission, confirmation and dispatch, and what their results do to the model, the inventory
  and the runtime source. The state extends that of the runtime source, which extends that of the
  inventory; the rest of the world (the widgets, the backend) is its extension. What the controller
  calls outside these components is a record of functions of the whole state, which may call back
  into the controller: \<open>ce_changed\<close> and \<open>ce_ui_event\<close> are the user interface's callbacks,
  \<open>ce_execute\<close>, \<open>ce_invalidate_authorization\<close>, \<open>ce_backend_start\<close> and \<open>ce_backend_stop\<close> the
  backend's functions, \<open>ce_list\<close>, \<open>ce_cancel\<close> and \<open>ce_now\<close> those the inventory uses, and \<open>ce_runtime\<close>
  performs an operation of the runtime source, whose own callback is \<open>runtime_source_changed\<close> below
  (\<open>System\<close> ties that knot). A service action that is handed to the backend is its argument; the
  backend gives it back to \<open>backend_service_result\<close>. Reference counts have no counterpart.
\<close>

section \<open>Data\<close>

datatype backend_operation =
  BACKEND_IMPORT | BACKEND_REPLACE | BACKEND_UP | BACKEND_DOWN | BACKEND_DELETE | BACKEND_LIST_PROFILES

datatype ui_event_type =
  UI_NOTICE | UI_SELECT_IMPORT | UI_CONFIRM_REPLACE | UI_CONFIRM_DELETE | UI_EXTERNAL_INTERACTION_ACTIVE
| UI_DISMISS_ALL

datatype import_error =
  IMPORT_ERROR_NONE | IMPORT_ERROR_INSPECT_FAILED | IMPORT_ERROR_NOT_LOCAL | IMPORT_ERROR_NOT_REGULAR
| IMPORT_ERROR_TOO_LARGE | IMPORT_ERROR_OPEN_FAILED | IMPORT_ERROR_READ_FAILED | IMPORT_ERROR_EMPTY
| IMPORT_ERROR_TIMED_OUT

datatype notice =
  NOTICE_NONE | NOTICE_AUTHORIZATION_UNAVAILABLE | NOTICE_WAIT_FOR_RUNTIME_REFRESH
| NOTICE_REQUIRED_COMPONENTS_UNAVAILABLE | NOTICE_IMPORT_CHOOSER_UNAVAILABLE
| NOTICE_INVALID_IMPORT_FILENAME | NOTICE_IMPORT_CANCELLED | NOTICE_IMPORT_LOAD_FAILED
| NOTICE_OPERATION_TIMED_OUT | NOTICE_SERVICE_CONNECT_FAILED | NOTICE_SERVICE_FAILED
| NOTICE_SERVICE_BUSY | NOTICE_CONFIGURATION_UNAVAILABLE | NOTICE_EXTERNAL_OPERATION_IN_PROGRESS
| NOTICE_OPERATION_SUCCEEDED | NOTICE_HELPER_FAILED | NOTICE_PROFILE_MISSING
| NOTICE_PROFILE_ACTIVATION_BLOCKED | NOTICE_INTERFACE_EXTERNALLY_MANAGED
| NOTICE_CLEANUP_UNCONFIRMED | NOTICE_PROFILE_REMOVAL_BLOCKED | NOTICE_OPERATION_STARTED
| NOTICE_REPLACEMENT_CONFIRMATION_UNAVAILABLE | NOTICE_REMOVAL_CONFIRMATION_UNAVAILABLE

record ui_event =
  ev_type :: ui_event_type
  ev_activity_id :: nat
  ev_notice :: notice
  ev_operation :: backend_operation
  ev_import_error :: import_error
  ev_helper_status :: nat
  ev_name :: "string option"
  ev_availability_probe :: bool

record service_action =
  sa_activity_id :: nat
  sa_name :: "string option"
  sa_config :: "bytes option"
  sa_operation :: backend_operation
  sa_cleanup_only :: bool

record controller = runtime_source +
  c_changed_set :: bool
  c_ui_event_set :: bool
  c_authorized :: bool
  c_activity :: activity
  c_activity_name :: "string option"
  c_activity_id :: nat
  c_generation :: nat
  c_pending_confirmation :: "service_action option"
  c_verification_pending :: bool
  c_started :: bool
  c_stopping :: bool

record 'x controller_env =
  ce_changed :: "nat \<Rightarrow> 'x controller_scheme \<Rightarrow> 'x controller_scheme"
  ce_ui_event :: "ui_event \<Rightarrow> 'x controller_scheme \<Rightarrow> bool \<times> 'x controller_scheme"
  ce_execute :: "service_action \<Rightarrow> 'x controller_scheme \<Rightarrow> 'x controller_scheme"
  ce_invalidate_authorization :: "'x controller_scheme \<Rightarrow> 'x controller_scheme"
  ce_backend_start :: "'x controller_scheme \<Rightarrow> 'x controller_scheme"
  ce_backend_stop :: "'x controller_scheme \<Rightarrow> 'x controller_scheme"
  ce_runtime :: "runtime_event \<Rightarrow> 'x controller_scheme \<Rightarrow> 'x controller_scheme"
  ce_list :: "nat \<Rightarrow> 'x controller_scheme \<Rightarrow> 'x controller_scheme"
  ce_cancel :: "nat \<Rightarrow> 'x controller_scheme \<Rightarrow> 'x controller_scheme"
  ce_now :: "'x controller_scheme \<Rightarrow> int"

section \<open>Callbacks and queries\<close>

definition controller_is_running :: "'x controller_scheme \<Rightarrow> bool" where
  "controller_is_running w \<longleftrightarrow> c_started w \<and> \<not> c_stopping w"

definition sync_runtime_profile_names ::
    "'x controller_env \<Rightarrow> refresh_purpose \<Rightarrow> 'x controller_scheme \<Rightarrow> 'x controller_scheme" where
  "sync_runtime_profile_names C purpose w =
     ce_runtime C (Rt_Set_Names (dup_profile_names (inv_model w)) purpose) w"

definition controller_rebuild :: "'x controller_scheme \<Rightarrow> 'x controller_scheme" where
  "controller_rebuild w =
     w\<lparr>inv_model := rebuild_entries (inv_model w) (c_authorized w)
         (if c_authorized w then dup_cached_records w else []) (runtime_source_is_checking w)
         (c_activity w) (c_activity_name w)\<rparr>"

definition bump_generation :: "'x controller_scheme \<Rightarrow> 'x controller_scheme" where
  "bump_generation w = (if c_generation w \<noteq> G_MAXUINT64 then w\<lparr>c_generation := c_generation w + 1\<rparr> else w)"

definition emit_changed :: "'x controller_env \<Rightarrow> nat \<Rightarrow> 'x controller_scheme \<Rightarrow> 'x controller_scheme" where
  "emit_changed C delay_ms w =
     (if \<not> controller_is_running w then w
      else let w1 = bump_generation w
           in if \<not> c_changed_set w1 then w1 else ce_changed C delay_ms w1)"

definition emit_ui_event ::
    "'x controller_env \<Rightarrow> ui_event \<Rightarrow> 'x controller_scheme \<Rightarrow> bool \<times> 'x controller_scheme" where
  "emit_ui_event C event w =
     (if \<not> controller_is_running w \<or> \<not> c_ui_event_set w then (False, w) else ce_ui_event C event w)"

definition emit_ui_request ::
    "'x controller_env \<Rightarrow> ui_event_type \<Rightarrow> nat \<Rightarrow> string option \<Rightarrow> bool \<Rightarrow> 'x controller_scheme \<Rightarrow>
     bool \<times> 'x controller_scheme" where
  "emit_ui_request C type activity_id name probe w =
     emit_ui_event C
       \<lparr>ev_type = type, ev_activity_id = activity_id, ev_notice = NOTICE_NONE, ev_operation = BACKEND_IMPORT,
        ev_import_error = IMPORT_ERROR_NONE, ev_helper_status = 0, ev_name = name,
        ev_availability_probe = probe\<rparr> w"

definition emit_notice ::
    "'x controller_env \<Rightarrow> notice \<Rightarrow> backend_operation \<Rightarrow> nat \<Rightarrow> import_error \<Rightarrow> string option \<Rightarrow>
     'x controller_scheme \<Rightarrow> 'x controller_scheme" where
  "emit_notice C notice operation status error name w =
     snd (emit_ui_event C
       \<lparr>ev_type = UI_NOTICE, ev_activity_id = 0, ev_notice = notice, ev_operation = operation,
        ev_import_error = error, ev_helper_status = status, ev_name = name,
        ev_availability_probe = False\<rparr> w)"

definition activity_matches :: "nat \<Rightarrow> 'x controller_scheme \<Rightarrow> bool" where
  "activity_matches activity_id w \<longleftrightarrow>
     controller_is_running w \<and> c_activity w \<noteq> ACTIVITY_IDLE \<and> c_activity_id w = activity_id"

definition confirmation_matches :: "ui_event_type \<Rightarrow> nat \<Rightarrow> 'x controller_scheme \<Rightarrow> bool" where
  "confirmation_matches confirmation activity_id w \<longleftrightarrow>
     activity_matches activity_id w \<and>
     (case c_pending_confirmation w of
        None \<Rightarrow> False
      | Some action \<Rightarrow>
          sa_activity_id action = activity_id \<and>
          (case confirmation of
             UI_CONFIRM_REPLACE \<Rightarrow> c_activity w = ACTIVITY_REPLACE_CONFIRM \<and> sa_operation action = BACKEND_IMPORT
           | UI_CONFIRM_DELETE \<Rightarrow> c_activity w = ACTIVITY_DELETE_CONFIRM \<and> sa_operation action = BACKEND_DELETE
           | _ \<Rightarrow> False))"

definition service_action_matches :: "service_action \<Rightarrow> 'x controller_scheme \<Rightarrow> bool" where
  "service_action_matches action w \<longleftrightarrow> activity_matches (sa_activity_id action) w"

section \<open>The inventory's callbacks\<close>

definition inventory_changed ::
    "'x controller_env \<Rightarrow> inventory_change \<Rightarrow> refresh_purpose \<Rightarrow> 'x controller_scheme \<Rightarrow> 'x controller_scheme" where
  "inventory_changed C change purpose w =
     (if \<not> controller_is_running w then w
      else emit_changed C 1 (controller_rebuild
        (case change of
           INVENTORY_PROFILES_CHANGED \<Rightarrow> sync_runtime_profile_names C purpose w
         | INVENTORY_REFRESH_STARTED \<Rightarrow> ce_runtime C (Rt_Poll purpose) w
         | INVENTORY_STATE_CHANGED \<Rightarrow> w)))"

definition inventory_can_dispatch ::
    "'x controller_env \<Rightarrow> 'x controller_scheme \<Rightarrow> bool \<times> 'x controller_scheme" where
  "inventory_can_dispatch C w =
     (if controller_is_running w \<and> c_authorized w
      then let (active, w1) = emit_ui_request C UI_EXTERNAL_INTERACTION_ACTIVE 0 None False w
           in (\<not> active, w1)
      else (False, w))"

definition inventory_env :: "'x controller_env \<Rightarrow> ('x controller_ext) runtime_source_ext inventory_env" where
  "inventory_env C =
     \<lparr>ie_now = ce_now C, ie_changed = inventory_changed C, ie_can_dispatch = Some (inventory_can_dispatch C),
      ie_cancel = ce_cancel C, ie_execute = ce_list C,
      ie_invalidate_authorization = ce_invalidate_authorization C\<rparr>"

definition controller_request_inventory ::
    "'x controller_env \<Rightarrow> bool \<Rightarrow> 'x controller_scheme \<Rightarrow> 'x controller_scheme" where
  "controller_request_inventory C force w =
     (if \<not> controller_is_running w \<or> \<not> c_authorized w then w
      else inventory_request_refresh (inventory_env C) force REFRESH_VISIBLE
             (ce_runtime C (Rt_Poll REFRESH_VISIBLE) w))"

section \<open>Admission\<close>

fun operation_action :: "backend_operation \<Rightarrow> action" where
  "operation_action BACKEND_IMPORT = ACTION_IMPORT"
| "operation_action BACKEND_REPLACE = ACTION_REPLACE"
| "operation_action BACKEND_UP = ACTION_UP"
| "operation_action BACKEND_DOWN = ACTION_DOWN"
| "operation_action BACKEND_DELETE = ACTION_DELETE"

definition controller_admission_context :: "bool \<Rightarrow> 'x controller_scheme \<Rightarrow> admission_context" where
  "controller_admission_context continuing w =
     \<lparr>authorized = (controller_is_running w \<and> c_authorized w),
      busy = (\<not> continuing \<and> c_activity w \<noteq> ACTIVITY_IDLE),
      capabilities_known = inv_capabilities_known w,
      missing_dependencies = inv_missing_dependencies w\<rparr>"

definition controller_admission_target :: "string option \<Rightarrow> 'x controller_scheme \<Rightarrow> admission_target" where
  "controller_admission_target name w =
     (case name of
        None \<Rightarrow> \<lparr>has_profile = False, profile_status = PROFILE_CHANGED_OR_UNREADABLE,
                 runtime_state = RUNTIME_UNKNOWN, interface_exists = False\<rparr>
      | Some n \<Rightarrow>
          (let status = get_profile_status (inv_model w) n;
               (found, state, exists) = get_cached w (Some n)
           in \<lparr>has_profile = (status \<noteq> None),
               profile_status = (case status of Some s \<Rightarrow> s | None \<Rightarrow> PROFILE_CHANGED_OR_UNREADABLE),
               runtime_state = state, interface_exists = exists\<rparr>))"

definition operation_missing_dependencies ::
    "backend_operation \<Rightarrow> string option \<Rightarrow> bool \<Rightarrow> 'x controller_scheme \<Rightarrow> flags" where
  "operation_missing_dependencies operation name cleanup_only w =
     action_missing_dependencies (operation_action operation) (controller_admission_context True w)
       (Some (controller_admission_target name w)) cleanup_only"

definition operation_availability ::
    "backend_operation \<Rightarrow> string option \<Rightarrow> bool \<Rightarrow> 'x controller_scheme \<Rightarrow> action_availability" where
  "operation_availability operation name continuing w =
     action_evaluate (operation_action operation) (controller_admission_context continuing w)
       (Some (controller_admission_target name w))"

text \<open>The notice for a refusal, and whether profiles, runtime records or rows are refreshed.\<close>

fun blocked_response :: "blocked_reason \<Rightarrow> notice \<times> bool \<times> bool \<times> bool" where
  "blocked_response BLOCKED_AUTHORIZATION = (NOTICE_AUTHORIZATION_UNAVAILABLE, False, False, False)"
| "blocked_response BLOCKED_CAPABILITIES = (NOTICE_REQUIRED_COMPONENTS_UNAVAILABLE, False, False, False)"
| "blocked_response BLOCKED_DEPENDENCIES = (NOTICE_REQUIRED_COMPONENTS_UNAVAILABLE, False, False, False)"
| "blocked_response BLOCKED_PROFILE_MISSING = (NOTICE_PROFILE_MISSING, True, False, False)"
| "blocked_response BLOCKED_PROFILE_ACTIVATION = (NOTICE_PROFILE_ACTIVATION_BLOCKED, False, False, False)"
| "blocked_response BLOCKED_PROFILE_REMOVAL = (NOTICE_PROFILE_REMOVAL_BLOCKED, True, False, False)"
| "blocked_response BLOCKED_RUNTIME_UNKNOWN = (NOTICE_WAIT_FOR_RUNTIME_REFRESH, False, True, False)"
| "blocked_response BLOCKED_CONFLICT = (NOTICE_INTERFACE_EXTERNALLY_MANAGED, False, False, True)"
| "blocked_response BLOCKED_MANUAL_CLEANUP = (NOTICE_CLEANUP_UNCONFIRMED, False, False, True)"
| "blocked_response BLOCKED_ALREADY_IN_STATE = (NOTICE_NONE, False, False, True)"
| "blocked_response BLOCKED_NONE = (NOTICE_NONE, False, False, False)"
| "blocked_response BLOCKED_BUSY = (NOTICE_NONE, False, False, False)"

definition operation_is_allowed ::
    "'x controller_env \<Rightarrow> backend_operation \<Rightarrow> string option \<Rightarrow> bool \<Rightarrow> 'x controller_scheme \<Rightarrow>
     bool \<times> 'x controller_scheme" where
  "operation_is_allowed C operation name continuing w =
     (let availability = operation_availability operation name continuing w
      in if av_allowed availability then (True, w)
         else
           let (notice, refresh_profiles, refresh_runtime, refresh_rows) =
                 blocked_response (av_blocked_reason availability);
               w1 = (if notice \<noteq> NOTICE_NONE then emit_notice C notice operation 0 IMPORT_ERROR_NONE name w else w);
               w2 = (if refresh_profiles then controller_request_inventory C True w1
                     else if refresh_runtime then ce_runtime C (Rt_Refresh REFRESH_VISIBLE) w1
                     else w1);
               w3 = (if refresh_rows then emit_changed C 1 (controller_rebuild w2) else w2)
           in (False, w3))"

section \<open>Activities\<close>

definition begin_activity ::
    "'x controller_env \<Rightarrow> backend_operation \<Rightarrow> activity \<Rightarrow> string option \<Rightarrow> 'x controller_scheme \<Rightarrow>
     bool \<times> 'x controller_scheme" where
  "begin_activity C operation activity name w =
     (if \<not> controller_is_running w \<or> activity = ACTIVITY_IDLE \<or> c_activity w \<noteq> ACTIVITY_IDLE \<or>
         c_activity_id w = G_MAXUINT64 then (False, w)
      else
        let (allowed, w1) = operation_is_allowed C operation name False w
        in if \<not> allowed then (False, w1)
           else
             let activity_id = c_activity_id w1 + 1;
                 w2 = w1\<lparr>c_activity_id := activity_id, c_activity := activity, c_activity_name := name\<rparr>;
                 w3 = (if activity = ACTIVITY_UP then w2\<lparr>inv_model := begin_switch (inv_model w2)\<rparr> else w2);
                 w4 = emit_changed C 1 (controller_rebuild (inventory_set_suspended (inventory_env C) True w3))
             in (activity_matches activity_id w4 \<and> c_activity w4 = activity, w4))"

definition transition_activity ::
    "'x controller_env \<Rightarrow> nat \<Rightarrow> activity \<Rightarrow> string option \<Rightarrow> 'x controller_scheme \<Rightarrow>
     bool \<times> 'x controller_scheme" where
  "transition_activity C activity_id activity name w =
     (if \<not> activity_matches activity_id w \<or> activity = ACTIVITY_IDLE then (False, w)
      else
        let w1 = emit_changed C 1 (controller_rebuild (w\<lparr>c_activity := activity, c_activity_name := name\<rparr>))
        in (activity_matches activity_id w1 \<and> c_activity w1 = activity, w1))"

definition finish_activity ::
    "'x controller_env \<Rightarrow> nat \<Rightarrow> nat \<Rightarrow> 'x controller_scheme \<Rightarrow> 'x controller_scheme" where
  "finish_activity C activity_id changed_delay_ms w =
     (if \<not> activity_matches activity_id w then w
      else
        let w1 = emit_changed C changed_delay_ms (controller_rebuild
              (w\<lparr>c_activity := ACTIVITY_IDLE, c_verification_pending := False, c_activity_name := None\<rparr>))
        in if \<not> controller_is_running w1 then w1
           else
             let w2 = ce_runtime C Rt_Ensure w1
             in if c_activity w2 = ACTIVITY_IDLE then inventory_set_suspended (inventory_env C) False w2 else w2)"

section \<open>Authorization\<close>

definition is_interaction :: "activity \<Rightarrow> bool" where
  "is_interaction activity \<longleftrightarrow>
     activity = ACTIVITY_IMPORT_SELECT \<or> activity = ACTIVITY_IMPORT_LOAD \<or>
     activity = ACTIVITY_REPLACE_CONFIRM \<or> activity = ACTIVITY_DELETE_CONFIRM"

text \<open>An interaction is retired before cancellation or the user interface can respond.\<close>

definition retire_interaction :: "'x controller_scheme \<Rightarrow> 'x controller_scheme" where
  "retire_interaction w =
     (if is_interaction (c_activity w)
      then w\<lparr>c_activity := ACTIVITY_IDLE, c_activity_name := None, c_pending_confirmation := None\<rparr>
      else w)"

text \<open>The steps of a loss of authorization, from the point where the flag has been cleared.\<close>

definition lose_authorization :: "'x controller_env \<Rightarrow> bool \<Rightarrow> 'x controller_scheme \<Rightarrow> 'x controller_scheme" where
  "lose_authorization C lost w =
     (let operation = (if c_activity w = ACTIVITY_DELETE_CONFIRM then BACKEND_DELETE else BACKEND_IMPORT);
          cancelled = is_interaction (c_activity w);
          w2 = ce_runtime C (Rt_Enable False) (retire_interaction w);
          w3 = (if c_verification_pending w2 then finish_activity C (c_activity_id w2) 1 w2 else w2);
          w4 = inventory_set_authorized (inventory_env C) False w3;
          w5 = inventory_set_suspended (inventory_env C) (c_activity w4 \<noteq> ACTIVITY_IDLE) w4;
          w6 = (if lost then snd (emit_ui_request C UI_DISMISS_ALL 0 None False w5) else w5)
      in if cancelled \<and> \<not> c_authorized w6
         then emit_notice C NOTICE_AUTHORIZATION_UNAVAILABLE operation 0 IMPORT_ERROR_NONE None w6
         else w6)"

definition controller_set_authorized ::
    "'x controller_env \<Rightarrow> bool \<Rightarrow> 'x controller_scheme \<Rightarrow> 'x controller_scheme" where
  "controller_set_authorized C auth w =
     (let changed = (c_authorized w \<noteq> auth \<or> \<not> auth \<and> is_interaction (c_activity w));
          lost = (c_authorized w \<noteq> auth \<and> \<not> auth);
          w1 = w\<lparr>c_authorized := auth\<rparr>;
          w2 = (if \<not> auth then lose_authorization C lost w1
                else inventory_set_authorized (inventory_env C) True w1)
      in if \<not> changed then w2
         else
           let w3 = emit_changed C 1 (controller_rebuild w2)
           in if \<not> controller_is_running w3 \<or> \<not> auth \<or> \<not> c_authorized w3 then w3
              else controller_request_inventory C True (ce_runtime C (Rt_Enable True) w3))"

definition backend_authorization_changed ::
    "'x controller_env \<Rightarrow> bool \<Rightarrow> 'x controller_scheme \<Rightarrow> 'x controller_scheme" where
  "backend_authorization_changed C auth w =
     (if controller_is_running w then controller_set_authorized C auth w else w)"

definition runtime_source_changed :: "'x controller_env \<Rightarrow> 'x controller_scheme \<Rightarrow> 'x controller_scheme" where
  "runtime_source_changed C w =
     (if controller_is_running w \<and> c_verification_pending w \<and>
         (\<not> c_authorized w \<or> \<not> runtime_source_is_checking w)
      then finish_activity C (c_activity_id w) 1 w
      else if controller_is_running w \<and> c_authorized w then emit_changed C 1 (controller_rebuild w)
      else w)"

section \<open>Service actions\<close>

definition is_mutation :: "backend_operation \<Rightarrow> bool" where
  "is_mutation operation \<longleftrightarrow> operation \<in> {BACKEND_IMPORT, BACKEND_REPLACE, BACKEND_DELETE}"

definition needs_verification :: "activity \<Rightarrow> bool" where
  "needs_verification activity \<longleftrightarrow>
     activity \<in> {ACTIVITY_UP, ACTIVITY_DOWN, ACTIVITY_DELETE, ACTIVITY_IMPORT, ACTIVITY_REPLACE}"

definition complete_mutation_action_with_purpose ::
    "'x controller_env \<Rightarrow> service_action \<Rightarrow> nat \<Rightarrow> refresh_purpose \<Rightarrow> 'x controller_scheme \<Rightarrow>
     'x controller_scheme" where
  "complete_mutation_action_with_purpose C action inventory_delay_ms purpose w =
     (if \<not> service_action_matches action w then w
      else
        let w1 = (if is_mutation (sa_operation action)
                  then inventory_queue_refresh (inventory_env C) inventory_delay_ms purpose w else w);
            w2 = w1\<lparr>c_verification_pending := needs_verification (c_activity w1)\<rparr>;
            w3 = ce_runtime C (Rt_Refresh purpose) w2
        in if \<not> c_verification_pending w3 \<or> \<not> c_authorized w3 \<or> \<not> runtime_source_is_checking w3
           then finish_activity C (sa_activity_id action) 400 w3 else w3)"

definition complete_mutation_action ::
    "'x controller_env \<Rightarrow> service_action \<Rightarrow> nat \<Rightarrow> 'x controller_scheme \<Rightarrow> 'x controller_scheme" where
  "complete_mutation_action C action inventory_delay_ms w =
     complete_mutation_action_with_purpose C action inventory_delay_ms REFRESH_VISIBLE w"

definition complete_mutation_without_inventory ::
    "'x controller_env \<Rightarrow> service_action \<Rightarrow> 'x controller_scheme \<Rightarrow> 'x controller_scheme" where
  "complete_mutation_without_inventory C action w =
     (if service_action_matches action w then finish_activity C (sa_activity_id action) 1 w else w)"

definition confirmation_is_pending :: "ui_event_type \<Rightarrow> nat \<Rightarrow> 'x controller_scheme \<Rightarrow> bool" where
  "confirmation_is_pending confirmation activity_id w \<longleftrightarrow>
     confirmation_matches confirmation activity_id w \<and> c_authorized w"

definition confirmation_unavailable ::
    "'x controller_env \<Rightarrow> service_action \<Rightarrow> string option \<Rightarrow> ui_event_type \<Rightarrow> 'x controller_scheme \<Rightarrow>
     'x controller_scheme" where
  "confirmation_unavailable C action name type w =
     (let unavailable = (if type = UI_CONFIRM_REPLACE then NOTICE_REPLACEMENT_CONFIRMATION_UNAVAILABLE
                         else NOTICE_REMOVAL_CONFIRMATION_UNAVAILABLE);
          w1 = emit_notice C unavailable (sa_operation action) 0 IMPORT_ERROR_NONE name w
      in if type = UI_CONFIRM_REPLACE then complete_mutation_action C action 400 w1
         else finish_activity C (sa_activity_id action) 1 w1)"

text \<open>From the point where the confirmation is known to be available.\<close>

definition present_confirmation ::
    "'x controller_env \<Rightarrow> service_action \<Rightarrow> ui_event_type \<Rightarrow> activity \<Rightarrow> 'x controller_scheme \<Rightarrow>
     bool \<times> 'x controller_scheme" where
  "present_confirmation C action type activity w =
     (let activity_id = sa_activity_id action;
          w1 = w\<lparr>c_pending_confirmation := Some action\<rparr>;
          (entered, w2) = (if c_activity w1 \<noteq> activity
             then transition_activity C activity_id activity (sa_name action) w1 else (True, w1))
      in if \<not> entered then
           (False, case c_pending_confirmation w2 of
              Some a \<Rightarrow> if sa_activity_id a = activity_id then w2\<lparr>c_pending_confirmation := None\<rparr> else w2
            | None \<Rightarrow> w2)
         else if \<not> confirmation_is_pending type activity_id w2 then (False, w2)
         else
           let (available, w3) = emit_ui_request C type activity_id (sa_name action) False w2
           in if \<not> confirmation_matches type activity_id w3 then (available, w3)
              else if available then (True, w3)
              else (False, confirmation_unavailable C (the (c_pending_confirmation w3)) (sa_name action) type
                      (w3\<lparr>c_pending_confirmation := None\<rparr>)))"

definition request_confirmation ::
    "'x controller_env \<Rightarrow> service_action \<Rightarrow> ui_event_type \<Rightarrow> activity \<Rightarrow> 'x controller_scheme \<Rightarrow>
     bool \<times> 'x controller_scheme" where
  "request_confirmation C action type activity w =
     (if \<not> service_action_matches action w then (False, w)
      else
        let (available, w1) =
              (if c_authorized w then emit_ui_request C type 0 (sa_name action) True w else (False, w))
        in if \<not> service_action_matches action w1 then (False, w1)
           else if \<not> c_authorized w1 then
             (False, complete_mutation_without_inventory C action
                (emit_notice C NOTICE_AUTHORIZATION_UNAVAILABLE (sa_operation action) 0 IMPORT_ERROR_NONE None w1))
           else if \<not> available then (False, confirmation_unavailable C action (sa_name action) type w1)
           else present_confirmation C action type activity w1)"

section \<open>Results\<close>

definition CONTROLLER_RECHECK_DELAY_MSEC :: nat where "CONTROLLER_RECHECK_DELAY_MSEC = 2000"

text \<open>What every kind of failure is answered with; the action matches and the mutation is over.\<close>

definition service_failure ::
    "'x controller_env \<Rightarrow> service_action \<Rightarrow> backend_result \<Rightarrow> 'x controller_scheme \<Rightarrow> 'x controller_scheme" where
  "service_failure C action res w =
     (let notice = (\<lambda>n. emit_notice C n (sa_operation action) 0 IMPORT_ERROR_NONE (sa_name action));
          retry = inventory_schedule_retry (inventory_env C) REFRESH_VISIBLE;
          reachable = inventory_set_service_reachable (inventory_env C)
      in case result_kind res of
        RESULT_CANCELLED \<Rightarrow> complete_mutation_without_inventory C action w
      | RESULT_TIMED_OUT \<Rightarrow>
          complete_mutation_action C action CONTROLLER_RECHECK_DELAY_MSEC (notice NOTICE_OPERATION_TIMED_OUT w)
      | RESULT_BUS_UNAVAILABLE \<Rightarrow>
          complete_mutation_action C action 400 (notice NOTICE_SERVICE_CONNECT_FAILED (retry (reachable False w)))
      | RESULT_NOT_AUTHORIZED \<Rightarrow>
          complete_mutation_without_inventory C action (notice NOTICE_AUTHORIZATION_UNAVAILABLE
            (ce_invalidate_authorization C (reachable (service_replied res) w)))
      | RESULT_BUSY \<Rightarrow>
          complete_mutation_action C action CONTROLLER_RECHECK_DELAY_MSEC
            (notice NOTICE_SERVICE_BUSY (reachable (service_replied res) w))
      | _ \<Rightarrow>
          complete_mutation_action C action 400
            (notice NOTICE_SERVICE_FAILED (retry (reachable (service_replied res) w))))"

text \<open>A reply of success: the row sources are updated before the runtime callbacks rebuild the rows.\<close>

definition retire_deleted ::
    "'x controller_env \<Rightarrow> service_action \<Rightarrow> 'x controller_scheme \<Rightarrow> 'x controller_scheme" where
  "retire_deleted C action w =
     (if sa_operation action \<noteq> BACKEND_DELETE then w
      else
        let w1 = w\<lparr>inv_model := (case sa_name action of Some n \<Rightarrow> record_delete (inv_model w) n | None \<Rightarrow> inv_model w),
                   c_activity_name := None\<rparr>
        in sync_runtime_profile_names C REFRESH_RECONCILE (ce_runtime C (Rt_Delete (sa_name action)) w1))"

definition promote_imported ::
    "'x controller_env \<Rightarrow> service_action \<Rightarrow> 'x controller_scheme \<Rightarrow> 'x controller_scheme" where
  "promote_imported C action w =
     (if service_action_matches action w \<and> c_authorized w \<and>
         sa_operation action \<in> {BACKEND_IMPORT, BACKEND_REPLACE}
      then controller_rebuild (sync_runtime_profile_names C REFRESH_RECONCILE
        (w\<lparr>inv_model := (case sa_name action of Some n \<Rightarrow> record_import (inv_model w) n | None \<Rightarrow> inv_model w)\<rparr>))
      else w)"

definition service_success ::
    "'x controller_env \<Rightarrow> service_action \<Rightarrow> 'x controller_scheme \<Rightarrow> 'x controller_scheme" where
  "service_success C action w =
     (let w1 = emit_notice C NOTICE_OPERATION_SUCCEEDED (sa_operation action) 0 IMPORT_ERROR_NONE (sa_name action)
                 (promote_imported C action (retire_deleted C action w))
      in if sa_operation action = BACKEND_DELETE then
           complete_mutation_without_inventory C action
             (inventory_queue_refresh (inventory_env C) 400 REFRESH_RECONCILE w1)
         else complete_mutation_action_with_purpose C action 400
           (if sa_operation action \<in> {BACKEND_IMPORT, BACKEND_REPLACE} then REFRESH_RECONCILE else REFRESH_VISIBLE) w1)"

definition helper_failure ::
    "'x controller_env \<Rightarrow> service_action \<Rightarrow> nat \<Rightarrow> 'x controller_scheme \<Rightarrow> 'x controller_scheme" where
  "helper_failure C action status w =
     (let w1 = emit_notice C NOTICE_HELPER_FAILED (sa_operation action) status IMPORT_ERROR_NONE (sa_name action) w;
          recheck = (status = helper_exit_code HELPER_NOT_FOUND \<or> status = helper_exit_code HELPER_INVALID_CONFIG \<or>
            status = helper_exit_code HELPER_AWG_QUICK_UNAVAILABLE \<or>
            status = helper_exit_code HELPER_CHILD_SETUP_FAILED);
          w2 = (if recheck
                then inventory_queue_refresh (inventory_env C) CONTROLLER_RECHECK_DELAY_MSEC REFRESH_VISIBLE w1
                else w1)
      in complete_mutation_action C action
           (if status = helper_exit_code HELPER_TIMED_OUT then CONTROLLER_RECHECK_DELAY_MSEC else 400) w2)"

definition backend_service_result ::
    "'x controller_env \<Rightarrow> service_action \<Rightarrow> backend_result \<Rightarrow> 'x controller_scheme \<Rightarrow> 'x controller_scheme" where
  "backend_service_result C action res w =
     (if \<not> service_action_matches action w then w
      else
        let w1 = runtime_set_mutation_active False w
        in if result_kind res \<noteq> RESULT_REPLY then service_failure C action res w1
           else
             let w2 = inventory_set_service_reachable (inventory_env C) True w1
             in if result_status res = helper_exit_code HELPER_SUCCESS then service_success C action w2
                else if sa_operation action = BACKEND_IMPORT \<and>
                        result_status res = helper_exit_code HELPER_REPLACE_CONFIRMATION_REQUIRED
                then snd (request_confirmation C action UI_CONFIRM_REPLACE ACTIVITY_REPLACE_CONFIRM w2)
                else helper_failure C action (result_status res) w2)"

section \<open>Dispatch\<close>

text \<open>
  The checks before an action is sent: whether it may be sent, and the state they leave. Each check
  may call back, so the activity is matched again after each.
\<close>

definition dispatch_admission ::
    "'x controller_env \<Rightarrow> service_action \<Rightarrow> 'x controller_scheme \<Rightarrow> bool \<times> 'x controller_scheme" where
  "dispatch_admission C action w =
     (let refuse = (\<lambda>notice w. (False, complete_mutation_without_inventory C action
            (emit_notice C notice (sa_operation action) 0 IMPORT_ERROR_NONE (sa_name action) w)));
          needs_config = (sa_operation action = BACKEND_IMPORT \<or> sa_operation action = BACKEND_REPLACE)
      in if \<not> service_action_matches action w then (False, w)
         else if needs_config \<and> sa_config action = None then refuse NOTICE_CONFIGURATION_UNAVAILABLE w
         else
           let (active, w1) = emit_ui_request C UI_EXTERNAL_INTERACTION_ACTIVE (sa_activity_id action)
                 (sa_name action) False w
           in if active then refuse NOTICE_EXTERNAL_OPERATION_IN_PROGRESS w1
              else if \<not> service_action_matches action w1 then (False, w1)
              else
                let w2 = inventory_preempt (inventory_env C) w1
                in if \<not> service_action_matches action w2 then (False, w2)
                   else if \<not> c_authorized w2 then refuse NOTICE_AUTHORIZATION_UNAVAILABLE w2
                   else
                     let (allowed, w3) =
                           (if sa_operation action \<noteq> BACKEND_DOWN
                            then operation_is_allowed C (sa_operation action) (sa_name action) True w2
                            else (True, w2))
                     in if \<not> allowed then (False, complete_mutation_without_inventory C action w3)
                        else if operation_missing_dependencies (sa_operation action) (sa_name action)
                                  (sa_cleanup_only action) w3 \<noteq> DEPENDENCY_NONE
                        then refuse NOTICE_REQUIRED_COMPONENTS_UNAVAILABLE w3
                        else (True, w3))"

definition dispatch_service_action ::
    "'x controller_env \<Rightarrow> service_action \<Rightarrow> 'x controller_scheme \<Rightarrow> 'x controller_scheme" where
  "dispatch_service_action C action w =
     (let (admitted, w1) = dispatch_admission C action w
      in if \<not> admitted then w1
         else ce_execute C action (runtime_set_mutation_active (is_mutation (sa_operation action)) w1))"

section \<open>Life cycle\<close>

definition controller_new :: "'x controller_scheme \<Rightarrow> 'x controller_scheme" where
  "controller_new w =
     (let m = model_new;
          i = inventory_new m;
          w1 = w\<lparr>inv_model := inv_model i, inv_missing_dependencies := inv_missing_dependencies i,
                inv_capabilities_known := inv_capabilities_known i, refresh_source := refresh_source i,
                source_deadline_us := source_deadline_us i, last_attempt_us := last_attempt_us i,
                retry_attempt := retry_attempt i, dirty := dirty i, dirty_delay_ms := dirty_delay_ms i,
                queued_purpose := queued_purpose i, request_id := request_id i, pending := pending i,
                pending_purpose := pending_purpose i, cancellable := cancellable i,
                inv_authorized := inv_authorized i, enabled := enabled i, suspended := suspended i,
                inv_started := inv_started i, inv_stopping := inv_stopping i\<rparr>
      in (runtime_source_new w1)
           \<lparr>c_changed_set := True, c_ui_event_set := False, c_authorized := False, c_activity := ACTIVITY_IDLE,
            c_activity_name := None, c_activity_id := 0, c_generation := 1, c_pending_confirmation := None,
            c_verification_pending := False, c_started := False, c_stopping := False\<rparr>)"

definition controller_set_ui_event_callback :: "bool \<Rightarrow> 'x controller_scheme \<Rightarrow> 'x controller_scheme" where
  "controller_set_ui_event_callback on w = w\<lparr>c_ui_event_set := on\<rparr>"

definition dismiss_presented_interactions ::
    "'x controller_env \<Rightarrow> 'x controller_scheme \<Rightarrow> 'x controller_scheme" where
  "dismiss_presented_interactions C w =
     (if c_ui_event_set w then snd (ce_ui_event C
        \<lparr>ev_type = UI_DISMISS_ALL, ev_activity_id = 0, ev_notice = NOTICE_NONE, ev_operation = BACKEND_IMPORT,
         ev_import_error = IMPORT_ERROR_NONE, ev_helper_status = 0, ev_name = None,
         ev_availability_probe = False\<rparr> w)
      else w)"

definition controller_stop ::
    "'x controller_env \<Rightarrow> bool \<Rightarrow> 'x controller_scheme \<Rightarrow> 'x controller_scheme" where
  "controller_stop C notify_ui w =
     (if c_stopping w then w
      else
        let w1 = w\<lparr>c_stopping := True, c_started := False,
                   c_activity_id := (if c_activity_id w \<noteq> G_MAXUINT64 then c_activity_id w + 1 else c_activity_id w),
                   c_activity := ACTIVITY_IDLE, c_verification_pending := False, c_activity_name := None,
                   c_authorized := False, c_pending_confirmation := None\<rparr>;
            w2 = runtime_source_stop (ce_backend_stop C (inventory_stop (inventory_env C) w1));
            w3 = (if notify_ui then dismiss_presented_interactions C w2 else w2);
            w4 = w3\<lparr>c_changed_set := False, c_ui_event_set := False\<rparr>
        in bump_generation
             (w4\<lparr>inv_model := rebuild_entries (inv_model w4) False [] False (c_activity w4) None\<rparr>))"

definition controller_start :: "'x controller_env \<Rightarrow> 'x controller_scheme \<Rightarrow> 'x controller_scheme" where
  "controller_start C w =
     (if c_started w \<or> c_stopping w then w
      else ce_backend_start C (ce_runtime C Rt_Start
        (inventory_start (inventory_env C) (w\<lparr>c_started := True\<rparr>))))"

definition controller_set_inventory_enabled ::
    "'x controller_env \<Rightarrow> bool \<Rightarrow> 'x controller_scheme \<Rightarrow> 'x controller_scheme" where
  "controller_set_inventory_enabled C on w =
     (if c_stopping w then w else inventory_set_enabled (inventory_env C) on w)"

definition controller_dup_snapshot :: "'x controller_scheme \<Rightarrow> snapshot" where
  "controller_dup_snapshot w =
     dup_snapshot (inv_model w) (c_generation w) (c_authorized w) (inv_capabilities_known w)
       (inv_missing_dependencies w) (c_activity w) (c_activity_name w) (pending w)
       (runtime_source_is_checking w) (inventory_is_loading w) (runtime_source_is_loading w)"

section \<open>The user's operations\<close>

definition controller_import :: "'x controller_env \<Rightarrow> 'x controller_scheme \<Rightarrow> 'x controller_scheme" where
  "controller_import C w =
     (if \<not> controller_is_running w then w
      else
        let unavailable = emit_notice C NOTICE_IMPORT_CHOOSER_UNAVAILABLE BACKEND_IMPORT 0 IMPORT_ERROR_NONE None;
            (allowed, w1) = operation_is_allowed C BACKEND_IMPORT None False w
        in if \<not> allowed then w1
           else
             let (probed, w2) = emit_ui_request C UI_SELECT_IMPORT 0 None True w1
             in if \<not> probed then unavailable w2
                else
                  let (begun, w3) = begin_activity C BACKEND_IMPORT ACTIVITY_IMPORT_SELECT None w2
                  in if \<not> begun then w3
                     else
                       let activity_id = c_activity_id w3;
                           (selected, w4) = emit_ui_request C UI_SELECT_IMPORT activity_id None False w3
                       in if \<not> selected \<and> activity_matches activity_id w4
                          then finish_activity C activity_id 1 (unavailable w4) else w4)"

definition import_file_selected ::
    "'x controller_env \<Rightarrow> (string \<Rightarrow> string) \<Rightarrow> nat \<Rightarrow> string option \<Rightarrow> 'x controller_scheme \<Rightarrow>
     bool \<times> 'x controller_scheme" where
  "import_file_selected C path_get_basename activity_id filename w =
     (if \<not> activity_matches activity_id w \<or> c_activity w \<noteq> ACTIVITY_IMPORT_SELECT then (False, w)
      else
        let name = interface_from_filename path_get_basename filename
        in if \<not> name_is_valid name
           then (False, finish_activity C activity_id 1
                   (emit_notice C NOTICE_INVALID_IMPORT_FILENAME BACKEND_IMPORT 0 IMPORT_ERROR_NONE None w))
           else transition_activity C activity_id ACTIVITY_IMPORT_LOAD name w)"

definition import_selection_cancelled ::
    "'x controller_env \<Rightarrow> nat \<Rightarrow> 'x controller_scheme \<Rightarrow> 'x controller_scheme" where
  "import_selection_cancelled C activity_id w =
     (if activity_matches activity_id w \<and> c_activity w = ACTIVITY_IMPORT_SELECT
      then finish_activity C activity_id 1 w else w)"

definition import_loaded ::
    "'x controller_env \<Rightarrow> nat \<Rightarrow> bytes option \<Rightarrow> 'x controller_scheme \<Rightarrow> 'x controller_scheme" where
  "import_loaded C activity_id config w =
     (if \<not> activity_matches activity_id w \<or> c_activity w \<noteq> ACTIVITY_IMPORT_LOAD then w
      else
        let action = \<lparr>sa_activity_id = activity_id, sa_name = c_activity_name w, sa_config = config,
                      sa_operation = BACKEND_IMPORT, sa_cleanup_only = False\<rparr>;
            (entered, w1) = transition_activity C activity_id ACTIVITY_IMPORT (sa_name action) w
        in if \<not> entered then w1 else dispatch_service_action C action w1)"

definition import_failed ::
    "'x controller_env \<Rightarrow> nat \<Rightarrow> import_error \<Rightarrow> 'x controller_scheme \<Rightarrow> 'x controller_scheme" where
  "import_failed C activity_id error w =
     (if \<not> activity_matches activity_id w \<or> c_activity w \<noteq> ACTIVITY_IMPORT_LOAD \<or> error = IMPORT_ERROR_NONE then w
      else finish_activity C activity_id 1
        (emit_notice C NOTICE_IMPORT_LOAD_FAILED BACKEND_IMPORT 0 error (c_activity_name w) w))"

definition cancel_import :: "'x controller_env \<Rightarrow> 'x controller_scheme \<Rightarrow> 'x controller_scheme" where
  "cancel_import C w =
     (if \<not> controller_is_running w \<or>
         c_activity w \<noteq> ACTIVITY_IMPORT_SELECT \<and> c_activity w \<noteq> ACTIVITY_IMPORT_LOAD then w
      else finish_activity C (c_activity_id w) 1
        (emit_notice C NOTICE_IMPORT_CANCELLED BACKEND_IMPORT 0 IMPORT_ERROR_NONE (c_activity_name w) w))"

definition controller_set_active ::
    "'x controller_env \<Rightarrow> string option \<Rightarrow> bool \<Rightarrow> 'x controller_scheme \<Rightarrow> 'x controller_scheme" where
  "controller_set_active C name active w =
     (if \<not> controller_is_running w \<or> \<not> name_is_valid name then w
      else
        let operation = (if active then BACKEND_UP else BACKEND_DOWN);
            target = controller_admission_target name w;
            (allowed, w1) = operation_is_allowed C operation name False w
        in if \<not> allowed then w1
           else
             let (begun, w2) =
                   begin_activity C operation (if active then ACTIVITY_UP else ACTIVITY_DOWN) name w1
             in if \<not> begun then w2
                else
                  let action = \<lparr>sa_activity_id = c_activity_id w2, sa_name = name, sa_config = None,
                        sa_operation = operation,
                        sa_cleanup_only = (\<not> active \<and> runtime_state target = RUNTIME_FIREWALL_PENDING)\<rparr>
                  in dispatch_service_action C action
                       (emit_notice C NOTICE_OPERATION_STARTED operation 0 IMPORT_ERROR_NONE name w2))"

definition confirm_delete ::
    "'x controller_env \<Rightarrow> string option \<Rightarrow> 'x controller_scheme \<Rightarrow> 'x controller_scheme" where
  "confirm_delete C name w =
     (if \<not> controller_is_running w \<or> \<not> name_is_valid name then w
      else
        let (allowed, w1) = operation_is_allowed C BACKEND_DELETE name False w
        in if \<not> allowed then w1
           else
             let (probed, w2) = emit_ui_request C UI_CONFIRM_DELETE 0 name True w1
             in if \<not> probed
                then emit_notice C NOTICE_REMOVAL_CONFIRMATION_UNAVAILABLE BACKEND_DELETE 0 IMPORT_ERROR_NONE name w2
                else
                  let (begun, w3) = begin_activity C BACKEND_DELETE ACTIVITY_DELETE_CONFIRM name w2
                  in if \<not> begun then w3
                     else snd (request_confirmation C
                       \<lparr>sa_activity_id = c_activity_id w3, sa_name = name, sa_config = None,
                        sa_operation = BACKEND_DELETE, sa_cleanup_only = False\<rparr>
                       UI_CONFIRM_DELETE ACTIVITY_DELETE_CONFIRM w3))"

text \<open>The answer to a confirmation that matches; the action has been taken out of the state.\<close>

definition answer_replace ::
    "'x controller_env \<Rightarrow> service_action \<Rightarrow> nat \<Rightarrow> bool \<Rightarrow> 'x controller_scheme \<Rightarrow> 'x controller_scheme" where
  "answer_replace C action activity_id confirmed w =
     (if \<not> confirmed then complete_mutation_action C action 400 w
      else
        let (allowed, w1) = operation_is_allowed C BACKEND_REPLACE (sa_name action) True w
        in if \<not> allowed then complete_mutation_action C action 400 w1
           else
             let action' = action\<lparr>sa_operation := BACKEND_REPLACE\<rparr>;
                 (entered, w2) = transition_activity C activity_id ACTIVITY_REPLACE (sa_name action') w1
             in if \<not> entered then w2 else dispatch_service_action C action' w2)"

definition answer_delete ::
    "'x controller_env \<Rightarrow> service_action \<Rightarrow> nat \<Rightarrow> bool \<Rightarrow> 'x controller_scheme \<Rightarrow> 'x controller_scheme" where
  "answer_delete C action activity_id confirmed w =
     (if \<not> confirmed then finish_activity C activity_id 1 w
      else
        let (allowed, w1) = operation_is_allowed C BACKEND_DELETE (sa_name action) True w
        in if \<not> allowed then complete_mutation_without_inventory C action w1
           else
             let (entered, w2) = transition_activity C activity_id ACTIVITY_DELETE (sa_name action) w1
             in if \<not> entered then w2
                else dispatch_service_action C action
                  (emit_notice C NOTICE_OPERATION_STARTED BACKEND_DELETE 0 IMPORT_ERROR_NONE (sa_name action) w2))"

definition confirmation_response ::
    "'x controller_env \<Rightarrow> ui_event_type \<Rightarrow> nat \<Rightarrow> bool \<Rightarrow> 'x controller_scheme \<Rightarrow> 'x controller_scheme" where
  "confirmation_response C confirmation activity_id confirmed w =
     (if \<not> confirmation_matches confirmation activity_id w then w
      else
        let action = the (c_pending_confirmation w);
            w1 = w\<lparr>c_pending_confirmation := None\<rparr>
        in if confirmation = UI_CONFIRM_REPLACE then answer_replace C action activity_id confirmed w1
           else answer_delete C action activity_id confirmed w1)"

end
