(* ===== verification/Inventory_Frame.thy ===== *)
theory Inventory_Frame
  imports Inventory
begin

text \<open>
  What the operations of \<open>amneziawg/inventory.c\<close> leave alone: apart from the callbacks, they change
  nothing outside the inventory, do not stop it, suspend it or authorize it. So a relation of
  the client's choice that ignores the inventory's other fields and is kept by the callbacks is
  kept by every operation.
\<close>

definition inv_frame :: "'x inventory_scheme \<Rightarrow> 'x inventory_scheme \<Rightarrow> bool" where
  "inv_frame w w' \<longleftrightarrow>
     inventory.more w' = inventory.more w \<and> inv_stopping w' = inv_stopping w \<and> suspended w' = suspended w \<and>
     (inv_authorized w' \<longrightarrow> inv_authorized w)"

lemma inv_frame_refl [simp, intro]: "inv_frame w w"
  by (simp add: inv_frame_def)

lemma inv_frame_trans: "inv_frame a b \<Longrightarrow> inv_frame b c \<Longrightarrow> inv_frame a c"
  by (simp add: inv_frame_def)

named_theorems inv_frames

lemma schedule_frame [inv_frames]: "inv_frame w (schedule_queued_refresh E w)"
  by (simp add: schedule_queued_refresh_def inv_frame_def Let_def)

lemma cancel_source_frame [inv_frames]: "inv_frame w (cancel_refresh_source w)"
  by (simp add: cancel_refresh_source_def inv_frame_def)

lemma drop_request_frame [inv_frames]: "inv_frame w (drop_request w)"
  by (simp add: drop_request_def inv_frame_def)

lemma clear_inventory_frame [inv_frames]: "inv_frame w (clear_inventory w)"
  by (simp add: clear_inventory_def inv_frame_def)

lemma reachable_frame [inv_frames]: "inv_frame w (set_service_reachable r w)"
  by (simp add: set_service_reachable_def inv_frame_def)

lemma mark_dirty_frame [inv_frames]: "inv_frame w (mark_dirty d p w)"
  by (simp add: mark_dirty_def inv_frame_def)

lemmas after_frames = inv_frames [THEN inv_frame_trans [rotated]]

lemma queue_refresh_frame [inv_frames]: "inv_frame w (inventory_queue_refresh E d p w)"
  unfolding inventory_queue_refresh_def Let_def by (auto intro!: after_frames)

lemma schedule_retry_frame [inv_frames]: "inv_frame w (inventory_schedule_retry E p w)"
proof -
  have "inv_frame w (w\<lparr>retry_attempt := n\<rparr>)" for n by (simp add: inv_frame_def)
  then show ?thesis
    unfolding inventory_schedule_retry_def Let_def by (auto intro!: inv_frame_trans [OF _ queue_refresh_frame])
qed

lemma set_enabled_frame [inv_frames]: "inv_frame w (inventory_set_enabled E on w)"
proof -
  have "inv_frame w (w\<lparr>enabled := b\<rparr>)" "inv_frame w (w\<lparr>enabled := b, retry_attempt := 0\<rparr>)" for b
    by (simp_all add: inv_frame_def)
  then show ?thesis
    unfolding inventory_set_enabled_def by (auto intro!: after_frames)
qed

lemma start_frame [inv_frames]: "inv_frame w (inventory_start E w)"
proof -
  have "inv_frame w (w\<lparr>inv_started := True\<rparr>)" by (simp add: inv_frame_def)
  then show ?thesis
    unfolding inventory_start_def by (auto intro!: after_frames)
qed

lemma apply_reply_frame [inv_frames]: "inv_frame w (snd (apply_inventory_reply E res w))"
proof -
  have "inv_frame w (w\<lparr>inv_capabilities_known := k, inv_missing_dependencies := d, inv_model := m\<rparr>)"
    "inv_frame w (w\<lparr>inv_capabilities_known := k, inv_missing_dependencies := d, inv_model := m, retry_attempt := n\<rparr>)"
    for k d m n by (simp_all add: inv_frame_def)
  then show ?thesis
    by (auto simp: apply_inventory_reply_def Let_def intro: inv_frame_trans [OF _ schedule_retry_frame])
qed

lemma apply_failure_frame [inv_frames]: "inv_frame w (apply_inventory_failure E res w)"
proof -
  have "inv_frame w (w\<lparr>inv_model := m\<rparr>)" "inv_frame w ((set_service_reachable r w)\<lparr>inv_model := m\<rparr>)" for m r
    by (simp_all add: inv_frame_def set_service_reachable_def)
  then show ?thesis
    by (cases "result_kind res")
      (auto simp: apply_inventory_failure_def Let_def intro: inv_frame_trans [OF _ schedule_retry_frame])
qed

locale inventory_frame =
  fixes E :: "'x inventory_env" and P :: "'x inventory_scheme \<Rightarrow> 'x inventory_scheme \<Rightarrow> bool"
  assumes P_trans: "P a b \<Longrightarrow> P b d \<Longrightarrow> P a d"
    and P_frame: "inv_frame a b \<Longrightarrow> P a b"
    and P_changed: "P w (ie_changed E c p w)"
    and P_can_dispatch: "ie_can_dispatch E = Some f \<Longrightarrow> P w (snd (f w))"
    and P_cancel: "P w (ie_cancel E token w)"
    and P_execute: "P w (ie_execute E rid w)"
    and P_invalidate: "P w (ie_invalidate_authorization E w)"
begin

lemma P_after: "P w w' \<Longrightarrow> inv_frame w' w'' \<Longrightarrow> P w w''"
  by (rule P_trans [OF _ P_frame])

lemma P_before: "inv_frame w w' \<Longrightarrow> P w' w'' \<Longrightarrow> P w w''"
  by (rule P_trans [OF P_frame])

lemma P_refl: "P w w"
  by (simp add: P_frame)

lemma P_notify: "P w (notify_changed E c p w)"
  by (simp add: notify_changed_def P_changed P_refl)

lemma P_cancel_request: "P w (cancel_request E w)"
  unfolding cancel_request_def
  by (simp add: P_before [OF drop_request_frame P_cancel] P_frame [OF drop_request_frame] split: option.split)

lemma P_reset: "P w (reset_inventory E w)"
  unfolding reset_inventory_def
  by (rule P_after [OF P_before [OF cancel_source_frame P_cancel_request] clear_inventory_frame])

lemma P_unauthorize: "P w (inventory_set_authorized E False w)"
proof -
  have "P w (reset_inventory E (w\<lparr>inv_authorized := False\<rparr>))"
    by (rule P_before [OF _ P_reset]) (simp add: inv_frame_def)
  then show ?thesis
    by (simp add: inventory_set_authorized_def Let_def P_refl P_trans [OF _ P_notify])
qed

lemma P_set_reachable: "P w (inventory_set_service_reachable E r w)"
  by (simp add: inventory_set_service_reachable_def Let_def P_refl P_before [OF reachable_frame P_notify]
      P_frame [OF reachable_frame])

lemma P_finish: "P w (finish_request E rid c w)"
  unfolding finish_request_def Let_def
  by (simp add: P_refl P_after [OF P_before [OF drop_request_frame P_notify] schedule_frame])

lemma P_result: "P w (inventory_result_cb E rid res w)"
proof -
  have "P w (finish_request E rid c (ie_invalidate_authorization E (set_service_reachable r w)))" for c r
    by (rule P_trans [OF P_before [OF reachable_frame P_invalidate] P_finish])
  then show ?thesis
    using P_before [OF apply_reply_frame P_finish] P_before [OF apply_failure_frame P_finish]
    by (auto simp: inventory_result_cb_def P_refl P_finish split: backend_result_kind.split prod.split)
      (metis snd_conv)+
qed

lemma P_dispatch: "P w (dispatch_request E rid w)"
proof -
  have "P w (snd (case ie_can_dispatch E of None \<Rightarrow> (True, w) | Some f \<Rightarrow> f w))"
    using P_can_dispatch by (simp add: P_refl split: option.split)
  then show ?thesis
    by (auto simp: dispatch_request_def P_refl split: prod.split intro: P_trans [OF _ P_finish] P_trans [OF _ P_execute])
qed

lemma P_start_request: "P w (start_request E now p w)"
proof -
  have "P w (w\<lparr>dirty := False, dirty_delay_ms := 0, queued_purpose := REFRESH_RECONCILE\<rparr>)"
    "P w (w\<lparr>dirty := False, dirty_delay_ms := 0, queued_purpose := REFRESH_RECONCILE, request_id := i,
       pending := True, pending_purpose := q, cancellable := c, last_attempt_us := now\<rparr>)" for i q c
    by (rule P_frame, simp add: inv_frame_def)+
  then show ?thesis
    by (auto simp: start_request_def Let_def intro: P_trans [OF P_trans [OF _ P_notify] P_dispatch])
qed

lemma P_request_refresh: "P w (inventory_request_refresh E force p w)"
proof -
  have bump: "inv_frame w (w\<lparr>pending_purpose := q\<rparr>)" "inv_frame w (w\<lparr>queued_purpose := q\<rparr>)" for q
    by (simp_all add: inv_frame_def)
  note cancel = inv_frame_trans [OF bump(2) cancel_source_frame]
  show ?thesis
    unfolding inventory_request_refresh_def Let_def
    by (simp add: P_refl P_frame bump cancel cancel_source_frame queue_refresh_frame P_start_request
        P_before [OF bump(1) P_notify] P_before [OF cancel P_start_request]
        P_before [OF cancel_source_frame P_start_request])
qed

lemma P_timer: "P w (refresh_source_cb E w)"
proof -
  have "inv_frame w (w\<lparr>refresh_source := False, source_deadline_us := 0\<rparr>)"
    "inv_frame w (w\<lparr>refresh_source := False, source_deadline_us := 0, dirty := False, dirty_delay_ms := 0,
       queued_purpose := REFRESH_RECONCILE\<rparr>)" by (simp_all add: inv_frame_def)
  then show ?thesis
    by (auto simp: refresh_source_cb_def Let_def P_frame intro: P_before [OF _ P_request_refresh])
qed

lemma P_preempt:
  assumes "P w (inventory_set_suspended E True w)"
  shows "P w (inventory_preempt E w)"
  unfolding inventory_preempt_def Let_def
  using P_trans [OF assms P_trans [OF P_after [OF P_cancel_request queue_refresh_frame] P_notify]]
  by (auto simp: P_refl assms)

end

end
