(* ===== verification/Controller_Contract.thy ===== *)
theory Controller_Contract
  imports Controller Runtime_Contract Inventory_Frame
begin

text \<open>
  What every operation of \<open>amneziawg/controller.c\<close> keeps, for all user interfaces, backends and
  runtime sources that keep it: the invariants of the inventory and of the runtime source, and
  those of the controller itself.
\<close>

section \<open>The controller's invariants\<close>

definition c_ok :: "'x controller_scheme \<Rightarrow> bool" where
  "c_ok w \<longleftrightarrow>
     \<not> (c_started w \<and> c_stopping w) \<and>
     (c_stopping w \<longrightarrow> \<not> c_authorized w \<and> c_activity w = ACTIVITY_IDLE) \<and>
     (inv_stopping w \<longrightarrow> c_stopping w \<and> \<not> inv_authorized w) \<and> c_activity_id w \<le> G_MAXUINT64"

text \<open>An idle controller has not left the inventory suspended.\<close>

definition c_settled :: "'x controller_scheme \<Rightarrow> bool" where
  "c_settled w \<longleftrightarrow> (\<not> c_stopping w \<and> c_activity w = ACTIVITY_IDLE \<longrightarrow> \<not> suspended w)"

text \<open>The inventory is authorized only if the controller is.\<close>

definition c_auth :: "'x controller_scheme \<Rightarrow> bool" where
  "c_auth w \<longleftrightarrow> (inv_authorized w \<longrightarrow> c_authorized w)"

text \<open>An activity that was begun and is over.\<close>

definition c_retired :: "nat \<Rightarrow> 'x controller_scheme \<Rightarrow> bool" where
  "c_retired i w \<longleftrightarrow> i \<le> c_activity_id w \<and> \<not> (c_activity w \<noteq> ACTIVITY_IDLE \<and> c_activity_id w = i)"

definition c_keeps :: "'x controller_scheme \<Rightarrow> 'x controller_scheme \<Rightarrow> bool" where
  "c_keeps w w' \<longleftrightarrow>
     (c_ok w \<longrightarrow> c_ok w') \<and> (\<forall>i. c_retired i w \<longrightarrow> c_retired i w') \<and>
     c_activity_id w \<le> c_activity_id w' \<and> (c_stopping w \<longrightarrow> c_stopping w') \<and>
     (c_started w \<longrightarrow> c_started w' \<or> c_stopping w')"

text \<open>
  The relation between the states before and after a step, with or without what holds only when no
  operation is under way: that the controller is settled, and that authorizations agree.
\<close>

definition sys_step :: "bool \<Rightarrow> bool \<Rightarrow> 'x controller_scheme \<Rightarrow> 'x controller_scheme \<Rightarrow> bool" where
  "sys_step S A w w' \<longleftrightarrow>
     evolves w w' \<and> rs_evolves w w' \<and> c_keeps w w' \<and>
     (S \<longrightarrow> c_ok w \<and> c_settled w \<longrightarrow> c_settled w') \<and> (A \<longrightarrow> c_ok w \<and> c_auth w \<longrightarrow> c_auth w')"

abbreviation sys_rel :: "'x controller_scheme \<Rightarrow> 'x controller_scheme \<Rightarrow> bool" where
  "sys_rel \<equiv> sys_step True True"

definition c_evolves :: "'x controller_scheme \<Rightarrow> 'x controller_scheme \<Rightarrow> bool" where
  "c_evolves w w' \<longleftrightarrow>
     c_keeps w w' \<and> (c_ok w \<and> c_settled w \<longrightarrow> c_settled w') \<and> (c_ok w \<and> c_auth w \<longrightarrow> c_auth w')"

lemmas c_invs = c_ok_def c_settled_def c_auth_def c_retired_def controller_is_running_def

lemma c_keeps_refl [simp, intro]: "c_keeps w w"
  by (simp add: c_keeps_def)

lemma c_keeps_trans: "c_keeps a b \<Longrightarrow> c_keeps b d \<Longrightarrow> c_keeps a d"
  by (auto simp: c_keeps_def)

lemma c_keeps_ok: "c_keeps w w' \<Longrightarrow> c_ok w \<Longrightarrow> c_ok w'"
  by (simp add: c_keeps_def)

lemma c_evolves_refl [simp, intro]: "c_evolves w w"
  by (simp add: c_evolves_def)

lemma c_evolves_trans: "c_evolves a b \<Longrightarrow> c_evolves b d \<Longrightarrow> c_evolves a d"
  using c_keeps_trans [of a b d] c_keeps_ok [of a b] unfolding c_evolves_def by blast

lemma sys_refl [simp, intro]: "sys_step S A w w"
  by (simp add: sys_step_def)

lemma sys_trans [trans]: "sys_step S A a b \<Longrightarrow> sys_step S A b d \<Longrightarrow> sys_step S A a d"
  using evolves_trans [of a b d] rs_evolves_trans [of a b d] c_keeps_trans [of a b d] c_keeps_ok [of a b]
  unfolding sys_step_def by blast

lemma sys_weaken: "sys_rel w w' \<Longrightarrow> sys_step S A w w'"
  by (simp add: sys_step_def)

lemma sys_ok: "sys_step S A w w' \<Longrightarrow> c_ok w \<Longrightarrow> c_ok w'"
  by (simp add: sys_step_def c_keeps_def)

lemma sys_settled: "sys_step S A w w' \<Longrightarrow> (c_ok w \<Longrightarrow> c_settled w') \<Longrightarrow> sys_step True A w w'"
  unfolding sys_step_def by blast

lemma sys_auth: "sys_step S A w w' \<Longrightarrow> (c_ok w \<Longrightarrow> c_auth w') \<Longrightarrow> sys_step S True w w'"
  unfolding sys_step_def by blast

lemma sys_relI: "evolves w w' \<Longrightarrow> rs_evolves w w' \<Longrightarrow> c_evolves w w' \<Longrightarrow> sys_rel w w'"
  by (simp add: sys_step_def c_evolves_def)

lemma sys_rel_c: "sys_rel w w' \<Longrightarrow> rs_evolves w w' \<and> c_evolves w w'"
  by (simp add: sys_step_def c_evolves_def)

lemma sys_rel_evolves: "sys_rel w w' \<Longrightarrow> evolves w w'"
  by (simp add: sys_step_def)

section \<open>Frames\<close>

text \<open>Steps that change nothing but the controller's own fields.\<close>

definition ctl_own :: "'x controller_scheme \<Rightarrow> 'x controller_scheme \<Rightarrow> bool" where
  "ctl_own w w' \<longleftrightarrow> runtime_source.truncate w' = runtime_source.truncate w"

lemma ctl_own_inventory: "ctl_own w w' \<Longrightarrow> evolves w w'"
  by (auto simp: ctl_own_def runtime_source.truncate_def evolves_def keeps_def inv_ok_def lively_def
      retired_def inventory_is_running_def)

lemma ctl_own_runtime: "ctl_own w w' \<Longrightarrow> rs_evolves w w'"
  by (simp add: ctl_own_def runtime_source.truncate_def rs_evolves_def rs_keeps_def rs_ok_def rs_lively_def
      superseded_def runtime_source_is_running_def)

lemma ctl_own_fields [simp]:
  "ctl_own w (w\<lparr>c_changed_set := b\<rparr>)" "ctl_own w (w\<lparr>c_ui_event_set := b\<rparr>)"
  "ctl_own w (w\<lparr>c_changed_set := b, c_ui_event_set := b'\<rparr>)"
  "ctl_own w (w\<lparr>c_authorized := b\<rparr>)" "ctl_own w (w\<lparr>c_generation := n\<rparr>)"
  "ctl_own w (w\<lparr>c_activity := a, c_activity_name := m\<rparr>)"
  "ctl_own w (w\<lparr>c_activity := a, c_verification_pending := b, c_activity_name := m\<rparr>)"
  "ctl_own w (w\<lparr>c_activity := a, c_activity_name := m, c_pending_confirmation := p\<rparr>)"
  "ctl_own w (w\<lparr>c_activity_id := n, c_activity := a, c_activity_name := m\<rparr>)"
  "ctl_own w (w\<lparr>c_pending_confirmation := p\<rparr>)" "ctl_own w (w\<lparr>c_verification_pending := b\<rparr>)"
  "ctl_own w (w\<lparr>c_activity_name := m\<rparr>)" "ctl_own w (w\<lparr>c_started := b\<rparr>)"
  "ctl_own w (w\<lparr>c_stopping := b, c_started := b', c_activity_id := n, c_activity := a,
     c_verification_pending := b'', c_activity_name := m, c_authorized := b''', c_pending_confirmation := p\<rparr>)"
  by (simp_all add: ctl_own_def runtime_source.truncate_def)

lemma own_rel: "ctl_own w w' \<Longrightarrow> c_evolves w w' \<Longrightarrow> sys_rel w w'"
  by (simp add: sys_relI ctl_own_inventory ctl_own_runtime)

text \<open>Steps that change nothing but the inventory.\<close>

lemma more_runtime:
  fixes w w' :: "'x runtime_source_scheme"
  shows "inventory.more w' = inventory.more w \<Longrightarrow> rs_evolves w w'"
  by (cases w; cases w') (simp add: rs_evolves_def rs_keeps_def rs_ok_def rs_lively_def
      superseded_def runtime_source_is_running_def)

lemma more_controller:
  fixes w w' :: "'x controller_scheme"
  assumes "inventory.more w' = inventory.more w"
  shows "c_started w' = c_started w \<and> c_stopping w' = c_stopping w \<and> c_authorized w' = c_authorized w \<and>
    c_activity w' = c_activity w \<and> c_activity_id w' = c_activity_id w \<and>
    c_verification_pending w' = c_verification_pending w \<and> c_activity_name w' = c_activity_name w \<and>
    c_pending_confirmation w' = c_pending_confirmation w"
  using assms by (cases w; cases w') simp

lemma frame_controller:
  fixes w w' :: "'x controller_scheme"
  shows "inv_frame w w' \<Longrightarrow> c_evolves w w'"
  using more_controller [of w' w] by (auto simp: inv_frame_def c_evolves_def c_keeps_def c_invs)

lemma frame_P:
  fixes w w' :: "'x controller_scheme"
  shows "inv_frame w w' \<Longrightarrow> rs_evolves w w' \<and> c_evolves w w'"
  using frame_controller [of w w'] more_runtime [of w' w] by (simp add: inv_frame_def)

lemma frame_rel:
  fixes w w' :: "'x controller_scheme"
  shows "inv_frame w w' \<Longrightarrow> evolves w w' \<Longrightarrow> sys_rel w w'"
  using frame_P by (blast intro: sys_relI)

text \<open>Steps that change nothing but the runtime source.\<close>

lemma world_rel:
  fixes w w' :: "'x controller_scheme"
  assumes "same_world w w'"
  shows "evolves w w' \<and> c_evolves w w'"
proof -
  have "inventory.truncate w' = inventory.truncate w" "runtime_source.more w' = runtime_source.more w"
    using assms by (simp_all add: same_world_def)
  then show ?thesis
    by (cases w; cases w') (auto simp: inventory.truncate_def evolves_def keeps_def inv_ok_def lively_def
      retired_def inventory_is_running_def c_evolves_def c_keeps_def c_invs)
qed

lemma model_rel: "sys_rel w (w\<lparr>inv_model := m\<rparr>)"
  by (rule frame_rel) (auto simp: inv_frame_def evolves_def keeps_def inventory_invs)

lemma rebuild_rel: "sys_rel w (controller_rebuild w)"
  unfolding controller_rebuild_def by (rule model_rel)

section \<open>The contract of what the controller calls\<close>

locale controller_contract =
  fixes C :: "'x controller_env"
  assumes changed_rel: "sys_rel w (ce_changed C d w)"
    and ui_event_rel: "sys_rel w (snd (ce_ui_event C ev w))"
    and execute_rel: "sys_rel w (ce_execute C action w)"
    and invalidate_rel: "sys_rel w (ce_invalidate_authorization C w)"
    and backend_start_rel: "sys_rel w (ce_backend_start C w)"
    and backend_stop_rel: "sys_rel w (ce_backend_stop C w)"
    and runtime_rel: "sys_rel w (ce_runtime C op w)"
    and list_rel: "sys_rel w (ce_list C rid w)"
    and cancel_rel: "sys_rel w (ce_cancel C token w)"
begin

lemma bump_rel: "sys_rel w (bump_generation w)"
proof (cases "c_generation w = G_MAXUINT64")
  case False
  then have "bump_generation w = w\<lparr>c_generation := c_generation w + 1\<rparr>" by (simp add: bump_generation_def)
  moreover have "sys_rel w (w\<lparr>c_generation := c_generation w + 1\<rparr>)"
    by (rule own_rel) (simp_all add: c_evolves_def c_keeps_def c_invs)
  ultimately show ?thesis by simp
qed (simp add: bump_generation_def)

lemma emit_changed_rel: "sys_rel w (emit_changed C d w)"
  by (auto simp: emit_changed_def Let_def bump_rel intro: sys_trans [OF bump_rel changed_rel])

lemma rebuild_emit_rel: "sys_rel w (emit_changed C d (controller_rebuild w))"
  by (rule sys_trans [OF rebuild_rel emit_changed_rel])

lemma emit_ui_event_rel: "sys_rel w (snd (emit_ui_event C ev w))"
  by (simp add: emit_ui_event_def ui_event_rel)

lemma emit_ui_request_rel: "sys_rel w (snd (emit_ui_request C type i n probe w))"
  by (simp add: emit_ui_request_def emit_ui_event_rel)

lemma ui_request_rel: "emit_ui_request C type i n probe w = (answer, w') \<Longrightarrow> sys_rel w w'"
  using emit_ui_request_rel [of w type i n probe] by simp

lemma emit_notice_rel: "sys_rel w (emit_notice C no op s er n w)"
  by (simp add: emit_notice_def emit_ui_event_rel)

lemma sync_rel: "sys_rel w (sync_runtime_profile_names C p w)"
  by (simp add: sync_runtime_profile_names_def runtime_rel)

lemma inventory_changed_rel: "sys_rel w (inventory_changed C change p w)"
  by (cases change)
    (simp_all add: inventory_changed_def rebuild_emit_rel sys_trans [OF sync_rel rebuild_emit_rel]
      sys_trans [OF runtime_rel rebuild_emit_rel])

lemma can_dispatch_rel: "sys_rel w (snd (inventory_can_dispatch C w))"
  by (auto simp: inventory_can_dispatch_def split: prod.split intro: ui_request_rel)

end

text \<open>The inventory's contract holds of the controller's callbacks, and its operations stay in the frame.\<close>

sublocale controller_contract \<subseteq> inventory: inventory_contract "inventory_env C"
  by unfold_locales
    (auto simp: inventory_env_def intro: sys_rel_evolves inventory_changed_rel can_dispatch_rel cancel_rel
      list_rel invalidate_rel)

sublocale controller_contract \<subseteq> frame: inventory_frame "inventory_env C" "\<lambda>w w'. rs_evolves w w' \<and> c_evolves w w'"
proof unfold_locales
  show "rs_evolves a d \<and> c_evolves a d" if "rs_evolves a b \<and> c_evolves a b" "rs_evolves b d \<and> c_evolves b d"
    for a b d :: "'a controller_scheme"
    using that by (blast intro: rs_evolves_trans c_evolves_trans)
qed (auto simp: inventory_env_def frame_P sys_rel_c inventory_changed_rel can_dispatch_rel cancel_rel
      list_rel invalidate_rel)

context controller_contract
begin

lemma inventory_rel:
  "evolves w w' \<Longrightarrow> rs_evolves w w' \<and> c_evolves w w' \<Longrightarrow> sys_rel w w'"
  by (simp add: sys_relI)

lemmas inventory_rels =
  inventory_rel [OF inventory.request_refresh_evolves frame.P_request_refresh]
  inventory_rel [OF queue_refresh_evolves frame.P_frame [OF queue_refresh_frame]]
  inventory_rel [OF schedule_retry_evolves frame.P_frame [OF schedule_retry_frame]]
  inventory_rel [OF inventory.set_reachable_evolves frame.P_set_reachable]
  inventory_rel [OF inventory.set_authorized_evolves frame.P_unauthorize]
  inventory_rel [OF set_enabled_evolves frame.P_frame [OF set_enabled_frame]]
  inventory_rel [OF start_evolves frame.P_frame [OF start_frame]]
  inventory_rel [OF inventory.result_evolves frame.P_result]

lemma request_inventory_rel: "sys_rel w (controller_request_inventory C force w)"
  by (simp add: controller_request_inventory_def sys_trans [OF runtime_rel inventory_rels(1)])

lemmas simple_rels =
  bump_rel emit_changed_rel rebuild_rel emit_notice_rel emit_ui_request_rel sync_rel runtime_rel
  request_inventory_rel execute_rel invalidate_rel backend_start_rel backend_stop_rel inventory_rels

text \<open>One more step after a state that is already related.\<close>

lemmas after_rels = simple_rels [THEN sys_weaken, THEN sys_trans [rotated]]

lemma operation_is_allowed_rel: "sys_rel w (snd (operation_is_allowed C op n continuing w))"
proof -
  obtain notice profiles_due runtime_due rows_due where r:
    "blocked_response (av_blocked_reason (operation_availability op n continuing w)) =
       (notice, profiles_due, runtime_due, rows_due)"
    by (metis prod.exhaust)
  define w1 where "w1 = (if notice \<noteq> NOTICE_NONE then emit_notice C notice op 0 IMPORT_ERROR_NONE n w else w)"
  define w2 where "w2 = (if profiles_due then controller_request_inventory C True w1
      else if runtime_due then ce_runtime C (Rt_Refresh REFRESH_VISIBLE) w1 else w1)"
  have eq: "snd (operation_is_allowed C op n continuing w) =
      (if av_allowed (operation_availability op n continuing w) then w
       else if rows_due then emit_changed C 1 (controller_rebuild w2) else w2)"
    unfolding operation_is_allowed_def Let_def r prod.case w1_def [symmetric] w2_def [symmetric]
    by (simp only: if_distrib [of snd] snd_conv)
  have "sys_rel w w1" by (simp add: w1_def emit_notice_rel)
  then have "sys_rel w w2" by (simp add: w2_def after_rels)
  then show ?thesis unfolding eq by (simp add: after_rels)
qed

lemma allowed_rel: "operation_is_allowed C op n continuing w = (allowed, w') \<Longrightarrow> sys_rel w w'"
  using operation_is_allowed_rel [of w op n continuing] by simp

lemma allowed_same: "operation_is_allowed C op n continuing w = (True, w') \<Longrightarrow> w' = w"
  by (auto simp: operation_is_allowed_def Let_def split: if_splits prod.splits)

lemma suspend_step: "sys_step False True w (inventory_set_suspended (inventory_env C) s w)"
proof -
  have "inventory.more (inventory_set_suspended (inventory_env C) s w) = inventory.more w \<and>
      inv_stopping (inventory_set_suspended (inventory_env C) s w) = inv_stopping w \<and>
      inv_authorized (inventory_set_suspended (inventory_env C) s w) = inv_authorized w"
    by (simp add: inventory_set_suspended_def schedule_queued_refresh_def Let_def)
  with more_controller [of "inventory_set_suspended (inventory_env C) s w" w]
    more_runtime [of "inventory_set_suspended (inventory_env C) s w" w]
  show ?thesis
    by (simp add: sys_step_def set_suspended_evolves c_keeps_def c_invs)
qed

lemma suspend_settles: "c_ok w \<Longrightarrow> c_settled (inventory_set_suspended (inventory_env C) (c_activity w \<noteq> ACTIVITY_IDLE) w)"
  by (auto simp: inventory_set_suspended_def schedule_queued_refresh_def Let_def c_invs)

lemma resume_settles:
  "c_ok w \<Longrightarrow> c_activity w = ACTIVITY_IDLE \<Longrightarrow> c_settled (inventory_set_suspended (inventory_env C) False w)"
  using suspend_settles [of w] by simp

lemma suspend_activity [simp]: "c_activity (inventory_set_suspended E s w) = c_activity w"
  by (simp add: inventory_set_suspended_def schedule_queued_refresh_def Let_def)

lemma busy_settled: "c_activity w \<noteq> ACTIVITY_IDLE \<Longrightarrow> c_settled w"
  by (simp add: c_settled_def)

lemma suspend_busy: "c_activity w \<noteq> ACTIVITY_IDLE \<Longrightarrow> sys_rel w (inventory_set_suspended (inventory_env C) s w)"
  by (rule sys_settled [OF suspend_step]) (simp add: busy_settled)

lemma begin_activity_rel: "sys_rel w (snd (begin_activity C op a n w))"
proof (cases "\<not> controller_is_running w \<or> a = ACTIVITY_IDLE \<or> c_activity w \<noteq> ACTIVITY_IDLE \<or> c_activity_id w = G_MAXUINT64")
  case False
  obtain allowed w1 where r: "operation_is_allowed C op n False w = (allowed, w1)" by (metis prod.exhaust)
  show ?thesis
  proof (cases allowed)
    case True
    with r have w1: "w1 = w" by (simp add: allowed_same)
    define w2 where "w2 = w\<lparr>c_activity_id := c_activity_id w + 1, c_activity := a, c_activity_name := n\<rparr>"
    define w3 where "w3 = (if a = ACTIVITY_UP then w2\<lparr>inv_model := begin_switch (inv_model w2)\<rparr> else w2)"
    have "sys_rel w w2" unfolding w2_def
      by (rule own_rel) (use False in \<open>auto simp: c_evolves_def c_keeps_def c_invs\<close>)
    then have "sys_rel w w3" by (simp add: w3_def sys_trans [OF _ model_rel])
    moreover have "c_activity w3 \<noteq> ACTIVITY_IDLE" using False by (simp add: w3_def w2_def)
    ultimately have "sys_rel w (inventory_set_suspended (inventory_env C) True w3)"
      by (blast intro: sys_trans suspend_busy)
    then have "sys_rel w (emit_changed C 1 (controller_rebuild (inventory_set_suspended (inventory_env C) True w3)))"
      by (intro after_rels)
    moreover have "snd (begin_activity C op a n w) =
        emit_changed C 1 (controller_rebuild (inventory_set_suspended (inventory_env C) True w3))"
      using False True by (simp add: begin_activity_def r w1 w2_def w3_def Let_def)
    ultimately show ?thesis by simp
  next
    case refused: False
    then show ?thesis using False allowed_rel [OF r] by (simp add: begin_activity_def r)
  qed
qed (simp add: begin_activity_def)

lemma transition_rel: "sys_rel w (snd (transition_activity C i a n w))"
proof (cases "\<not> activity_matches i w \<or> a = ACTIVITY_IDLE")
  case False
  have "sys_rel w (w\<lparr>c_activity := a, c_activity_name := n\<rparr>)"
    by (rule own_rel) (use False in \<open>auto simp: c_evolves_def c_keeps_def c_invs activity_matches_def\<close>)
  then have "sys_rel w (emit_changed C 1 (controller_rebuild (w\<lparr>c_activity := a, c_activity_name := n\<rparr>)))"
    by (intro after_rels)
  with False show ?thesis by (simp add: transition_activity_def Let_def)
qed (simp add: transition_activity_def)

lemma finish_rel: "sys_rel w (finish_activity C i d w)"
proof (cases "activity_matches i w")
  case True
  define w0 where "w0 = w\<lparr>c_activity := ACTIVITY_IDLE, c_verification_pending := False, c_activity_name := None\<rparr>"
  define w1 where "w1 = emit_changed C d (controller_rebuild w0)"
  define w2 where "w2 = ce_runtime C Rt_Ensure w1"
  define w3 where "w3 = (if c_activity w2 = ACTIVITY_IDLE then inventory_set_suspended (inventory_env C) False w2 else w2)"
  have eq: "finish_activity C i d w = (if controller_is_running w1 then w3 else w1)"
    using True by (simp add: finish_activity_def Let_def w0_def [symmetric] w1_def [symmetric] w2_def [symmetric] w3_def)
  have "sys_step False True w w0"
    using ctl_own_inventory [of w w0] ctl_own_runtime [of w w0]
    by (auto simp: w0_def sys_step_def c_keeps_def c_invs)
  then have s1: "sys_step False True w w1" unfolding w1_def by (intro after_rels)
  then have s2: "sys_step False True w w2" unfolding w2_def by (intro after_rels)
  have s3: "sys_step False True w w3" using sys_trans [OF s2 suspend_step] s2 by (simp add: w3_def)
  have "c_settled w3" if "c_ok w"
    using resume_settles [OF sys_ok [OF s2 that]] busy_settled [of w2] by (simp add: w3_def)
  moreover have "c_settled w1" if "\<not> controller_is_running w1"
    using that True s1
    by (auto simp: c_settled_def activity_matches_def controller_is_running_def sys_step_def c_keeps_def)
  ultimately show ?thesis unfolding eq using sys_settled [OF s3] sys_settled [OF s1] by simp
qed (simp add: finish_activity_def)

lemma lose_from:
  assumes "sys_step False False w0 (retire_interaction w)"
  shows "sys_rel w0 (lose_authorization C lost w)"
proof -
  define w1 where "w1 = retire_interaction w"
  define w2 where "w2 = ce_runtime C (Rt_Enable False) w1"
  define w3 where "w3 = (if c_verification_pending w2 then finish_activity C (c_activity_id w2) 1 w2 else w2)"
  define w4 where "w4 = inventory_set_authorized (inventory_env C) False w3"
  define w5 where "w5 = inventory_set_suspended (inventory_env C) (c_activity w4 \<noteq> ACTIVITY_IDLE) w4"
  define w6 where "w6 = (if lost then snd (emit_ui_request C UI_DISMISS_ALL 0 None False w5) else w5)"
  have eq: "lose_authorization C lost w =
      (if is_interaction (c_activity w) \<and> \<not> c_authorized w6
       then emit_notice C NOTICE_AUTHORIZATION_UNAVAILABLE
         (if c_activity w = ACTIVITY_DELETE_CONFIRM then BACKEND_DELETE else BACKEND_IMPORT) 0 IMPORT_ERROR_NONE None w6
       else w6)"
    by (simp only: lose_authorization_def Let_def w1_def w2_def w3_def w4_def w5_def w6_def)
  have "sys_step False False w0 w1" using assms by (simp add: w1_def)
  then have "sys_step False False w0 w2" unfolding w2_def by (intro after_rels)
  then have s3: "sys_step False False w0 w3"
    by (simp add: w3_def sys_trans [OF _ sys_weaken [OF finish_rel]])
  have "c_auth w4" if "c_ok w0"
  proof -
    have ok: "c_ok w3" using sys_ok [OF s3 that] .
    show ?thesis
    proof (cases "inv_stopping w3")
      case True
      then show ?thesis using ok by (simp add: w4_def inventory_set_authorized_def c_invs)
    next
      case False
      define v where "v = w3\<lparr>inv_authorized := False\<rparr>"
      have v: "c_ok v" "c_auth v" using ok by (auto simp: v_def c_invs)
      have "c_evolves v (reset_inventory (inventory_env C) v)" using frame.P_reset by blast
      moreover have "w4 = reset_inventory (inventory_env C) v \<or>
          w4 = notify_changed (inventory_env C) INVENTORY_PROFILES_CHANGED REFRESH_VISIBLE (reset_inventory (inventory_env C) v)"
        using False by (simp add: w4_def inventory_set_authorized_def Let_def v_def)
      ultimately have "c_evolves v w4" using frame.P_notify by (auto intro: c_evolves_trans)
      with v show ?thesis by (simp add: c_evolves_def)
    qed
  qed
  moreover have "sys_step False False w0 w4" using s3 unfolding w4_def by (intro after_rels)
  ultimately have s4: "sys_step False True w0 w4" by (rule sys_auth [rotated])
  then have "sys_step False True w0 w5" unfolding w5_def by (rule sys_trans [OF _ suspend_step])
  moreover have "c_ok w0 \<Longrightarrow> c_settled w5" unfolding w5_def by (rule suspend_settles [OF sys_ok [OF s4]])
  ultimately have "sys_rel w0 w5" by (rule sys_settled)
  then have "sys_rel w0 w6" by (simp add: w6_def after_rels)
  then show ?thesis unfolding eq by (simp add: after_rels)
qed

lemma retire_step: "sys_step False False w (retire_interaction w)"
  using ctl_own_inventory [of w "retire_interaction w"] ctl_own_runtime [of w "retire_interaction w"]
  by (auto simp: retire_interaction_def sys_step_def c_keeps_def c_invs)

lemma lose_rel: "sys_step False False w0 w \<Longrightarrow> sys_rel w0 (lose_authorization C lost w)"
  by (rule lose_from [OF sys_trans [OF _ retire_step]])

lemma authorize_rel:
  assumes "c_authorized w"
  shows "sys_rel w (inventory_set_authorized (inventory_env C) True w)"
proof (cases "inv_stopping w")
  case False
  define v where "v = w\<lparr>inv_authorized := True\<rparr>"
  have "inventory.more v = inventory.more w" by (simp add: v_def)
  then have "c_evolves w v" "rs_evolves w v"
    using False assms more_runtime [of v w] by (auto simp: v_def c_evolves_def c_keeps_def c_invs)
  moreover have "inventory_set_authorized (inventory_env C) True w = schedule_queued_refresh (inventory_env C) v"
    using False by (simp add: inventory_set_authorized_def v_def Let_def)
  ultimately show ?thesis
    using frame.P_frame [OF schedule_frame, of v] inventory.set_authorized_evolves [of w True]
    by (auto intro: sys_relI c_evolves_trans rs_evolves_trans)
qed (simp add: inventory_set_authorized_def)

lemma set_authorized_rel:
  assumes "controller_is_running w"
  shows "sys_rel w (controller_set_authorized C auth w)"
proof -
  define w2 where "w2 = (if \<not> auth then lose_authorization C (c_authorized w \<noteq> auth \<and> \<not> auth) (w\<lparr>c_authorized := auth\<rparr>)
      else inventory_set_authorized (inventory_env C) True (w\<lparr>c_authorized := auth\<rparr>))"
  define w3 where "w3 = emit_changed C 1 (controller_rebuild w2)"
  have eq: "controller_set_authorized C auth w =
      (if \<not> (c_authorized w \<noteq> auth \<or> \<not> auth \<and> is_interaction (c_activity w)) then w2
       else if \<not> controller_is_running w3 \<or> \<not> auth \<or> \<not> c_authorized w3 then w3
       else controller_request_inventory C True (ce_runtime C (Rt_Enable True) w3))"
    by (simp only: controller_set_authorized_def Let_def w2_def w3_def)
  have "sys_rel w w2"
  proof (cases auth)
    case True
    have "sys_rel w (w\<lparr>c_authorized := True\<rparr>)"
      by (rule own_rel) (use assms in \<open>auto simp: c_evolves_def c_keeps_def c_invs\<close>)
    then show ?thesis using True authorize_rel [of "w\<lparr>c_authorized := True\<rparr>"] by (simp add: w2_def sys_trans)
  next
    case False
    have "sys_step False False w (w\<lparr>c_authorized := False\<rparr>)"
      using ctl_own_inventory [of w "w\<lparr>c_authorized := False\<rparr>"] ctl_own_runtime [of w "w\<lparr>c_authorized := False\<rparr>"]
      by (auto simp: sys_step_def c_keeps_def c_invs)
    with False show ?thesis by (simp add: w2_def lose_rel)
  qed
  moreover from this have "sys_rel w w3" unfolding w3_def by (intro after_rels)
  ultimately show ?thesis unfolding eq by (simp add: after_rels)
qed

text \<open>The activity of an interaction that lost its authorization is over.\<close>

lemma lost_interaction_retired:
  assumes "is_interaction (c_activity w)"
  shows "c_retired (c_activity_id w) (controller_set_authorized C False w)"
proof -
  define v where "v = w\<lparr>c_authorized := False\<rparr>"
  have eq: "controller_set_authorized C False w =
      emit_changed C 1 (controller_rebuild (lose_authorization C (c_authorized w) v))"
    using assms by (simp add: controller_set_authorized_def v_def Let_def)
  have "c_retired (c_activity_id w) (retire_interaction v)"
    using assms by (simp add: retire_interaction_def v_def c_retired_def)
  moreover have "sys_rel (retire_interaction v) (lose_authorization C (c_authorized w) v)"
    by (rule lose_from) simp
  then have "sys_rel (retire_interaction v) (controller_set_authorized C False w)"
    unfolding eq by (intro after_rels)
  ultimately show ?thesis by (simp add: sys_step_def c_keeps_def)
qed

lemma authorization_changed_rel: "sys_rel w (backend_authorization_changed C auth w)"
  by (simp add: backend_authorization_changed_def set_authorized_rel)

lemma runtime_source_changed_rel: "sys_rel w (runtime_source_changed C w)"
  by (simp add: runtime_source_changed_def finish_rel rebuild_emit_rel)

lemmas activity_rels = finish_rel transition_rel begin_activity_rel operation_is_allowed_rel

lemmas after_activity = activity_rels [THEN sys_weaken, THEN sys_trans [rotated]]

lemma verification_rel: "sys_rel w (w\<lparr>c_verification_pending := b\<rparr>)"
  by (rule own_rel) (auto simp: c_evolves_def c_keeps_def c_invs)

lemma confirmation_rel: "sys_rel w (w\<lparr>c_pending_confirmation := p\<rparr>)"
  by (rule own_rel) (auto simp: c_evolves_def c_keeps_def c_invs)

lemma complete_rel: "sys_rel w (complete_mutation_action_with_purpose C action d p w)"
proof (cases "service_action_matches action w")
  case True
  define w1 where "w1 = (if is_mutation (sa_operation action)
      then inventory_queue_refresh (inventory_env C) d p w else w)"
  define w3 where "w3 = ce_runtime C (Rt_Refresh p) (w1\<lparr>c_verification_pending := needs_verification (c_activity w1)\<rparr>)"
  have eq: "complete_mutation_action_with_purpose C action d p w =
      (if \<not> c_verification_pending w3 \<or> \<not> c_authorized w3 \<or> \<not> runtime_source_is_checking w3
       then finish_activity C (sa_activity_id action) 400 w3 else w3)"
    using True by (simp only: complete_mutation_action_with_purpose_def Let_def w1_def w3_def not_True_eq_False if_False)
  have "sys_rel w w1" by (simp add: w1_def inventory_rels)
  then have "sys_rel w w3" unfolding w3_def
    by (intro after_rels sys_trans [OF _ verification_rel])
  then show ?thesis unfolding eq by (simp add: after_activity)
qed (simp add: complete_mutation_action_with_purpose_def)

lemma complete_visible_rel: "sys_rel w (complete_mutation_action C action d w)"
  by (simp add: complete_mutation_action_def complete_rel)

lemma complete_without_rel: "sys_rel w (complete_mutation_without_inventory C action w)"
  by (simp add: complete_mutation_without_inventory_def finish_rel)

lemmas after_complete =
  complete_rel [THEN sys_weaken, THEN sys_trans [rotated]]
  complete_visible_rel [THEN sys_weaken, THEN sys_trans [rotated]]
  complete_without_rel [THEN sys_weaken, THEN sys_trans [rotated]]

lemma unavailable_rel: "sys_rel w (confirmation_unavailable C action n type w)"
  by (auto simp: confirmation_unavailable_def Let_def intro!: after_complete after_activity after_rels)

lemma present_rel: "sys_rel w (snd (present_confirmation C action type a w))"
proof -
  define w1 where "w1 = w\<lparr>c_pending_confirmation := Some action\<rparr>"
  obtain entered w2 where r: "(if c_activity w1 \<noteq> a
      then transition_activity C (sa_activity_id action) a (sa_name action) w1 else (True, w1)) = (entered, w2)"
    by (metis prod.exhaust)
  obtain available w3 where u: "emit_ui_request C type (sa_activity_id action) (sa_name action) False w2 = (available, w3)"
    by (metis prod.exhaust)
  define w4 where "w4 = confirmation_unavailable C (the (c_pending_confirmation w3)) (sa_name action) type
      (w3\<lparr>c_pending_confirmation := None\<rparr>)"
  have "sys_rel w1 w2"
    using transition_rel [of w1 "sa_activity_id action" a "sa_name action"] r by (auto split: if_splits)
  then have s2: "sys_rel w w2" using sys_trans [OF confirmation_rel] by (simp add: w1_def)
  then have s3: "sys_rel w w3" using ui_request_rel [OF u] by (rule sys_trans)
  then have s4: "sys_rel w w4" unfolding w4_def by (blast intro: sys_trans confirmation_rel unavailable_rel)
  have "snd (present_confirmation C action type a w) \<in>
      {w2, w2\<lparr>c_pending_confirmation := None\<rparr>, w3, w4}"
    unfolding present_confirmation_def Let_def w1_def [symmetric] r prod.case u w4_def [symmetric]
    by (auto split: option.splits)
  with s2 s3 s4 sys_trans [OF s2 confirmation_rel] show ?thesis by auto
qed

lemma request_confirmation_rel: "sys_rel w (snd (request_confirmation C action type a w))"
proof (cases "service_action_matches action w")
  case True
  obtain available w1 where r: "(if c_authorized w
      then emit_ui_request C type 0 (sa_name action) True w else (False, w)) = (available, w1)"
    by (metis prod.exhaust)
  have s1: "sys_rel w w1" using emit_ui_request_rel [of w type 0 "sa_name action" True] r by (auto split: if_splits)
  define w2 where "w2 = complete_mutation_without_inventory C action
      (emit_notice C NOTICE_AUTHORIZATION_UNAVAILABLE (sa_operation action) 0 IMPORT_ERROR_NONE None w1)"
  have "sys_rel w w2" unfolding w2_def using s1 by (intro after_complete after_rels)
  moreover have "snd (request_confirmation C action type a w) \<in>
      {w1, w2, confirmation_unavailable C action (sa_name action) type w1, snd (present_confirmation C action type a w1)}"
    using True unfolding request_confirmation_def Let_def r prod.case w2_def [symmetric] by simp
  ultimately show ?thesis
    using s1 sys_trans [OF s1 unavailable_rel] sys_trans [OF s1 present_rel] by auto
qed (simp add: request_confirmation_def)

lemma mutation_active_rel: "sys_rel w (runtime_set_mutation_active on w)"
proof -
  have "rs_evolves w (runtime_set_mutation_active on w)"
    by (auto simp: runtime_set_mutation_active_def rs_evolves_def rs_keeps_def runtime_invs)
  moreover have "same_world w (runtime_set_mutation_active on w)"
    by (simp add: runtime_set_mutation_active_def world_defs)
  ultimately show ?thesis using world_rel by (blast intro: sys_relI)
qed

lemma service_failure_rel: "sys_rel w (service_failure C action res w)"
  by (cases "result_kind res")
    (simp_all add: service_failure_def complete_without_rel after_complete after_rels)

lemma retire_rel: "sys_rel w (retire_deleted C action w)"
proof -
  have "sys_rel w (w\<lparr>inv_model := m, c_activity_name := None\<rparr>)" for m
  proof -
    have "sys_rel (w\<lparr>inv_model := m\<rparr>) ((w\<lparr>inv_model := m\<rparr>)\<lparr>c_activity_name := None\<rparr>)"
      by (rule own_rel) (simp_all add: c_evolves_def c_keeps_def c_invs)
    with model_rel show ?thesis by (rule sys_trans)
  qed
  then show ?thesis by (auto simp: retire_deleted_def Let_def intro!: after_rels)
qed

lemma promote_rel: "sys_rel w (promote_imported C action w)"
  by (auto simp: promote_imported_def intro!: after_rels model_rel)

lemma service_success_rel: "sys_rel w (service_success C action w)"
  by (auto simp: service_success_def Let_def
      intro!: after_complete after_rels sys_trans [OF retire_rel promote_rel])

lemma helper_failure_rel: "sys_rel w (helper_failure C action status w)"
  by (auto simp: helper_failure_def Let_def intro!: after_complete after_rels)

lemma service_result_rel: "sys_rel w (backend_service_result C action res w)"
proof (cases "service_action_matches action w")
  case True
  note m = mutation_active_rel [of w False]
  have r: "sys_rel w (inventory_set_service_reachable (inventory_env C) True (runtime_set_mutation_active False w))"
    using m by (intro after_rels)
  from True show ?thesis
    by (simp add: backend_service_result_def Let_def sys_trans [OF m service_failure_rel]
        sys_trans [OF r service_success_rel] sys_trans [OF r request_confirmation_rel]
        sys_trans [OF r helper_failure_rel])
qed (simp add: backend_service_result_def)

lemma preempt_rel: "service_action_matches action w \<Longrightarrow> sys_rel w (inventory_preempt (inventory_env C) w)"
  by (rule inventory_rel [OF inventory.preempt_evolves frame.P_preempt])
    (simp add: sys_rel_c suspend_busy service_action_matches_def activity_matches_def)

lemma admission_rel: "sys_rel w (snd (dispatch_admission C action w))"
proof (cases "service_action_matches action w")
  case True
  define refuse where "refuse = (\<lambda>notice w. complete_mutation_without_inventory C action
      (emit_notice C notice (sa_operation action) 0 IMPORT_ERROR_NONE (sa_name action) w))"
  have refuse: "sys_rel w w' \<Longrightarrow> sys_rel w (refuse notice w')" for w' notice
    unfolding refuse_def by (intro after_complete after_rels)
  obtain active w1 where u: "emit_ui_request C UI_EXTERNAL_INTERACTION_ACTIVE (sa_activity_id action)
      (sa_name action) False w = (active, w1)" by (metis prod.exhaust)
  define w2 where "w2 = inventory_preempt (inventory_env C) w1"
  obtain allowed w3 where r: "(if sa_operation action \<noteq> BACKEND_DOWN
      then operation_is_allowed C (sa_operation action) (sa_name action) True w2 else (True, w2)) = (allowed, w3)"
    by (metis prod.exhaust)
  have s1: "sys_rel w w1" by (rule ui_request_rel [OF u])
  have s2: "sys_rel w w2" if "service_action_matches action w1"
    using sys_trans [OF s1 preempt_rel [OF that]] by (simp add: w2_def)
  have "sys_rel w2 w3" using operation_is_allowed_rel [of w2] r by (auto split: if_splits) (metis snd_conv)
  then have s3: "sys_rel w w3" if "service_action_matches action w1"
    using s2 [OF that] by (rule sys_trans [rotated])
  have "snd (dispatch_admission C action w) \<in> {w, refuse NOTICE_CONFIGURATION_UNAVAILABLE w, w1,
        refuse NOTICE_EXTERNAL_OPERATION_IN_PROGRESS w1} \<or>
      service_action_matches action w1 \<and> snd (dispatch_admission C action w) \<in>
        {w2, refuse NOTICE_AUTHORIZATION_UNAVAILABLE w2, complete_mutation_without_inventory C action w3,
         refuse NOTICE_REQUIRED_COMPONENTS_UNAVAILABLE w3, w3}"
    unfolding dispatch_admission_def Let_def u prod.case w2_def [symmetric] r refuse_def by simp
  then show ?thesis
    using s1 s2 s3 refuse sys_trans [OF _ complete_without_rel] by auto
qed (simp add: dispatch_admission_def Let_def)

lemma dispatch_rel: "sys_rel w (dispatch_service_action C action w)"
proof -
  obtain admitted w1 where r: "dispatch_admission C action w = (admitted, w1)" by (metis prod.exhaust)
  have "sys_rel w w1" using admission_rel [of w action] r by simp
  then show ?thesis
    by (simp add: dispatch_service_action_def r after_rels sys_trans [OF _ mutation_active_rel])
qed

lemmas after_dispatch = dispatch_rel [THEN sys_weaken, THEN sys_trans [rotated]]

lemma import_rel: "sys_rel w (controller_import C w)"
proof -
  obtain allowed w1 where r1: "operation_is_allowed C BACKEND_IMPORT None False w = (allowed, w1)" by (metis prod.exhaust)
  obtain probed w2 where r2: "emit_ui_request C UI_SELECT_IMPORT 0 None True w1 = (probed, w2)" by (metis prod.exhaust)
  obtain begun w3 where r3: "begin_activity C BACKEND_IMPORT ACTIVITY_IMPORT_SELECT None w2 = (begun, w3)" by (metis prod.exhaust)
  obtain selected w4 where r4: "emit_ui_request C UI_SELECT_IMPORT (c_activity_id w3) None False w3 = (selected, w4)" by (metis prod.exhaust)
  have s1: "sys_rel w w1" by (rule allowed_rel [OF r1])
  have s2: "sys_rel w w2" using s1 ui_request_rel [OF r2] by (rule sys_trans)
  have s3: "sys_rel w w3" using sys_trans [OF s2 begin_activity_rel] r3 by (metis snd_conv)
  have s4: "sys_rel w w4" using s3 ui_request_rel [OF r4] by (rule sys_trans)
  show ?thesis
    using s1 s2 s3 s4 by (simp add: controller_import_def r1 r2 r3 r4 Let_def after_rels after_activity)
qed

lemma file_selected_rel: "sys_rel w (snd (import_file_selected C basename i f w))"
  by (simp add: import_file_selected_def Let_def transition_rel after_activity after_rels)

lemma selection_cancelled_rel: "sys_rel w (import_selection_cancelled C i w)"
  by (simp add: import_selection_cancelled_def finish_rel)

lemma transition_dispatch_rel:
  assumes "transition_activity C i a n w = (entered, w1)"
  shows "sys_rel w (if \<not> entered then w1 else dispatch_service_action C action w1)"
    and "sys_rel w (if \<not> entered then w1 else dispatch_service_action C action
      (emit_notice C no op s er m w1))"
  using transition_rel [of w i a n] assms by (simp_all add: after_dispatch after_rels)

lemma loaded_rel: "sys_rel w (import_loaded C i config w)"
proof -
  obtain entered w1 where r: "transition_activity C i ACTIVITY_IMPORT (c_activity_name w) w = (entered, w1)"
    by (metis prod.exhaust)
  show ?thesis using transition_dispatch_rel(1) [OF r] by (simp add: import_loaded_def Let_def r)
qed

lemma failed_rel: "sys_rel w (import_failed C i error w)"
  by (simp add: import_failed_def after_activity after_rels)

lemma cancel_import_rel: "sys_rel w (cancel_import C w)"
  by (simp add: cancel_import_def after_activity after_rels)

lemma set_active_rel: "sys_rel w (controller_set_active C name on w)"
proof -
  define op where "op = (if on then BACKEND_UP else BACKEND_DOWN)"
  obtain allowed w1 where r1: "operation_is_allowed C op name False w = (allowed, w1)" by (metis prod.exhaust)
  obtain begun w2 where r2: "begin_activity C op (if on then ACTIVITY_UP else ACTIVITY_DOWN) name w1 = (begun, w2)"
    by (metis prod.exhaust)
  have s1: "sys_rel w w1" by (rule allowed_rel [OF r1])
  have s2: "sys_rel w w2" using sys_trans [OF s1 begin_activity_rel] r2 by (metis snd_conv)
  show ?thesis
    unfolding controller_set_active_def Let_def op_def [symmetric] r1 r2 prod.case
    using s1 s2 by (simp add: after_dispatch after_rels)
qed

lemma confirm_delete_rel: "sys_rel w (confirm_delete C name w)"
proof -
  obtain allowed w1 where r1: "operation_is_allowed C BACKEND_DELETE name False w = (allowed, w1)" by (metis prod.exhaust)
  obtain probed w2 where r2: "emit_ui_request C UI_CONFIRM_DELETE 0 name True w1 = (probed, w2)" by (metis prod.exhaust)
  obtain begun w3 where r3: "begin_activity C BACKEND_DELETE ACTIVITY_DELETE_CONFIRM name w2 = (begun, w3)" by (metis prod.exhaust)
  have s1: "sys_rel w w1" by (rule allowed_rel [OF r1])
  have s2: "sys_rel w w2" using s1 ui_request_rel [OF r2] by (rule sys_trans)
  have s3: "sys_rel w w3" using sys_trans [OF s2 begin_activity_rel] r3 by (metis snd_conv)
  show ?thesis
    using s1 s2 s3 by (simp add: confirm_delete_def r1 r2 r3 after_rels sys_trans [OF _ request_confirmation_rel])
qed

lemma answer_replace_rel: "sys_rel w (answer_replace C action i confirmed w)"
proof -
  obtain allowed w1 where r1: "operation_is_allowed C BACKEND_REPLACE (sa_name action) True w = (allowed, w1)"
    by (metis prod.exhaust)
  obtain entered w2 where r2: "transition_activity C i ACTIVITY_REPLACE (sa_name action) w1 = (entered, w2)"
    by (metis prod.exhaust)
  have s1: "sys_rel w w1" by (rule allowed_rel [OF r1])
  show ?thesis
    using s1 sys_trans [OF s1 transition_dispatch_rel(1) [OF r2]]
    by (simp add: answer_replace_def r1 r2 complete_visible_rel after_complete Let_def)
qed

lemma answer_delete_rel: "sys_rel w (answer_delete C action i confirmed w)"
proof -
  obtain allowed w1 where r1: "operation_is_allowed C BACKEND_DELETE (sa_name action) True w = (allowed, w1)"
    by (metis prod.exhaust)
  obtain entered w2 where r2: "transition_activity C i ACTIVITY_DELETE (sa_name action) w1 = (entered, w2)"
    by (metis prod.exhaust)
  have s1: "sys_rel w w1" by (rule allowed_rel [OF r1])
  show ?thesis
    using s1 sys_trans [OF s1 transition_dispatch_rel(2) [OF r2]]
    by (simp add: answer_delete_def r1 r2 finish_rel after_complete)
qed

lemma response_rel: "sys_rel w (confirmation_response C type i confirmed w)"
  by (simp add: confirmation_response_def Let_def sys_trans [OF confirmation_rel answer_replace_rel]
      sys_trans [OF confirmation_rel answer_delete_rel])

end

end
