(* ===== verification/Controller_Frame.thy ===== *)
theory Controller_Frame
  imports Controller_Contract
begin

text \<open>
  What the operations of \<open>amneziawg/controller.c\<close> leave alone: any relation between states that
  allows every change of the controller, its inventory and its runtime source, and that the functions
  the controller calls respect, is respected by every operation of the controller.
\<close>

locale controller_frame =
  fixes C :: "'x controller_env" and P :: "'x controller_scheme \<Rightarrow> 'x controller_scheme \<Rightarrow> bool"
  assumes P_trans: "P x y \<Longrightarrow> P y z \<Longrightarrow> P x z"
    and P_more: "controller.more y = controller.more x \<Longrightarrow> P x y"
    and changed: "P w (ce_changed C d w)"
    and ui_event: "P w (snd (ce_ui_event C ev w))"
    and execute: "P w (ce_execute C action w)"
    and invalidate: "P w (ce_invalidate_authorization C w)"
    and backend_start: "P w (ce_backend_start C w)"
    and backend_stop: "P w (ce_backend_stop C w)"
    and runtime: "P w (ce_runtime C op w)"
    and list: "P w (ce_list C rid w)"
    and cancel: "P w (ce_cancel C token w)"
begin

lemma P_refl: "P w w"
  by (simp add: P_more)

lemma own: "P w v \<Longrightarrow> controller.more v' = controller.more v \<Longrightarrow> P w v'"
  by (rule P_trans [OF _ P_more])

lemma own_inventory: "inventory.more b = inventory.more a \<Longrightarrow> P a b"
  by (rule P_more) (cases a; cases b; simp)

lemma framed: "inv_frame a b \<Longrightarrow> P a b"
  by (rule own_inventory) (simp add: inv_frame_def)

lemma world: "same_world a b \<Longrightarrow> P a b"
  by (rule P_more) (cases a; cases b; simp add: same_world_def)

lemma if_step: "P w a \<Longrightarrow> P w b \<Longrightarrow> P w (if c then a else b)"
  by simp

lemma option_step: "P w a \<Longrightarrow> (\<And>x. P w (f x)) \<Longrightarrow> P w (case opt of None \<Rightarrow> a | Some x \<Rightarrow> f x)"
  by (cases opt) simp_all

text \<open>One more step, on a state that is related already.\<close>

lemma updates:
  "P w v \<Longrightarrow> P w (v\<lparr>inv_model := m\<rparr>)" "P w v \<Longrightarrow> P w (v\<lparr>c_authorized := b\<rparr>)"
  "P w v \<Longrightarrow> P w (v\<lparr>c_activity := a\<rparr>)" "P w v \<Longrightarrow> P w (v\<lparr>c_activity_name := n\<rparr>)"
  "P w v \<Longrightarrow> P w (v\<lparr>c_activity_id := i\<rparr>)" "P w v \<Longrightarrow> P w (v\<lparr>c_generation := g\<rparr>)"
  "P w v \<Longrightarrow> P w (v\<lparr>c_pending_confirmation := p\<rparr>)" "P w v \<Longrightarrow> P w (v\<lparr>c_verification_pending := b\<rparr>)"
  "P w v \<Longrightarrow> P w (v\<lparr>c_started := b\<rparr>)" "P w v \<Longrightarrow> P w (v\<lparr>c_stopping := b\<rparr>)"
  "P w v \<Longrightarrow> P w (v\<lparr>c_changed_set := b\<rparr>)" "P w v \<Longrightarrow> P w (v\<lparr>c_ui_event_set := b\<rparr>)"
  by (erule own, cases v, simp)+

lemmas steps = P_refl if_step option_step updates
  changed [THEN P_trans [rotated]] ui_event [THEN P_trans [rotated]] execute [THEN P_trans [rotated]]
  invalidate [THEN P_trans [rotated]] backend_start [THEN P_trans [rotated]] backend_stop [THEN P_trans [rotated]]
  runtime [THEN P_trans [rotated]]

lemmas flat = Let_def case_prod_beta if_distrib [of snd] snd_conv

lemma basic:
  "P w v \<Longrightarrow> P w (bump_generation v)" "P w v \<Longrightarrow> P w (emit_changed C d v)"
  "P w v \<Longrightarrow> P w (controller_rebuild v)" "P w v \<Longrightarrow> P w (snd (emit_ui_event C ev v))"
  "P w v \<Longrightarrow> P w (sync_runtime_profile_names C p v)"
  by (simp_all only: bump_generation_def emit_changed_def controller_rebuild_def emit_ui_event_def
      sync_runtime_profile_names_def flat) (intro steps; assumption)+

lemma emitted:
  "P w v \<Longrightarrow> P w (snd (emit_ui_request C type i n probe v))" "P w v \<Longrightarrow> P w (emit_notice C no op s er n v)"
  by (simp_all only: emit_ui_request_def emit_notice_def basic)

lemma inventory_callbacks:
  "P w (inventory_changed C change p w)" "P w (snd (inventory_can_dispatch C w))"
  by (cases change) (auto simp only: inventory_changed_def inventory_can_dispatch_def flat
      inventory_change.case intro!: steps basic emitted)

end

sublocale controller_frame \<subseteq> frame: inventory_frame "inventory_env C" P
  by unfold_locales
    (auto simp: inventory_env_def P_trans framed inventory_callbacks cancel list invalidate)

context controller_frame
begin

lemma suspend_step: "P w (inventory_set_suspended E b w)"
  by (rule own_inventory) (simp add: inventory_set_suspended_def schedule_queued_refresh_def Let_def)

lemmas inventory_steps =
  frame.P_request_refresh [THEN P_trans [rotated]] frame.P_unauthorize [THEN P_trans [rotated]]
  frame.P_set_reachable [THEN P_trans [rotated]] frame.P_result [THEN P_trans [rotated]]
  frame.P_timer [THEN P_trans [rotated]] frame.P_reset [THEN P_trans [rotated]]
  frame.P_preempt [OF suspend_step, THEN P_trans [rotated]]
  suspend_step [THEN P_trans [rotated]] framed [OF queue_refresh_frame, THEN P_trans [rotated]]
  framed [OF schedule_retry_frame, THEN P_trans [rotated]] framed [OF set_enabled_frame, THEN P_trans [rotated]]
  framed [OF start_frame, THEN P_trans [rotated]]

lemma inventory_authorized: "P w v \<Longrightarrow> P w (inventory_set_authorized (inventory_env C) b v)"
proof (cases b)
  case True
  assume "P w v"
  moreover have "P v (inventory_set_authorized (inventory_env C) True v)"
    by (rule own_inventory) (simp add: inventory_set_authorized_def Let_def schedule_queued_refresh_def)
  ultimately show ?thesis using True by (simp add: P_trans [of w v])
qed (simp add: inventory_steps)

lemma requested: "P w v \<Longrightarrow> P w (controller_request_inventory C force v)"
  by (simp only: controller_request_inventory_def) (intro steps inventory_steps; assumption)

lemmas all_steps = steps basic emitted inventory_steps inventory_authorized requested

text \<open>The operations, in the order of their definitions.\<close>

lemma allowed: "P w v \<Longrightarrow> P w (snd (operation_is_allowed C op n continuing v))"
  by (simp only: operation_is_allowed_def flat) (intro all_steps; assumption)

lemma begun: "P w v \<Longrightarrow> P w (snd (begin_activity C op a n v))"
  by (simp only: begin_activity_def flat) (intro all_steps allowed; assumption)

lemma transitioned: "P w v \<Longrightarrow> P w (snd (transition_activity C i a n v))"
  by (simp only: transition_activity_def flat) (intro all_steps; assumption)

lemma finished: "P w v \<Longrightarrow> P w (finish_activity C i d v)"
  by (simp only: finish_activity_def flat) (intro all_steps; assumption)

lemmas activity_steps = all_steps allowed begun transitioned finished

lemma lost: "P w v \<Longrightarrow> P w (lose_authorization C b v)"
  by (simp only: lose_authorization_def retire_interaction_def flat) (intro activity_steps; assumption)

lemma authorization_set: "P w v \<Longrightarrow> P w (controller_set_authorized C b v)"
  by (simp only: controller_set_authorized_def flat) (intro activity_steps lost; assumption)

lemma authorization_changed: "P w v \<Longrightarrow> P w (backend_authorization_changed C b v)"
  by (simp only: backend_authorization_changed_def) (intro if_step authorization_set; assumption)

lemma runtime_changed: "P w v \<Longrightarrow> P w (runtime_source_changed C v)"
  by (simp only: runtime_source_changed_def) (intro activity_steps; assumption)

lemma completed:
  "P w v \<Longrightarrow> P w (complete_mutation_action_with_purpose C action delay purpose v)"
  by (simp only: complete_mutation_action_with_purpose_def flat) (intro activity_steps; assumption)

lemma completed_visible: "P w v \<Longrightarrow> P w (complete_mutation_action C action delay v)"
  by (simp only: complete_mutation_action_def completed)

lemma completed_without: "P w v \<Longrightarrow> P w (complete_mutation_without_inventory C action v)"
  by (simp only: complete_mutation_without_inventory_def) (intro activity_steps; assumption)

lemmas completion_steps = activity_steps completed completed_visible completed_without

lemma unavailable: "P w v \<Longrightarrow> P w (confirmation_unavailable C action n type v)"
  by (simp only: confirmation_unavailable_def flat) (intro completion_steps; assumption)

lemma presented: "P w v \<Longrightarrow> P w (snd (present_confirmation C action type a v))"
  by (simp only: present_confirmation_def flat) (intro completion_steps unavailable; assumption)

lemma confirmation_requested: "P w v \<Longrightarrow> P w (snd (request_confirmation C action type a v))"
  by (simp only: request_confirmation_def flat) (intro completion_steps unavailable presented; assumption)

lemma mutation_set: "P w v \<Longrightarrow> P w (runtime_set_mutation_active b v)"
  by (erule own) (cases v; simp add: runtime_set_mutation_active_def Let_def)

lemmas service_steps = completion_steps unavailable presented confirmation_requested mutation_set

lemma failed_service: "P w v \<Longrightarrow> P w (service_failure C action res v)"
  by (cases "result_kind res"; simp only: service_failure_def Let_def backend_result_kind.case)
    (intro service_steps invalidate [THEN P_trans [rotated]]; assumption)+

lemma retired_deleted: "P w v \<Longrightarrow> P w (retire_deleted C action v)"
  by (simp only: retire_deleted_def Let_def) (intro service_steps; assumption)

lemma promoted: "P w v \<Longrightarrow> P w (promote_imported C action v)"
  by (simp only: promote_imported_def) (intro service_steps; assumption)

lemma succeeded: "P w v \<Longrightarrow> P w (service_success C action v)"
  by (simp only: service_success_def Let_def) (intro service_steps retired_deleted promoted; assumption)

lemma helper_failed: "P w v \<Longrightarrow> P w (helper_failure C action status v)"
  by (simp only: helper_failure_def Let_def) (intro service_steps; assumption)

lemma service_result: "P w v \<Longrightarrow> P w (backend_service_result C action res v)"
  by (simp only: backend_service_result_def Let_def)
    (intro service_steps failed_service succeeded helper_failed; assumption)

lemma admitted: "P w v \<Longrightarrow> P w (snd (dispatch_admission C action v))"
  by (simp only: dispatch_admission_def flat) (intro service_steps; assumption)

lemma dispatched: "P w v \<Longrightarrow> P w (dispatch_service_action C action v)"
  by (simp only: dispatch_service_action_def flat) (intro service_steps admitted; assumption)

lemma stopped: "P w v \<Longrightarrow> P w (controller_stop C notify_ui v)"
proof -
  have inventory: "P w v \<Longrightarrow> P w (inventory_stop (inventory_env C) v)" for v
    by (simp only: inventory_stop_def Let_def)
      (intro if_step inventory_steps, assumption, erule own, cases v, simp)
  have source: "P w v \<Longrightarrow> P w (runtime_source_stop v)" for v
    by (erule own, cases v, simp add: runtime_source_stop_def clear_monitor_def clear_link_monitor_def Let_def)
  show "P w v \<Longrightarrow> P w (controller_stop C notify_ui v)"
    by (simp only: controller_stop_def dismiss_presented_interactions_def flat)
      (intro service_steps inventory source; assumption)
qed

lemma started: "P w v \<Longrightarrow> P w (controller_start C v)"
  by (simp only: controller_start_def) (intro service_steps; assumption)

lemma callback_set: "P w v \<Longrightarrow> P w (controller_set_ui_event_callback b v)"
  by (simp only: controller_set_ui_event_callback_def updates)

lemma inventory_enabled: "P w v \<Longrightarrow> P w (controller_set_inventory_enabled C b v)"
  by (simp only: controller_set_inventory_enabled_def) (intro service_steps; assumption)

lemmas user_steps = service_steps dispatched

lemma imported: "P w v \<Longrightarrow> P w (controller_import C v)"
  by (simp only: controller_import_def flat) (intro user_steps; assumption)

lemma selected: "P w v \<Longrightarrow> P w (snd (import_file_selected C basename i f v))"
  by (simp only: import_file_selected_def flat) (intro user_steps; assumption)

lemma selection_cancelled: "P w v \<Longrightarrow> P w (import_selection_cancelled C i v)"
  by (simp only: import_selection_cancelled_def) (intro user_steps; assumption)

lemma loaded: "P w v \<Longrightarrow> P w (import_loaded C i config v)"
  by (simp only: import_loaded_def flat) (intro user_steps; assumption)

lemma load_failed: "P w v \<Longrightarrow> P w (import_failed C i error v)"
  by (simp only: import_failed_def) (intro user_steps; assumption)

lemma import_cancelled: "P w v \<Longrightarrow> P w (cancel_import C v)"
  by (simp only: cancel_import_def) (intro user_steps; assumption)

lemma active_set: "P w v \<Longrightarrow> P w (controller_set_active C name b v)"
  by (simp only: controller_set_active_def flat) (intro user_steps; assumption)

lemma delete_requested: "P w v \<Longrightarrow> P w (confirm_delete C name v)"
  by (simp only: confirm_delete_def flat) (intro user_steps; assumption)

lemma responded: "P w v \<Longrightarrow> P w (confirmation_response C type i confirmed v)"
  by (simp only: confirmation_response_def answer_replace_def answer_delete_def flat) (intro user_steps; assumption)

end

end
