(* ===== verification/System.thy ===== *)
theory System
  imports Controller_Contract Controller_Frame
begin

text \<open>
  The whole client: the controller, the inventory and the runtime source together, with every event
  that can reach them, and the callbacks tied into one system.
\<close>

context controller_contract
begin

lemma stop_rel: "sys_rel w (controller_stop C notify_ui w)"
proof (cases "c_stopping w")
  case False
  define w1 where "w1 = w\<lparr>c_stopping := True, c_started := False,
      c_activity_id := (if c_activity_id w \<noteq> G_MAXUINT64 then c_activity_id w + 1 else c_activity_id w),
      c_activity := ACTIVITY_IDLE, c_verification_pending := False, c_activity_name := None,
      c_authorized := False, c_pending_confirmation := None\<rparr>"
  define w2 where "w2 = inventory_stop (inventory_env C) w1"
  define w3 where "w3 = ce_backend_stop C w2"
  define w4 where "w4 = runtime_source_stop w3"
  define w5 where "w5 = (if notify_ui then dismiss_presented_interactions C w4 else w4)"
  define w6 where "w6 = w5\<lparr>c_changed_set := False, c_ui_event_set := False\<rparr>"
  have eq: "controller_stop C notify_ui w =
      bump_generation (w6\<lparr>inv_model := rebuild_entries (inv_model w6) False [] False (c_activity w6) None\<rparr>)"
    using False unfolding controller_stop_def Let_def w1_def w2_def w3_def w4_def w5_def w6_def by simp
  have s1: "sys_step True False w w1"
    using ctl_own_inventory [of w w1] ctl_own_runtime [of w w1]
    by (auto simp: w1_def sys_step_def c_keeps_def c_invs)
  have s2: "sys_rel w w2"
  proof (cases "inv_stopping w1")
    case True
    have "c_ok w \<Longrightarrow> c_auth w1" using True by (auto simp: w1_def c_invs)
    with True s1 show ?thesis by (auto simp: w2_def inventory_stop_def intro: sys_auth)
  next
    case False
    define v where "v = w1\<lparr>inv_stopping := True, inv_started := False, inv_authorized := False, enabled := False\<rparr>"
    have "inventory.more v = inventory.more w1" by (simp add: v_def)
    then have v: "rs_evolves w1 v" "c_evolves w1 v" "c_auth v"
      using more_runtime [of v w1] by (auto simp: v_def w1_def c_evolves_def c_keeps_def c_invs)
    have w2: "w2 = reset_inventory (inventory_env C) v"
      using False by (simp add: w2_def inventory_stop_def v_def)
    have P: "rs_evolves v w2 \<and> c_evolves v w2" using frame.P_reset by (simp add: w2)
    have "sys_rel w1 w2"
      using inventory.stop_evolves [of w1] v P unfolding w2_def
      by (blast intro: sys_relI rs_evolves_trans c_evolves_trans)
    moreover from this s1 have "sys_step True False w w2" by (blast intro: sys_trans sys_weaken)
    moreover have "c_ok w \<Longrightarrow> c_auth w2"
      using sys_ok [OF s1] v P by (auto simp: c_evolves_def c_keeps_def)
    ultimately show ?thesis by (blast intro: sys_auth)
  qed
  then have s3: "sys_rel w w3" unfolding w3_def by (intro after_rels)
  have "sys_rel w3 w4"
    using stop_step [of w3] stop_lively [of w3] world_rel [of w3 w4]
    by (auto simp: w4_def rs_step_def intro: sys_relI rs_keeps_lively)
  with s3 have s4: "sys_rel w w4" by (rule sys_trans)
  have "sys_rel w4 w5" by (simp add: w5_def dismiss_presented_interactions_def ui_event_rel)
  with s4 have s5: "sys_rel w w5" by (rule sys_trans)
  have "sys_rel w5 w6" unfolding w6_def by (rule own_rel) (simp_all add: c_evolves_def c_keeps_def c_invs)
  with s5 have "sys_rel w w6" by (rule sys_trans)
  then show ?thesis unfolding eq by (blast intro: sys_trans model_rel bump_rel)
qed (simp add: controller_stop_def)

lemma controller_start_rel: "sys_rel w (controller_start C w)"
proof (cases "c_started w \<or> c_stopping w")
  case False
  then have "sys_rel w (w\<lparr>c_started := True\<rparr>)"
    by (intro own_rel) (auto simp: c_evolves_def c_keeps_def c_invs)
  with False show ?thesis by (simp add: controller_start_def after_rels)
qed (simp add: controller_start_def)

lemma ui_callback_rel: "sys_rel w (controller_set_ui_event_callback on w)"
  unfolding controller_set_ui_event_callback_def by (rule own_rel) (simp_all add: c_evolves_def c_keeps_def c_invs)

lemma inventory_enabled_rel: "sys_rel w (controller_set_inventory_enabled C on w)"
  by (simp add: controller_set_inventory_enabled_def inventory_rels)

end

section \<open>Events\<close>

datatype system_event =
  Sy_Start | Sy_Stop bool | Sy_Ui_Callback bool | Sy_Inventory_Enabled bool | Sy_Request bool
| Sy_Import | Sy_File_Selected "string \<Rightarrow> string" nat "string option" | Sy_Selection_Cancelled nat
| Sy_Loaded nat "bytes option" | Sy_Load_Failed nat import_error | Sy_Cancel_Import
| Sy_Set_Active "string option" bool | Sy_Confirm_Delete "string option"
| Sy_Response ui_event_type nat bool | Sy_Authorization bool | Sy_Service_Result service_action backend_result
| Sy_Inventory_Timer | Sy_Inventory_Result nat backend_result | Sy_Runtime runtime_event

fun system_step ::
    "'x controller_env \<Rightarrow> ('x controller_ext) runtime_env \<Rightarrow> system_event \<Rightarrow> 'x controller_scheme \<Rightarrow> 'x controller_scheme" where
  "system_step C R Sy_Start w = controller_start C w"
| "system_step C R (Sy_Stop notify_ui) w = controller_stop C notify_ui w"
| "system_step C R (Sy_Ui_Callback on) w = controller_set_ui_event_callback on w"
| "system_step C R (Sy_Inventory_Enabled on) w = controller_set_inventory_enabled C on w"
| "system_step C R (Sy_Request force) w = controller_request_inventory C force w"
| "system_step C R Sy_Import w = controller_import C w"
| "system_step C R (Sy_File_Selected basename i f) w = snd (import_file_selected C basename i f w)"
| "system_step C R (Sy_Selection_Cancelled i) w = import_selection_cancelled C i w"
| "system_step C R (Sy_Loaded i config) w = import_loaded C i config w"
| "system_step C R (Sy_Load_Failed i error) w = import_failed C i error w"
| "system_step C R Sy_Cancel_Import w = cancel_import C w"
| "system_step C R (Sy_Set_Active name on) w = controller_set_active C name on w"
| "system_step C R (Sy_Confirm_Delete name) w = confirm_delete C name w"
| "system_step C R (Sy_Response type i confirmed) w = confirmation_response C type i confirmed w"
| "system_step C R (Sy_Authorization auth) w = backend_authorization_changed C auth w"
| "system_step C R (Sy_Service_Result action res) w = backend_service_result C action res w"
| "system_step C R Sy_Inventory_Timer w =
     (if \<not> refresh_source w then w else refresh_source_cb (inventory_env C) w)"
| "system_step C R (Sy_Inventory_Result rid res) w = inventory_result_cb (inventory_env C) rid res w"
| "system_step C R (Sy_Runtime ev) w = runtime_step R ev w"

fun system_run ::
    "'x controller_env \<Rightarrow> ('x controller_ext) runtime_env \<Rightarrow> system_event list \<Rightarrow> 'x controller_scheme \<Rightarrow> 'x controller_scheme" where
  "system_run C R [] w = w"
| "system_run C R (ev # evs) w = system_run C R evs (system_step C R ev w)"

inductive system_reachable ::
    "'x controller_env \<Rightarrow> ('x controller_ext) runtime_env \<Rightarrow> 'x controller_scheme \<Rightarrow> bool" for C R where
  fresh: "system_reachable C R (controller_new w)"
| event: "system_reachable C R w \<Longrightarrow> system_reachable C R (system_step C R ev w)"
| world: "system_reachable C R w \<Longrightarrow> sys_rel w w' \<Longrightarrow> system_reachable C R w'"

text \<open>What holds between events.\<close>

definition system_ok :: "'x controller_scheme \<Rightarrow> bool" where
  "system_ok w \<longleftrightarrow> inv_ok w \<and> lively w \<and> rs_ok w \<and> rs_lively w \<and> c_ok w \<and> c_settled w \<and> c_auth w"

lemma new_system_ok: "system_ok (controller_new w)"
proof -
  have rs: "rs_ok (v\<lparr>c_changed_set := a, c_ui_event_set := b, c_authorized := d, c_activity := e,
      c_activity_name := f, c_activity_id := g, c_generation := h, c_pending_confirmation := i,
      c_verification_pending := j, c_started := k, c_stopping := l\<rparr>) = rs_ok v"
    "rs_lively (v\<lparr>c_changed_set := a, c_ui_event_set := b, c_authorized := d, c_activity := e,
      c_activity_name := f, c_activity_id := g, c_generation := h, c_pending_confirmation := i,
      c_verification_pending := j, c_started := k, c_stopping := l\<rparr>) = rs_lively v"
    for v :: "'x controller_scheme" and a b d e f g h i j k l
    by (simp_all add: rs_ok_def rs_lively_def runtime_source_is_running_def)
  show ?thesis
    unfolding system_ok_def controller_new_def Let_def rs
    by (simp add: new_ok) (simp add: inventory_new_def runtime_source_new_def inv_ok_def lively_def
        retry_delays_ms_def inventory_is_running_def c_ok_def c_settled_def c_auth_def)
qed

lemma system_ok_rel: "system_ok w \<Longrightarrow> sys_rel w w' \<Longrightarrow> system_ok w'"
  by (simp add: system_ok_def sys_step_def evolves_def keeps_def rs_evolves_def rs_keeps_def c_keeps_def)

context controller_contract
begin

lemma timer_rel: "refresh_source w \<Longrightarrow> sys_rel w (refresh_source_cb (inventory_env C) w)"
  by (rule inventory_rel [OF inventory.timer_evolves frame.P_timer])

lemma step_rel: "\<nexists>op. ev = Sy_Runtime op \<Longrightarrow> sys_rel w (system_step C R ev w)"
  by (cases ev) (simp_all add: controller_start_rel stop_rel ui_callback_rel inventory_enabled_rel
      request_inventory_rel import_rel file_selected_rel selection_cancelled_rel loaded_rel failed_rel
      cancel_import_rel set_active_rel confirm_delete_rel response_rel authorization_changed_rel
      service_result_rel timer_rel inventory_rels)

end

section \<open>The knot\<close>

text \<open>
  The runtime source calls the controller back, and the controller calls the runtime source: their
  environments depend on one another. They are tied by the depth of the nesting: at depth 0 the
  callback does nothing, and each level may call the one below. Every finite history of the code
  is one of a sufficient depth, and what follows holds at every depth.
\<close>

fun runtime_operation :: "runtime_event \<Rightarrow> bool" where
  "runtime_operation (Rt_File path other event) = False"
| "runtime_operation (Rt_Link failed received) = False"
| "runtime_operation Rt_Debounce = False"
| "runtime_operation Rt_Retry = False"
| "runtime_operation (Rt_Complete res) = False"
| "runtime_operation Rt_Publish = False"
| "runtime_operation _ = True"

definition runtime_call ::
    "'x runtime_env \<Rightarrow> runtime_event \<Rightarrow> 'x runtime_source_scheme \<Rightarrow> 'x runtime_source_scheme" where
  "runtime_call R op w = (if runtime_operation op then runtime_step R op w else w)"

primrec system_runtime ::
    "'x controller_env \<Rightarrow> ('x controller_ext) runtime_env \<Rightarrow> nat \<Rightarrow> ('x controller_ext) runtime_env" where
  "system_runtime C R 0 = R\<lparr>re_changed := (\<lambda>w. w)\<rparr>"
| "system_runtime C R (Suc n) =
     R\<lparr>re_changed := runtime_source_changed (C\<lparr>ce_runtime := runtime_call (system_runtime C R n)\<rparr>)\<rparr>"

definition system_controller ::
    "'x controller_env \<Rightarrow> ('x controller_ext) runtime_env \<Rightarrow> nat \<Rightarrow> 'x controller_env" where
  "system_controller C R n = C\<lparr>ce_runtime := runtime_call (system_runtime C R n)\<rparr>"

text \<open>
  What every step keeps: the invariants of the inventory, the runtime source and the controller, and
  a relation \<open>F\<close> that looks at the rest of the world only.
\<close>

definition client_rel :: "('x controller_scheme \<Rightarrow> 'x controller_scheme \<Rightarrow> bool) \<Rightarrow>
    'x controller_scheme \<Rightarrow> 'x controller_scheme \<Rightarrow> bool" where
  "client_rel F w w' \<longleftrightarrow> sys_rel w w' \<and> F w w'"

definition beside_runtime :: "('x controller_scheme \<Rightarrow> 'x controller_scheme \<Rightarrow> bool) \<Rightarrow>
    'x controller_scheme \<Rightarrow> 'x controller_scheme \<Rightarrow> bool" where
  "beside_runtime F w w' \<longleftrightarrow> evolves w w' \<and> c_evolves w w' \<and> F w w'"

lemma client_relI: "rs_evolves w w' \<Longrightarrow> beside_runtime F w w' \<Longrightarrow> client_rel F w w'"
  by (simp add: client_rel_def beside_runtime_def sys_relI)

lemma client_rel_beside: "client_rel F w w' \<Longrightarrow> beside_runtime F w w'"
  by (simp add: client_rel_def beside_runtime_def sys_rel_c sys_rel_evolves)

text \<open>The user interface and the backend, which may re-enter the controller, keep what it keeps.\<close>

locale system_world =
  fixes C :: "'x controller_env" and R :: "('x controller_ext) runtime_env"
    and F :: "'x controller_scheme \<Rightarrow> 'x controller_scheme \<Rightarrow> bool"
  assumes F_trans: "F x y \<Longrightarrow> F y z \<Longrightarrow> F x z"
    and F_more: "controller.more y = controller.more x \<Longrightarrow> F x y"
    and ui_changed: "client_rel F w (ce_changed C d w)"
    and ui_event: "client_rel F w (snd (ce_ui_event C ev w))"
    and backend_execute: "client_rel F w (ce_execute C action w)"
    and backend_invalidate: "client_rel F w (ce_invalidate_authorization C w)"
    and backend_start: "client_rel F w (ce_backend_start C w)"
    and backend_stop: "client_rel F w (ce_backend_stop C w)"
    and backend_list: "client_rel F w (ce_list C rid w)"
    and backend_cancel: "client_rel F w (ce_cancel C token w)"
begin

lemma client_trans: "client_rel F a b \<Longrightarrow> client_rel F b d \<Longrightarrow> client_rel F a d"
  unfolding client_rel_def by (blast intro: sys_trans F_trans)

lemma beside_trans: "beside_runtime F a b \<Longrightarrow> beside_runtime F b d \<Longrightarrow> beside_runtime F a d"
  unfolding beside_runtime_def by (blast intro: evolves_trans c_evolves_trans F_trans)

lemma beside_world: "same_world w w' \<Longrightarrow> beside_runtime F w w'"
  unfolding beside_runtime_def using world_rel [of w w']
  by (cases w; cases w') (auto simp: same_world_def intro: F_more)

lemma operation_client_rel:
  assumes "runtime_contract S (beside_runtime F)"
  shows "client_rel F w (runtime_call S op w)"
proof (cases "runtime_operation op")
  case True
  have "rs_rel (beside_runtime F) w (runtime_step S op w)"
    using True runtime_contract.operation_rels [OF assms] by (cases op) simp_all
  with True show ?thesis by (simp add: runtime_call_def rs_rel_def client_relI)
next
  case False
  then show ?thesis by (simp add: runtime_call_def client_rel_def F_more)
qed

lemma controller_from_runtime:
  assumes "runtime_contract (system_runtime C R n) (beside_runtime F)"
  shows "controller_contract (system_controller C R n)" and "controller_frame (system_controller C R n) F"
proof -
  note rels = ui_changed ui_event backend_execute backend_invalidate backend_start backend_stop backend_list
    backend_cancel operation_client_rel [OF assms]
  note sys = rels [unfolded client_rel_def, THEN conjunct1] and frame = rels [unfolded client_rel_def, THEN conjunct2]
  show "controller_contract (system_controller C R n)"
    by unfold_locales (simp_all add: system_controller_def sys)
  show "controller_frame (system_controller C R n) F"
    by unfold_locales (simp_all add: system_controller_def frame F_more, erule (1) F_trans)
qed

lemma runtime_contract_all: "runtime_contract (system_runtime C R n) (beside_runtime F)"
proof (induction n)
  case 0
  show ?case
    by unfold_locales (auto intro: beside_trans beside_world)
next
  case (Suc n)
  let ?C = "system_controller C R n"
  have "client_rel F w (re_changed (system_runtime C R (Suc n)) w)" for w
    using controller_contract.runtime_source_changed_rel [OF controller_from_runtime(1) [OF Suc], of w]
      controller_frame.runtime_changed [OF controller_from_runtime(2) [OF Suc] controller_frame.P_refl
        [OF controller_from_runtime(2) [OF Suc]], of w]
    by (simp add: system_controller_def client_rel_def)
  note changed = this
  show ?case
    by unfold_locales (use changed in \<open>auto intro: beside_trans beside_world client_rel_beside
      simp: client_rel_def dest: sys_rel_c\<close>)
qed

lemmas controller_contract_all = controller_from_runtime(1) [OF runtime_contract_all]
lemmas controller_frame_all = controller_from_runtime(2) [OF runtime_contract_all]

end

sublocale system_world \<subseteq> controller: controller_contract "system_controller C R n" for n
  by (rule controller_contract_all)

sublocale system_world \<subseteq> frame: controller_frame "system_controller C R n" F for n
  by (rule controller_frame_all)

sublocale system_world \<subseteq> runtime: runtime_contract "system_runtime C R n" "beside_runtime F" for n
  by (rule runtime_contract_all)

context controller_frame
begin

lemma step_frame: "\<nexists>op. ev = Sy_Runtime op \<Longrightarrow> P w (system_step C R ev w)"
  by (cases ev)
    (simp_all add: P_refl started stopped callback_set inventory_enabled requested imported selected
      selection_cancelled loaded load_failed import_cancelled active_set delete_requested responded
      authorization_changed service_result frame.P_timer frame.P_result)

end

context system_world
begin

lemma system_step_rel:
  assumes "\<nexists>op. ev = Sy_Runtime op"
  shows "client_rel F w (system_step (system_controller C R n) (system_runtime C R n) ev w)"
  using controller.step_rel [OF assms, of w n] frame.step_frame [OF assms, of w n] by (simp add: client_rel_def)

lemma runtime_step_beside:
  "beside_runtime F w (system_step (system_controller C R n) (system_runtime C R n) (Sy_Runtime op) w)"
  using runtime.step_Q by simp

lemma system_step_beside:
  "beside_runtime F w (system_step (system_controller C R n) (system_runtime C R n) ev w)"
  using system_step_rel [of ev w n] runtime_step_beside [of w n] client_rel_beside by blast

lemma system_step_ok:
  assumes "system_ok w"
  shows "system_ok (system_step (system_controller C R n) (system_runtime C R n) ev w)"
proof (cases "\<exists>op. ev = Sy_Runtime op")
  case True
  then obtain op where "ev = Sy_Runtime op" by blast
  with assms runtime.step_ok [of w n op] runtime.step_Q [of w n op] show ?thesis
    by (simp add: system_ok_def beside_runtime_def evolves_def keeps_def c_evolves_def c_keeps_def)
next
  case False
  then show ?thesis using controller.step_rel [of ev w] system_ok_rel [OF assms] by blast
qed

lemma system_reachable_ok:
  "system_reachable (system_controller C R n) (system_runtime C R n) w \<Longrightarrow> system_ok w"
proof (induction rule: system_reachable.induct)
  case (event w ev)
  then show ?case by (blast intro: system_step_ok)
qed (auto intro: new_system_ok system_ok_rel)

lemma system_run_beside:
  "beside_runtime F w (system_run (system_controller C R n) (system_runtime C R n) evs w)"
proof (induction evs arbitrary: w)
  case (Cons ev evs)
  show ?case
    using beside_trans [OF system_step_beside Cons] by (simp del: system_step.simps)
qed (simp add: client_rel_beside client_rel_def F_more)

end

end
