(* ===== verification/Backend.thy ===== *)
theory Backend
  imports Controller Deadline
begin

text \<open>
  \<open>amneziawg/backend.h\<close> and \<open>backend.c\<close>: the client's side of the privileged service. It asks polkit
  whether the user is authorized, and makes the calls over D-Bus, each with one deadline and one
  result. Its state extends the controller's. The result callback of a call is named by what the
  caller passes as its data: a service action of the controller or a request of the inventory. The
  environment \<open>backend_env\<close> has the callbacks, the clock in microseconds, and the sending of a D-Bus
  message, which only the message bus sees. What GIO and polkit deliver later are the events of
  \<open>backend_step\<close>; a call knows in \<open>bc_waiting\<close> which completion GIO still owes it, and the authority
  and the check are owed as long as their flags say so. Reference counts have no counterpart.
\<close>

section \<open>Data\<close>

datatype call_owner = Owner_Action service_action | Owner_Inventory nat

datatype transport_wait = Wait_Bus | Wait_Reply

record backend_call =
  bc_operation :: backend_operation
  bc_name :: "string option"
  bc_config :: "bytes option"
  bc_cancelled :: bool
  bc_caller :: "nat option"
  bc_lifecycle :: bool
  bc_deadline_msec :: int
  bc_deadline_source :: bool
  bc_completed :: bool
  bc_callback :: "call_owner option"
  bc_waiting :: "transport_wait option"

record backend = controller +
  b_callbacks :: bool
  b_lifecycle :: bool
  b_authority :: bool
  b_authority_pending :: bool
  b_check_pending :: bool
  b_recheck :: bool
  b_retry_source :: bool
  b_started :: bool
  b_stopping :: bool
  b_calls :: "backend_call list"
  b_cancelled_tokens :: "nat list"

text \<open>A D-Bus message: the method, its text arguments, the configuration and the timeout.\<close>

record bus_message =
  bm_method :: string
  bm_arguments :: "string option list"
  bm_config :: bytes
  bm_timeout :: int

record 'x backend_env =
  be_authorization_changed :: "bool \<Rightarrow> 'x backend_scheme \<Rightarrow> 'x backend_scheme"
  be_result :: "call_owner \<Rightarrow> backend_result \<Rightarrow> 'x backend_scheme \<Rightarrow> 'x backend_scheme"
  be_call :: "bus_message \<Rightarrow> 'x backend_scheme \<Rightarrow> 'x backend_scheme"
  be_now :: "'x backend_scheme \<Rightarrow> int"

definition backend_is_running :: "'x backend_scheme \<Rightarrow> bool" where
  "backend_is_running w \<longleftrightarrow> b_started w \<and> \<not> b_stopping w"

definition backend_new :: "'x backend_scheme \<Rightarrow> 'x backend_scheme" where
  "backend_new w =
     w\<lparr>b_callbacks := True, b_lifecycle := False, b_authority := False, b_authority_pending := False,
       b_check_pending := False, b_recheck := False, b_retry_source := False, b_started := False,
       b_stopping := False, b_calls := [], b_cancelled_tokens := []\<rparr>"

section \<open>Cancellation\<close>

text \<open>Cancelling a cancellable cancels the calls that are connected to it.\<close>

definition cancel_calls :: "(backend_call \<Rightarrow> bool) \<Rightarrow> 'x backend_scheme \<Rightarrow> 'x backend_scheme" where
  "cancel_calls connected w =
     w\<lparr>b_calls := map (\<lambda>c. if connected c then c\<lparr>bc_cancelled := True\<rparr> else c) (b_calls w)\<rparr>"

definition cancel_token :: "nat \<Rightarrow> 'x backend_scheme \<Rightarrow> 'x backend_scheme" where
  "cancel_token token w =
     (if token \<in> set (b_cancelled_tokens w) then w
      else cancel_calls (\<lambda>c. bc_caller c = Some token)
             (w\<lparr>b_cancelled_tokens := token # b_cancelled_tokens w\<rparr>))"

definition backend_stop :: "'x backend_scheme \<Rightarrow> 'x backend_scheme" where
  "backend_stop w =
     (if b_stopping w then w
      else
        let w1 = w\<lparr>b_stopping := True, b_started := False, b_retry_source := False\<rparr>;
            w2 = (if b_lifecycle w1 then cancel_calls bc_lifecycle w1 else w1)
        in w2\<lparr>b_authority := False, b_lifecycle := False, b_callbacks := False, b_recheck := False\<rparr>)"

section \<open>Authorization\<close>

definition notify_authorization ::
    "'x backend_env \<Rightarrow> bool \<Rightarrow> 'x backend_scheme \<Rightarrow> 'x backend_scheme" where
  "notify_authorization B auth w =
     (if \<not> backend_is_running w then w
      else
        let w1 = (if auth \<and> b_retry_source w then w\<lparr>b_retry_source := False\<rparr> else w)
        in if \<not> b_callbacks w1 then w1 else be_authorization_changed B auth w1)"

definition start_authorization_check :: "'x backend_scheme \<Rightarrow> 'x backend_scheme" where
  "start_authorization_check w =
     (if \<not> backend_is_running w \<or> \<not> b_authority w \<or> b_check_pending w then w
      else w\<lparr>b_check_pending := True\<rparr>)"

definition finish_authorization_check ::
    "'x backend_env \<Rightarrow> bool \<Rightarrow> 'x backend_scheme \<Rightarrow> 'x backend_scheme" where
  "finish_authorization_check B auth w =
     (let w1 = w\<lparr>b_check_pending := False\<rparr>
      in if \<not> backend_is_running w1 then w1\<lparr>b_recheck := False\<rparr>
         else if b_recheck w1 then
           let w2 = notify_authorization B False (w1\<lparr>b_recheck := False\<rparr>)
           in if backend_is_running w2 then start_authorization_check w2 else w2
         else notify_authorization B auth w1)"

definition schedule_authorization_retry :: "'x backend_scheme \<Rightarrow> 'x backend_scheme" where
  "schedule_authorization_retry w =
     (if \<not> backend_is_running w \<or> b_retry_source w then w else w\<lparr>b_retry_source := True\<rparr>)"

text \<open>What polkit answers: an error, or whether the user is authorized and whether only temporarily.\<close>

datatype check_outcome = Check_error | Check_result bool bool

fun permanently_authorized :: "check_outcome \<Rightarrow> bool" where
  "permanently_authorized Check_error = False"
| "permanently_authorized (Check_result is_authorized temporary) = (is_authorized \<and> \<not> temporary)"

definition authorization_check_cb ::
    "'x backend_env \<Rightarrow> check_outcome \<Rightarrow> 'x backend_scheme \<Rightarrow> 'x backend_scheme" where
  "authorization_check_cb B outcome w =
     (if backend_is_running w then
        let w1 = finish_authorization_check B (permanently_authorized outcome) w
        in if outcome = Check_error then schedule_authorization_retry w1 else w1
      else w\<lparr>b_check_pending := False\<rparr>)"

definition backend_invalidate_authorization :: "'x backend_env \<Rightarrow> 'x backend_scheme \<Rightarrow> 'x backend_scheme" where
  "backend_invalidate_authorization B w =
     (if \<not> backend_is_running w then w
      else
        let w1 = notify_authorization B False w
        in if \<not> backend_is_running w1 then w1
           else if b_check_pending w1 then w1\<lparr>b_recheck := True\<rparr>
           else start_authorization_check w1)"

text \<open>The handler of polkit's signals: the authority has changed, or its owner.\<close>

definition authority_changed_cb :: "'x backend_env \<Rightarrow> 'x backend_scheme \<Rightarrow> 'x backend_scheme" where
  "authority_changed_cb B w = backend_invalidate_authorization B w"

definition request_authority :: "'x backend_scheme \<Rightarrow> 'x backend_scheme" where
  "request_authority w =
     (if \<not> backend_is_running w \<or> b_authority w \<or> b_authority_pending w then w
      else w\<lparr>b_authority_pending := True\<rparr>)"

definition authorization_retry_cb :: "'x backend_scheme \<Rightarrow> 'x backend_scheme" where
  "authorization_retry_cb w =
     (let w1 = w\<lparr>b_retry_source := False\<rparr>
      in if \<not> backend_is_running w1 then w1
         else if \<not> b_authority w1 then request_authority w1
         else start_authorization_check w1)"

datatype authority_outcome = Authority_ready | Authority_cancelled | Authority_failed

definition authority_ready_cb :: "authority_outcome \<Rightarrow> 'x backend_scheme \<Rightarrow> 'x backend_scheme" where
  "authority_ready_cb outcome w =
     (let w1 = w\<lparr>b_authority_pending := False\<rparr>
      in if \<not> backend_is_running w1 then w1
         else case outcome of
           Authority_ready \<Rightarrow> start_authorization_check (w1\<lparr>b_authority := True\<rparr>)
         | Authority_cancelled \<Rightarrow> w1
         | Authority_failed \<Rightarrow> schedule_authorization_retry w1)"

definition backend_start :: "'x backend_scheme \<Rightarrow> 'x backend_scheme" where
  "backend_start w =
     (if b_started w \<or> b_stopping w then w
      else request_authority (w\<lparr>b_started := True, b_lifecycle := True\<rparr>))"

section \<open>Calls\<close>

text \<open>Calls are numbered in the order in which they are made.\<close>

definition call_at :: "'x backend_scheme \<Rightarrow> nat \<Rightarrow> backend_call option" where
  "call_at w i = (if i < length (b_calls w) then Some (b_calls w ! i) else None)"

fun operation_verb :: "backend_operation \<Rightarrow> string" where
  "operation_verb BACKEND_IMPORT = OP_IMPORT"
| "operation_verb BACKEND_REPLACE = OP_REPLACE"
| "operation_verb BACKEND_UP = OP_UP"
| "operation_verb BACKEND_DOWN = OP_DOWN"
| "operation_verb BACKEND_DELETE = OP_DELETE"
| "operation_verb BACKEND_LIST_PROFILES = OP_LIST_PROFILES"

text \<open>A new call; connecting it to a cancellable that is cancelled already cancels it at once.\<close>

definition backend_call_new ::
    "backend_operation \<Rightarrow> string option \<Rightarrow> bytes option \<Rightarrow> nat option \<Rightarrow> call_owner \<Rightarrow>
     'x backend_scheme \<Rightarrow> nat \<times> 'x backend_scheme" where
  "backend_call_new operation name config token owner w =
     (let i = length (b_calls w);
          call = \<lparr>bc_operation = operation, bc_name = name, bc_config = config,
                  bc_cancelled = (case token of None \<Rightarrow> False | Some t \<Rightarrow> t \<in> set (b_cancelled_tokens w)),
                  bc_caller = token, bc_lifecycle = b_lifecycle w, bc_deadline_msec = 0,
                  bc_deadline_source = False, bc_completed = False, bc_callback = Some owner, bc_waiting = None\<rparr>
      in (i, w\<lparr>b_calls := b_calls w @ [call]\<rparr>))"

definition update_call ::
    "nat \<Rightarrow> (backend_call \<Rightarrow> backend_call) \<Rightarrow> 'x backend_scheme \<Rightarrow> 'x backend_scheme" where
  "update_call i f w = w\<lparr>b_calls := (b_calls w)[i := f (b_calls w ! i)]\<rparr>"

definition simple_result :: "backend_result_kind \<Rightarrow> backend_result" where
  "simple_result k =
     \<lparr>result_kind = k, service_replied = False, result_status = 0, result_capabilities = 0,
      inventory_complete = False, result_profiles = None\<rparr>"

definition deliver_result ::
    "'x backend_env \<Rightarrow> nat \<Rightarrow> backend_result \<Rightarrow> 'x backend_scheme \<Rightarrow> 'x backend_scheme" where
  "deliver_result B i res w =
     (case call_at w i of
        None \<Rightarrow> w
      | Some call \<Rightarrow>
          if bc_completed call then w
          else
            let w1 = update_call i (\<lambda>c. c\<lparr>bc_completed := True, bc_callback := None, bc_deadline_source := False,
                       bc_caller := None, bc_lifecycle := False\<rparr>) w;
                w2 = (if result_kind res = RESULT_TIMED_OUT
                      then update_call i (\<lambda>c. c\<lparr>bc_cancelled := True\<rparr>) w1 else w1);
                w3 = (case bc_callback call of None \<Rightarrow> w2 | Some owner \<Rightarrow> be_result B owner res w2)
            in update_call i (\<lambda>c. c\<lparr>bc_config := None, bc_name := None\<rparr>) w3)"

text \<open>The time left for a call; a call that has none, or is cancelled, is answered here.\<close>

definition backend_call_remaining ::
    "'x backend_env \<Rightarrow> nat \<Rightarrow> 'x backend_scheme \<Rightarrow> int \<times> 'x backend_scheme" where
  "backend_call_remaining B i w =
     (case call_at w i of
        None \<Rightarrow> (0, w)
      | Some call \<Rightarrow>
          if bc_completed call then (0, w)
          else if \<not> backend_is_running w \<or> bc_cancelled call
          then (0, deliver_result B i (simple_result RESULT_CANCELLED) w)
          else
            let remaining = deadline_remaining_msec (be_now B w div 1000) (bc_deadline_msec call) (nat G_MAXINT)
            in if remaining > 0 then (remaining, w)
               else (0, deliver_result B i (simple_result RESULT_TIMED_OUT) w))"

definition call_deadline_cb :: "'x backend_env \<Rightarrow> nat \<Rightarrow> 'x backend_scheme \<Rightarrow> 'x backend_scheme" where
  "call_deadline_cb B i w =
     update_call i (\<lambda>c. c\<lparr>bc_deadline_source := False\<rparr>) (snd (backend_call_remaining B i w))"

text \<open>The error of a failed call: what GIO says, and the name a remote error carries.\<close>

datatype call_error =
  Error_cancelled | Error_io_timed_out | Error_dbus_timeout | Error_dbus_timed_out | Error_dbus_no_reply
| Error_other

fun error_is_timeout :: "call_error \<Rightarrow> bool" where
  "error_is_timeout Error_io_timed_out = True"
| "error_is_timeout Error_dbus_timeout = True"
| "error_is_timeout Error_dbus_timed_out = True"
| "error_is_timeout Error_dbus_no_reply = True"
| "error_is_timeout _ = False"

definition dbus_interface :: string where
  "dbus_interface = ''dev.relz.NmSidebar.AmneziaWG''"

definition profiles_from_variant :: "(string \<times> nat) list option \<Rightarrow> profile_record list option" where
  "profiles_from_variant variant =
     (case variant of
        None \<Rightarrow> None
      | Some ps \<Rightarrow>
          if length ps > report_max_records then None
          else Some (map (\<lambda>(name, status). \<lparr>pr_name = name, pr_status = status\<rparr>) ps))"

text \<open>A reply of the service, whose shape GDBus has checked against the method.\<close>

record service_reply =
  reply_status :: nat
  reply_capabilities :: flags
  reply_profiles :: "(string \<times> nat) list"
  reply_complete :: bool

definition error_result :: "bool \<Rightarrow> call_error \<Rightarrow> string option \<Rightarrow> backend_result" where
  "error_result running error remote =
     (let replied = (case remote of None \<Rightarrow> False
            | Some r \<Rightarrow> take (length (dbus_interface @ ''.Error.'')) r = dbus_interface @ ''.Error.'')
      in (simple_result
           (if \<not> running \<or> error = Error_cancelled then RESULT_CANCELLED
            else if error_is_timeout error then RESULT_TIMED_OUT
            else if remote = Some (dbus_interface @ ''.Error.NotAuthorized'') then RESULT_NOT_AUTHORIZED
            else if remote = Some (dbus_interface @ ''.Error.Busy'') then RESULT_BUSY
            else RESULT_FAILED))\<lparr>service_replied := replied\<rparr>)"

definition reply_result :: "backend_operation \<Rightarrow> service_reply \<Rightarrow> backend_result" where
  "reply_result operation reply =
     (if operation = BACKEND_LIST_PROFILES then
        \<lparr>result_kind = RESULT_REPLY, service_replied = True, result_status = reply_status reply,
         result_capabilities = reply_capabilities reply, inventory_complete = reply_complete reply,
         result_profiles = profiles_from_variant (Some (reply_profiles reply))\<rparr>
      else (simple_result RESULT_REPLY)\<lparr>service_replied := True, result_status := reply_status reply\<rparr>)"

datatype call_outcome = Call_error call_error "string option" | Call_reply service_reply

definition service_call_cb ::
    "'x backend_env \<Rightarrow> nat \<Rightarrow> call_outcome \<Rightarrow> 'x backend_scheme \<Rightarrow> 'x backend_scheme" where
  "service_call_cb B i outcome w =
     (let (remaining, w1) = backend_call_remaining B i w
      in if remaining = 0 then w1
         else deliver_result B i
           (case outcome of
              Call_error error remote \<Rightarrow> error_result (backend_is_running w1) error remote
            | Call_reply reply \<Rightarrow> reply_result (bc_operation (the (call_at w1 i))) reply) w1)"

definition call_message :: "backend_call \<Rightarrow> int \<Rightarrow> bus_message" where
  "call_message call remaining =
     (if bc_operation call = BACKEND_LIST_PROFILES
      then \<lparr>bm_method = ''ListProfiles'', bm_arguments = [], bm_config = [], bm_timeout = remaining\<rparr>
      else \<lparr>bm_method = ''Execute'', bm_arguments = [Some (operation_verb (bc_operation call)), bc_name call],
            bm_config = (case bc_config call of None \<Rightarrow> [] | Some c \<Rightarrow> c), bm_timeout = remaining\<rparr>)"

text \<open>The message bus is there, or it is not and why.\<close>

definition service_bus_ready_cb ::
    "'x backend_env \<Rightarrow> nat \<Rightarrow> call_error option \<Rightarrow> 'x backend_scheme \<Rightarrow> 'x backend_scheme" where
  "service_bus_ready_cb B i failure w =
     (let (remaining, w1) = backend_call_remaining B i w
      in if remaining = 0 then w1
         else case failure of
           Some error \<Rightarrow>
             deliver_result B i (simple_result
               (if \<not> backend_is_running w1 \<or> error = Error_cancelled then RESULT_CANCELLED
                else RESULT_BUS_UNAVAILABLE)) w1
         | None \<Rightarrow>
             be_call B (call_message (the (call_at w1 i)) remaining)
               (update_call i (\<lambda>c. c\<lparr>bc_waiting := Some Wait_Reply\<rparr>) w1))"

definition backend_execute ::
    "'x backend_env \<Rightarrow> backend_operation \<Rightarrow> string option \<Rightarrow> bytes option \<Rightarrow> nat option \<Rightarrow> call_owner \<Rightarrow>
     'x backend_scheme \<Rightarrow> 'x backend_scheme" where
  "backend_execute B operation name config token owner w =
     (let started_at = be_now B w div 1000;
          budget_ms = client_timeout_msec (Some (operation_verb operation));
          (i, w1) = backend_call_new operation name config token owner w
      in if \<not> backend_is_running w1 \<or> bc_cancelled (the (call_at w1 i))
         then deliver_result B i (simple_result RESULT_CANCELLED) w1
         else if budget_ms = 0 then deliver_result B i (simple_result RESULT_FAILED) w1
         else
           let w2 = update_call i (\<lambda>c. c\<lparr>bc_deadline_msec := started_at + int budget_ms\<rparr>) w1;
               (remaining, w3) = backend_call_remaining B i w2
           in if remaining = 0 then w3
              else update_call i (\<lambda>c. c\<lparr>bc_deadline_source := True, bc_waiting := Some Wait_Bus\<rparr>) w3)"

end
