(* ===== verification/Backend_Contract.thy ===== *)
theory Backend_Contract
  imports Backend
begin

text \<open>
  What the operations of \<open>amneziawg/backend.c\<close> keep, for all callbacks that keep it: that the
  authority is held, being requested or about to be, that every call which has not been answered has
  its deadline armed and a completion to come, and that what was answered or cancelled stays so.
\<close>

section \<open>Invariants\<close>

lemma call_at_simps [simp]:
  "call_at (cancel_calls p w) i = map_option (\<lambda>c. if p c then c\<lparr>bc_cancelled := True\<rparr> else c) (call_at w i)"
  "call_at (update_call i f w) i = map_option f (call_at w i)"
  "j \<noteq> i \<Longrightarrow> call_at (update_call i f w) j = call_at w j"
  by (simp_all add: call_at_def cancel_calls_def update_call_def)

lemma call_at_update [simp]:
  "call_at (w\<lparr>b_calls := map f (b_calls v)\<rparr>) i = map_option f (call_at v i)"
  "call_at (w\<lparr>b_calls := (b_calls v)[j := f (b_calls v ! j)]\<rparr>) i =
    (if i = j then map_option f (call_at v i) else call_at v i)"
  "call_at (w\<lparr>b_calls := b_calls v @ [c]\<rparr>) i = (if i = length (b_calls v) then Some c else call_at v i)"
  by (auto simp: call_at_def nth_append)

lemma call_at_length [simp]: "call_at w (length (b_calls w)) = None"
  by (simp add: call_at_def)

lemma call_at_cong: "b_calls w' = b_calls w \<Longrightarrow> call_at w' = call_at w"
  by (simp add: call_at_def fun_eq_iff)

lemma call_at_frame [simp]:
  "call_at (w\<lparr>b_started := b\<rparr>) i = call_at w i" "call_at (w\<lparr>b_stopping := b\<rparr>) i = call_at w i"
  "call_at (w\<lparr>b_retry_source := b\<rparr>) i = call_at w i" "call_at (w\<lparr>b_authority := b\<rparr>) i = call_at w i"
  "call_at (w\<lparr>b_lifecycle := b\<rparr>) i = call_at w i" "call_at (w\<lparr>b_callbacks := b\<rparr>) i = call_at w i"
  "call_at (w\<lparr>b_recheck := b\<rparr>) i = call_at w i" "call_at (w\<lparr>b_authority_pending := b\<rparr>) i = call_at w i"
  "call_at (w\<lparr>b_check_pending := b\<rparr>) i = call_at w i" "call_at (w\<lparr>b_cancelled_tokens := ts\<rparr>) i = call_at w i"
  by (simp_all add: call_at_def)

definition call_ok :: "bool \<Rightarrow> backend_call \<Rightarrow> bool" where
  "call_ok running c \<longleftrightarrow>
     (if bc_completed c then bc_callback c = None \<and> \<not> bc_deadline_source c
      else bc_callback c \<noteq> None \<and> bc_deadline_source c \<and> bc_waiting c \<noteq> None \<and> bc_lifecycle c \<and>
        (\<not> running \<longrightarrow> bc_cancelled c))"

definition flags_ok :: "'x backend_scheme \<Rightarrow> bool" where
  "flags_ok w \<longleftrightarrow>
     \<not> (b_started w \<and> b_stopping w) \<and> (b_lifecycle w \<longleftrightarrow> b_started w) \<and>
     (b_authority w \<longrightarrow> b_started w) \<and> (b_retry_source w \<longrightarrow> b_started w) \<and>
     (b_recheck w \<longrightarrow> b_started w \<and> b_check_pending w) \<and>
     (b_started w \<and> b_check_pending w \<longrightarrow> b_authority w) \<and>
     (b_check_pending w \<longrightarrow> b_started w \<or> b_stopping w) \<and>
     (b_started w \<longrightarrow> b_authority w \<or> b_authority_pending w \<or> b_retry_source w)"

text \<open>All but the calls that are being made or answered.\<close>

definition calls_ok :: "nat set \<Rightarrow> 'x backend_scheme \<Rightarrow> bool" where
  "calls_ok active w \<longleftrightarrow>
     (\<forall>i c. i \<notin> active \<longrightarrow> call_at w i = Some c \<longrightarrow> call_ok (b_started w) c)"

definition b_ok :: "'x backend_scheme \<Rightarrow> bool" where
  "b_ok w \<longleftrightarrow> flags_ok w \<and> calls_ok {} w"

text \<open>A call keeps what it is, and what was answered or cancelled stays so.\<close>

definition call_le :: "backend_call \<Rightarrow> backend_call \<Rightarrow> bool" where
  "call_le c d \<longleftrightarrow>
     bc_operation d = bc_operation c \<and> (bc_completed c \<longrightarrow> bc_completed d) \<and> (bc_cancelled c \<longrightarrow> bc_cancelled d)"

definition calls_le :: "'x backend_scheme \<Rightarrow> 'x backend_scheme \<Rightarrow> bool" where
  "calls_le w w' \<longleftrightarrow>
     (\<forall>i c. call_at w i = Some c \<longrightarrow> (\<exists>d. call_at w' i = Some d \<and> call_le c d))"

text \<open>
  The relation between the states before and after a step; the first argument says whether a check
  of the authorization that is to be repeated is still to be repeated after it.
\<close>

definition b_mono :: "bool \<Rightarrow> 'x backend_scheme \<Rightarrow> 'x backend_scheme \<Rightarrow> bool" where
  "b_mono R w w' \<longleftrightarrow>
     calls_le w w' \<and> (b_stopping w \<longrightarrow> b_stopping w') \<and> (b_started w \<longrightarrow> b_started w' \<or> b_stopping w') \<and>
     (R \<longrightarrow> b_recheck w \<longrightarrow> b_recheck w' \<or> b_stopping w')"

definition b_step :: "bool \<Rightarrow> 'x backend_scheme \<Rightarrow> 'x backend_scheme \<Rightarrow> bool" where
  "b_step R w w' \<longleftrightarrow> (b_ok w \<longrightarrow> b_ok w' \<and> b_mono R w w')"

abbreviation b_rel :: "'x backend_scheme \<Rightarrow> 'x backend_scheme \<Rightarrow> bool" where
  "b_rel \<equiv> b_step True"

lemma call_le_refl [simp]: "call_le c c"
  by (simp add: call_le_def)

lemma call_le_trans: "call_le c d \<Longrightarrow> call_le d e \<Longrightarrow> call_le c e"
  by (simp add: call_le_def)

lemma calls_le_refl [simp]: "calls_le w w"
  by (auto simp: calls_le_def)

lemma calls_le_trans: "calls_le a b \<Longrightarrow> calls_le b d \<Longrightarrow> calls_le a d"
  unfolding calls_le_def by (meson call_le_trans order_trans)

lemma b_mono_refl [simp]: "b_mono R w w"
  by (simp add: b_mono_def)

lemma b_mono_trans: "b_mono R a b \<Longrightarrow> b_mono R b d \<Longrightarrow> b_mono R a d"
proof -
  assume ab: "b_mono R a b" and bd: "b_mono R b d"
  then have "calls_le a d" using calls_le_trans [of a b d] by (simp add: b_mono_def)
  with ab bd show ?thesis by (simp add: b_mono_def) blast
qed

lemma b_step_refl [simp]: "b_step R w w"
  by (simp add: b_step_def)

lemma b_step_trans: "b_step R a b \<Longrightarrow> b_step R b d \<Longrightarrow> b_step R a d"
  unfolding b_step_def using b_mono_trans [of R a b d] by blast

lemma b_step_weaken: "b_rel w w' \<Longrightarrow> b_step R w w'"
  by (simp add: b_step_def b_mono_def)

text \<open>Steps that leave the backend alone, and those that change only the backend.\<close>

definition same_client :: "'x backend_scheme \<Rightarrow> 'x backend_scheme \<Rightarrow> bool" where
  "same_client w w' \<longleftrightarrow> controller.truncate w' = controller.truncate w \<and> backend.more w' = backend.more w"

lemma cancel_calls_le: "calls_le w (cancel_calls p w)"
  by (auto simp: calls_le_def cancel_calls_def call_le_def)

lemma calls_okD: "calls_ok A w \<Longrightarrow> i \<notin> A \<Longrightarrow> call_at w i = Some c \<Longrightarrow> call_ok (b_started w) c"
  by (simp add: calls_ok_def)

lemma call_ok_cancelled: "call_ok r c \<Longrightarrow> call_ok r (c\<lparr>bc_cancelled := True\<rparr>)"
  by (simp add: call_ok_def)

lemma flags_ok_frame:
  "flags_ok (w\<lparr>b_calls := f\<rparr>) = flags_ok w" "flags_ok (w\<lparr>b_cancelled_tokens := ts\<rparr>) = flags_ok w"
  by (simp_all add: flags_ok_def)

lemma calls_ok_frame: "calls_ok A (w\<lparr>b_retry_source := b\<rparr>) = calls_ok A w"
  by (simp add: calls_ok_def)

lemma cancel_calls_ok: "b_ok w \<Longrightarrow> b_ok (cancel_calls p w)"
  unfolding b_ok_def
  by (auto simp: cancel_calls_def flags_ok_frame calls_ok_def call_ok_cancelled)

lemma cancel_calls_rel: "b_rel w (cancel_calls p w)"
  by (simp add: b_step_def b_mono_def cancel_calls_le cancel_calls_ok) (simp add: cancel_calls_def)

lemma b_token_rel: "b_rel w (cancel_token t w)"
proof -
  have "b_rel w (w\<lparr>b_cancelled_tokens := ts\<rparr>)" for ts
    by (simp add: b_step_def b_mono_def b_ok_def flags_ok_frame calls_ok_def calls_le_def)
  then show ?thesis by (auto simp: cancel_token_def intro: b_step_trans cancel_calls_rel)
qed

lemma b_stop_rel: "b_rel w (backend_stop w)"
proof (cases "b_stopping w")
  case False
  let ?w1 = "w\<lparr>b_stopping := True, b_started := False, b_retry_source := False\<rparr>"
  let ?w2 = "if b_lifecycle ?w1 then cancel_calls bc_lifecycle ?w1 else ?w1"
  have eq: "backend_stop w = ?w2\<lparr>b_authority := False, b_lifecycle := False, b_callbacks := False, b_recheck := False\<rparr>"
    using False by (simp add: backend_stop_def)
  have "calls_le w (backend_stop w)"
    unfolding eq by (auto simp: calls_le_def cancel_calls_def call_le_def)
  moreover have "b_ok (backend_stop w)" if ok: "b_ok w"
  proof -
    have calls: "call_ok (b_lifecycle w) c" if "call_at w i = Some c" for i c
      using ok that by (auto simp: b_ok_def flags_ok_def calls_ok_def)
    have "calls_ok {} (backend_stop w)"
    proof (cases "b_lifecycle w")
      case True
      then have "bc_lifecycle c \<Longrightarrow> call_ok False (c\<lparr>bc_cancelled := True\<rparr>)" "\<not> bc_lifecycle c \<Longrightarrow> call_ok False c"
        if "call_at w i = Some c" for i c
        using calls [OF that] by (auto simp: call_ok_def split: if_splits)
      with ok True show ?thesis unfolding eq by (auto simp: b_ok_def calls_ok_def cancel_calls_def) metis
    next
      case False
      with ok calls show ?thesis unfolding eq by (simp add: b_ok_def calls_ok_def)
    qed
    moreover have "flags_ok (backend_stop w)" unfolding eq by (simp add: flags_ok_def cancel_calls_def)
    ultimately show ?thesis by (simp add: b_ok_def)
  qed
  moreover have "b_stopping (backend_stop w)" unfolding eq by (simp add: cancel_calls_def)
  ultimately show ?thesis by (simp add: b_step_def b_mono_def)
qed (simp add: backend_stop_def)

section \<open>Steps that change only flags\<close>

lemma flags_step:
  assumes "b_calls w' = b_calls w" "b_started w' = b_started w"
    and "b_stopping w' = b_stopping w" "flags_ok w \<Longrightarrow> flags_ok w'"
    and "R \<Longrightarrow> b_recheck w \<Longrightarrow> b_recheck w' \<or> b_stopping w'"
  shows "b_step R w w'"
  using assms call_at_cong [OF assms(1)] by (auto simp: b_step_def b_mono_def b_ok_def calls_ok_def calls_le_def)

lemmas flag_ops = start_authorization_check_def schedule_authorization_retry_def request_authority_def
  flags_ok_def backend_is_running_def

lemma b_start_check_rel: "b_rel w (start_authorization_check w)"
  by (rule flags_step; cases "b_started w"; cases "b_authority w"; cases "b_check_pending w")
    (simp_all add: flag_ops)

lemma b_schedule_retry_rel: "b_rel w (schedule_authorization_retry w)"
  by (rule flags_step; cases "b_started w"; cases "b_retry_source w") (simp_all add: flag_ops)

lemma request_authority_rel: "b_rel w (request_authority w)"
  by (rule flags_step; cases "b_started w"; cases "b_authority w"; cases "b_authority_pending w"; cases "b_recheck w";
      cases "b_check_pending w") (simp_all add: flag_ops)

lemma b_retry_rel: "b_rel w (authorization_retry_cb w)"
proof (rule flags_step)
  show "flags_ok w \<Longrightarrow> flags_ok (authorization_retry_cb w)"
    by (cases "b_started w"; cases "b_authority w"; cases "b_check_pending w"; cases "b_authority_pending w")
      (simp_all add: authorization_retry_cb_def request_authority_def start_authorization_check_def
        flags_ok_def backend_is_running_def)
qed (simp_all add: authorization_retry_cb_def request_authority_def start_authorization_check_def Let_def)

lemma b_ready_rel:
  assumes "\<not> (outcome = Authority_cancelled \<and> b_lifecycle w)"
  shows "b_rel w (authority_ready_cb outcome w)"
proof (rule flags_step)
  show "flags_ok w \<Longrightarrow> flags_ok (authority_ready_cb outcome w)"
    using assms
    by (cases outcome; cases "b_started w"; cases "b_retry_source w"; cases "b_check_pending w")
      (simp_all add: authority_ready_cb_def schedule_authorization_retry_def start_authorization_check_def
        flags_ok_def backend_is_running_def)
qed (cases outcome; simp add: authority_ready_cb_def schedule_authorization_retry_def
      start_authorization_check_def Let_def)+

lemma b_start_rel: "b_rel w (backend_start w)"
proof (cases "b_started w \<or> b_stopping w")
  case False
  have "b_ok (backend_start w)" if ok: "b_ok w"
  proof -
    have "flags_ok (backend_start w)"
      using ok False by (auto simp: b_ok_def flags_ok_def backend_start_def request_authority_def backend_is_running_def)
    moreover have "call_ok True c" if "call_at w i = Some c" for i c
      using ok that False by (auto simp: b_ok_def calls_ok_def call_ok_def)
    then have "calls_ok {} (backend_start w)"
      using ok False by (auto simp: b_ok_def calls_ok_def backend_start_def request_authority_def backend_is_running_def)
    ultimately show ?thesis by (simp add: b_ok_def)
  qed
  with False show ?thesis
    by (auto simp: b_step_def b_mono_def calls_le_def backend_start_def request_authority_def backend_is_running_def)
qed (simp add: backend_start_def)

lemma same_client_simps [simp]:
  "same_client w w" "same_client w (start_authorization_check w)" "same_client w (schedule_authorization_retry w)"
  "same_client w (request_authority w)" "same_client w (authorization_retry_cb w)"
  "same_client w (authority_ready_cb outcome w)" "same_client w (backend_start w)"
  "same_client w (backend_stop w)" "same_client w (cancel_token t w)" "same_client w (update_call i f w)"
  by (auto simp: same_client_def controller.truncate_def start_authorization_check_def
      schedule_authorization_retry_def request_authority_def authorization_retry_cb_def authority_ready_cb_def
      backend_start_def backend_stop_def cancel_token_def cancel_calls_def update_call_def Let_def
      split: authority_outcome.split)

section \<open>Steps that change one call\<close>

text \<open>A call that is being made or whose completion is being handled.\<close>

definition almost_ok :: "nat \<Rightarrow> 'x backend_scheme \<Rightarrow> bool" where
  "almost_ok i w \<longleftrightarrow>
     flags_ok w \<and> calls_ok {i} w \<and>
     (\<forall>c. call_at w i = Some c \<and> bc_completed c \<longrightarrow> bc_callback c = None \<and> \<not> bc_deadline_source c)"

lemma ok_almost: "b_ok w \<Longrightarrow> almost_ok i w"
  by (auto simp: b_ok_def almost_ok_def calls_ok_def call_ok_def split: if_splits)

lemma calls_ok_all:
  assumes "calls_ok {i} w" and "\<And>c. call_at w i = Some c \<Longrightarrow> call_ok (b_started w) c"
  shows "calls_ok {} w"
proof -
  have "call_ok (b_started w) d" if "call_at w j = Some d" for j d
    using assms that by (cases "j = i") (auto simp: calls_ok_def)
  then show ?thesis using assms(1) by (simp add: calls_ok_def)
qed

lemma almost_ok_completed:
  assumes "almost_ok i w" and "\<And>c. call_at w i = Some c \<Longrightarrow> bc_completed c"
  shows "b_ok w"
  using assms calls_ok_all [of i w] by (auto simp: almost_ok_def b_ok_def call_ok_def)

lemma update_call_simps [simp]:
  "b_started (update_call i f w) = b_started w"
  "b_stopping (update_call i f w) = b_stopping w" "flags_ok (update_call i f w) = flags_ok w"
  "backend_is_running (update_call i f w) = backend_is_running w" "b_recheck (update_call i f w) = b_recheck w"
  by (simp_all add: update_call_def flags_ok_frame backend_is_running_def)

lemma update_calls_ok: "calls_ok {i} (update_call i f w) = calls_ok {i} w"
  by (auto simp: calls_ok_def update_call_def)

lemma update_mono:
  "(\<And>c. call_at w i = Some c \<Longrightarrow> call_le c (f c)) \<Longrightarrow> b_mono R w (update_call i f w)"
  unfolding b_mono_def calls_le_def
  by (simp, intro allI impI, case_tac "ia = i") auto

lemma update_ok:
  assumes "flags_ok w" and "calls_ok {i} w" and "\<And>c. call_at w i = Some c \<Longrightarrow> call_ok (b_started w) (f c)"
  shows "b_ok (update_call i f w)"
proof -
  have "calls_ok {} (update_call i f w)"
    using assms by (intro calls_ok_all [of i]) (auto simp: update_calls_ok)
  then show ?thesis using assms(1) by (simp add: b_ok_def)
qed

definition completed :: "nat \<Rightarrow> 'x backend_scheme \<Rightarrow> bool" where
  "completed i w \<longleftrightarrow> (\<exists>c. call_at w i = Some c \<and> bc_completed c)"

lemma mono_completed: "b_mono R w w' \<Longrightarrow> completed i w \<Longrightarrow> completed i w'"
  by (auto simp: completed_def b_mono_def calls_le_def call_le_def)

lemma update_completed: "(\<And>c. bc_completed (f c) = bc_completed c) \<Longrightarrow> completed i (update_call i f w) = completed i w"
  by (auto simp: completed_def)

lemma update_kept:
  assumes "b_ok w" and "\<And>r c. call_ok r c \<Longrightarrow> call_ok r (f c)"
  shows "b_ok (update_call i f w)"
  by (rule update_ok) (use assms in \<open>auto simp: b_ok_def calls_ok_def\<close>)

lemma update_almost:
  assumes "almost_ok i w" and "\<And>c. bc_completed (f c) = bc_completed c"
    and "\<And>c. bc_callback (f c) = bc_callback c" and "\<And>c. bc_deadline_source c = False \<Longrightarrow> \<not> bc_deadline_source (f c)"
  shows "almost_ok i (update_call i f w)"
  using assms by (auto simp: almost_ok_def update_calls_ok)

lemma call_new_spec:
  assumes "backend_call_new operation name config token owner w = (i, w')"
  shows "b_ok w \<Longrightarrow> b_mono R w w'" and "same_client w w'" and "b_ok w \<Longrightarrow> almost_ok i w'"
    and "\<exists>c. call_at w' i = Some c \<and> \<not> bc_completed c \<and> bc_callback c = Some owner \<and> bc_lifecycle c = b_lifecycle w'"
    and "flags_ok w' = flags_ok w"
  using assms
  by (auto simp: backend_call_new_def Let_def b_mono_def calls_le_def same_client_def controller.truncate_def
      almost_ok_def calls_ok_def b_ok_def flags_ok_frame)

text \<open>A completion that GIO delivers is owed no longer while it is handled.\<close>

abbreviation taken :: "nat \<Rightarrow> 'x backend_scheme \<Rightarrow> 'x backend_scheme" where
  "taken i \<equiv> update_call i (\<lambda>c. c\<lparr>bc_waiting := None\<rparr>)"

section \<open>The contract of the callbacks\<close>

definition backend_rel ::
    "('x backend_scheme \<Rightarrow> 'x backend_scheme \<Rightarrow> bool) \<Rightarrow> bool \<Rightarrow> 'x backend_scheme \<Rightarrow> 'x backend_scheme \<Rightarrow> bool" where
  "backend_rel Q R w w' \<longleftrightarrow> b_step R w w' \<and> Q w w'"

locale backend_contract =
  fixes B :: "'x backend_env" and Q :: "'x backend_scheme \<Rightarrow> 'x backend_scheme \<Rightarrow> bool"
  assumes Q_trans: "Q x y \<Longrightarrow> Q y z \<Longrightarrow> Q x z"
    and Q_own: "same_client x y \<Longrightarrow> Q x y"
    and authorization_rel: "backend_rel Q True w (be_authorization_changed B auth w)"
    and result_rel: "backend_rel Q True w (be_result B owner res w)"
    and call_rel: "backend_rel Q True w (be_call B message w)"
begin

lemma rel_trans: "backend_rel Q R x y \<Longrightarrow> backend_rel Q R y z \<Longrightarrow> backend_rel Q R x z"
  unfolding backend_rel_def by (blast intro: b_step_trans Q_trans)

lemma rel_weaken: "backend_rel Q True x y \<Longrightarrow> backend_rel Q R x y"
  by (simp add: backend_rel_def b_step_weaken)

lemma own_step_rel: "b_rel x y \<Longrightarrow> same_client x y \<Longrightarrow> backend_rel Q True x y"
  by (simp add: backend_rel_def Q_own)

lemma rel_refl: "backend_rel Q R w w"
  by (simp add: backend_rel_def Q_own)

lemmas own_rels = own_step_rel [OF b_start_check_rel] own_step_rel [OF b_schedule_retry_rel] own_step_rel [OF b_retry_rel]
  own_step_rel [OF b_start_rel] own_step_rel [OF b_stop_rel] own_step_rel [OF b_token_rel]

lemma relI: "Q w w' \<Longrightarrow> (b_ok w \<Longrightarrow> b_ok w' \<and> b_mono R w w') \<Longrightarrow> backend_rel Q R w w'"
  by (simp add: backend_rel_def b_step_def)

lemma relD: "backend_rel Q R w w' \<Longrightarrow> b_ok w \<Longrightarrow> b_ok w' \<and> b_mono R w w'"
  by (simp add: backend_rel_def b_step_def)

lemma rel_Q: "backend_rel Q R w w' \<Longrightarrow> Q w w'"
  by (simp add: backend_rel_def)

lemma retry_cleared:
  "same_client w (w\<lparr>b_retry_source := False\<rparr>)"
  "b_authority w \<Longrightarrow> b_rel w (w\<lparr>b_retry_source := False\<rparr>)"
  by (simp add: same_client_def controller.truncate_def) (rule flags_step, simp_all add: flags_ok_def)

lemma notify_Q: "Q w (notify_authorization B auth w)"
proof -
  let ?w = "if auth \<and> b_retry_source w then w\<lparr>b_retry_source := False\<rparr> else w"
  have "Q w ?w" by (simp add: Q_own retry_cleared)
  then show ?thesis
    using Q_trans [OF _ rel_Q [OF authorization_rel], of w ?w] by (simp add: notify_authorization_def Let_def Q_own)
qed

lemma notify_rel:
  assumes "b_ok w \<Longrightarrow> backend_is_running w \<Longrightarrow> auth \<Longrightarrow> b_authority w"
  shows "backend_rel Q True w (notify_authorization B auth w)"
proof (rule relI)
  let ?w = "if auth \<and> b_retry_source w then w\<lparr>b_retry_source := False\<rparr> else w"
  show "Q w (notify_authorization B auth w)" by (rule notify_Q)
  assume ok: "b_ok w"
  show "b_ok (notify_authorization B auth w) \<and> b_mono True w (notify_authorization B auth w)"
  proof (cases "backend_is_running w")
    case True
    then have "backend_rel Q True w ?w" using assms [OF ok] by (simp add: own_step_rel retry_cleared rel_refl)
    then show ?thesis
      using relD [OF rel_trans [OF _ authorization_rel] ok, of ?w] relD [OF _ ok] True
      by (simp add: notify_authorization_def Let_def)
  qed (simp add: notify_authorization_def ok)
qed

lemma check_cleared:
  assumes "b_check_pending w"
  shows "backend_rel Q False w (w\<lparr>b_check_pending := False, b_recheck := False\<rparr>)"
proof -
  have "b_step False w (w\<lparr>b_check_pending := False, b_recheck := False\<rparr>)"
    by (rule flags_step) (simp_all add: flags_ok_def)
  then show ?thesis by (simp add: backend_rel_def Q_own same_client_def controller.truncate_def)
qed

lemma finish_check_rel:
  assumes "b_check_pending w"
  shows "backend_rel Q False w (finish_authorization_check B auth w)"
proof -
  let ?w = "w\<lparr>b_check_pending := False, b_recheck := False\<rparr>"
  have no: "\<not> b_recheck w \<Longrightarrow> w\<lparr>b_check_pending := False\<rparr> = ?w" by (cases w) simp
  have eq: "finish_authorization_check B auth w =
      (if \<not> backend_is_running ?w then ?w
       else if b_recheck w then
         let w2 = notify_authorization B False ?w
         in if backend_is_running w2 then start_authorization_check w2 else w2
       else notify_authorization B auth ?w)"
    by (cases "b_recheck w") (simp_all add: finish_authorization_check_def backend_is_running_def Let_def no [symmetric])
  note cleared = check_cleared [OF assms]
  show ?thesis
  proof (cases "b_ok w \<and> backend_is_running w")
    case True
    then have "b_authority ?w" using assms by (simp add: b_ok_def flags_ok_def backend_is_running_def)
    then have told: "backend_rel Q False w (notify_authorization B a ?w)" for a
      by (intro rel_trans [OF cleared rel_weaken [OF notify_rel]]) simp
    show ?thesis
      unfolding eq Let_def using told rel_trans [OF told rel_weaken [OF own_rels(1)]] cleared by simp
  next
    case False
    have told: "Q w (notify_authorization B a ?w)" for a
      by (rule Q_trans [OF rel_Q [OF cleared] notify_Q])
    have "Q w (finish_authorization_check B auth w)"
      unfolding eq Let_def using told Q_trans [OF told rel_Q [OF own_rels(1)]] rel_Q [OF cleared] by simp
    then show ?thesis
    proof (rule relI)
      assume ok: "b_ok w"
      with False have "\<not> backend_is_running ?w" by (simp add: backend_is_running_def)
      then show "b_ok (finish_authorization_check B auth w) \<and> b_mono False w (finish_authorization_check B auth w)"
        unfolding eq using relD [OF cleared ok] by simp
    qed
  qed
qed

lemma check_rel:
  assumes "b_check_pending w"
  shows "backend_rel Q False w (authorization_check_cb B outcome w)"
proof (cases "backend_is_running w")
  case True
  then show ?thesis
    using finish_check_rel [OF assms] rel_trans [OF finish_check_rel [OF assms] rel_weaken [OF own_rels(2)]]
    by (simp add: authorization_check_cb_def Let_def)
next
  case False
  have "b_step False w (w\<lparr>b_check_pending := False\<rparr>)"
    using False by (intro flags_step; cases "b_started w") (simp_all add: flags_ok_def backend_is_running_def)
  with False show ?thesis
    by (simp add: authorization_check_cb_def backend_rel_def Q_own same_client_def controller.truncate_def)
qed

lemma invalidate_rel: "backend_rel Q True w (backend_invalidate_authorization B w)"
proof -
  let ?w = "notify_authorization B False w"
  have step: "backend_rel Q True w ?w" by (rule notify_rel) simp
  have "backend_rel Q True v (v\<lparr>b_recheck := True\<rparr>)" if "backend_is_running v" "b_check_pending v" for v
  proof (rule own_step_rel)
    show "b_rel v (v\<lparr>b_recheck := True\<rparr>)"
      using that by (intro flags_step) (simp_all add: flags_ok_def backend_is_running_def)
  qed (simp add: same_client_def controller.truncate_def)
  then show ?thesis
    using rel_trans [OF step] rel_trans [OF step own_rels(1)] step
    by (simp add: backend_invalidate_authorization_def Let_def rel_refl)
qed

text \<open>A result completes its call, and leaves none half made.\<close>

lemma deliver_spec:
  "Q w (deliver_result B i res w) \<and>
   (almost_ok i w \<longrightarrow> b_ok (deliver_result B i res w) \<and> b_mono True w (deliver_result B i res w)) \<and>
   (almost_ok i w \<and> call_at w i \<noteq> None \<longrightarrow> completed i (deliver_result B i res w))"
proof (cases "\<exists>c. call_at w i = Some c \<and> \<not> bc_completed c")
  case False
  then have "deliver_result B i res w = w" by (auto simp: deliver_result_def split: option.split)
  with False show ?thesis using almost_ok_completed [of i w] by (auto simp: Q_own completed_def)
next
  case True
  let ?done = "\<lambda>c. c\<lparr>bc_completed := True, bc_callback := None, bc_deadline_source := False, bc_caller := None,
    bc_lifecycle := False\<rparr>"
  let ?cleared = "\<lambda>c. c\<lparr>bc_config := None, bc_name := None\<rparr>"
  obtain call where call: "call_at w i = Some call" "\<not> bc_completed call" using True by blast
  define w1 where "w1 = update_call i ?done w"
  define w2 where "w2 = (if result_kind res = RESULT_TIMED_OUT then update_call i (\<lambda>c. c\<lparr>bc_cancelled := True\<rparr>) w1 else w1)"
  define w3 where "w3 = (case bc_callback call of None \<Rightarrow> w2 | Some owner \<Rightarrow> be_result B owner res w2)"
  have eq: "deliver_result B i res w = update_call i ?cleared w3"
    unfolding w3_def w2_def w1_def using call by (simp add: deliver_result_def Let_def)
  have step3: "backend_rel Q True w2 w3"
    by (simp add: w3_def result_rel rel_refl split: option.split)
  have "same_client w w2" using same_client_simps(10) by (auto simp: w2_def w1_def same_client_def)
  then have "Q w (update_call i ?cleared w3)"
    using Q_trans [OF Q_trans [OF Q_own rel_Q [OF step3]] Q_own [OF same_client_simps(10)]] by blast
  moreover have "b_ok (update_call i ?cleared w3) \<and> b_mono True w (update_call i ?cleared w3) \<and>
      completed i (update_call i ?cleared w3)" if "almost_ok i w"
  proof -
    have "b_ok w1"
      unfolding w1_def using that by (intro update_ok) (auto simp: almost_ok_def call_ok_def)
    then have "b_ok w2" by (simp add: w2_def update_kept call_ok_cancelled)
    with relD [OF step3] have w3: "b_ok w3" "b_mono True w2 w3" by simp_all
    have "b_mono True w w1" "b_mono True w1 w2"
      by (auto simp: w1_def w2_def call_le_def intro: update_mono)
    then have m3: "b_mono True w w3" using w3(2) b_mono_trans by blast
    have "completed i w2" by (simp add: w2_def w1_def completed_def call)
    then have "completed i w3" by (rule mono_completed [OF w3(2)])
    moreover have "b_mono True w3 (update_call i ?cleared w3)"
      by (auto simp: call_le_def intro: update_mono)
    then have "b_mono True w (update_call i ?cleared w3)" by (rule b_mono_trans [OF m3])
    moreover have "b_ok (update_call i ?cleared w3)"
      using w3(1) by (rule update_kept) (simp_all add: call_ok_def)
    ultimately show ?thesis by (simp add: update_completed)
  qed
  ultimately show ?thesis unfolding eq using call by blast
qed

lemma deliver_rel: "backend_rel Q True w (deliver_result B i res w)"
  using deliver_spec [of w i res] ok_almost [of w i] by (intro relI) auto

lemma remaining_spec:
  shows "Q w (snd (backend_call_remaining B i w))"
    and "fst (backend_call_remaining B i w) \<noteq> 0 \<Longrightarrow>
      snd (backend_call_remaining B i w) = w \<and> backend_is_running w \<and>
      (\<exists>c. call_at w i = Some c \<and> \<not> bc_completed c \<and> \<not> bc_cancelled c)"
    and "almost_ok i w \<Longrightarrow> fst (backend_call_remaining B i w) = 0 \<Longrightarrow>
      b_ok (snd (backend_call_remaining B i w)) \<and> b_mono True w (snd (backend_call_remaining B i w)) \<and>
      (call_at w i \<noteq> None \<longrightarrow> completed i (snd (backend_call_remaining B i w)))"
  using deliver_spec [of w i] almost_ok_completed [of i w]
  by (auto simp: backend_call_remaining_def Let_def Q_own completed_def split: option.splits if_splits)

lemma deadline_rel:
  assumes "call_at w i = Some c" and "bc_deadline_msec c \<le> be_now B w div 1000"
  shows "backend_rel Q True w (call_deadline_cb B i w)" and "b_ok w \<Longrightarrow> completed i (call_deadline_cb B i w)"
proof -
  let ?v = "snd (backend_call_remaining B i w)"
  have zero: "fst (backend_call_remaining B i w) = 0"
    using assms by (auto simp: backend_call_remaining_def deadline_remaining_msec_def Let_def split: option.splits)
  have eq: "call_deadline_cb B i w = update_call i (\<lambda>c. c\<lparr>bc_deadline_source := False\<rparr>) ?v"
    by (simp add: call_deadline_cb_def)
  have spec: "b_ok ?v \<and> b_mono True w ?v \<and> completed i ?v" if "b_ok w"
    using remaining_spec(3) [OF ok_almost [OF that] zero] assms(1) by auto
  have mono: "b_mono True ?v (call_deadline_cb B i w)"
    unfolding eq by (rule update_mono) (simp add: call_le_def)
  have ok: "b_ok (call_deadline_cb B i w)" if "b_ok ?v" "completed i ?v"
  proof -
    have "\<And>d. call_at ?v i = Some d \<Longrightarrow> call_ok (b_started ?v) (d\<lparr>bc_deadline_source := False\<rparr>)"
      using that by (auto simp: completed_def b_ok_def calls_ok_def call_ok_def split: if_splits)
    then show ?thesis unfolding eq using that(1) by (intro update_ok) (auto simp: b_ok_def calls_ok_def)
  qed
  show "backend_rel Q True w (call_deadline_cb B i w)"
  proof (rule relI)
    show "Q w (call_deadline_cb B i w)"
      unfolding eq by (rule Q_trans [OF remaining_spec(1) [of w i] Q_own]) simp
    show "b_ok w \<Longrightarrow> b_ok (call_deadline_cb B i w) \<and> b_mono True w (call_deadline_cb B i w)"
      using spec ok b_mono_trans [OF _ mono] by blast
  qed
  show "b_ok w \<Longrightarrow> completed i (call_deadline_cb B i w)"
    using spec unfolding eq by (simp add: update_completed)
qed

lemma taken_spec: "b_ok w \<Longrightarrow> almost_ok i (taken i w)" "b_mono True w (taken i w)" "Q w (taken i w)"
  by (simp_all add: ok_almost update_almost update_mono call_le_def Q_own)

lemma from_taken:
  assumes "Q (taken i w) w'" and "almost_ok i (taken i w) \<Longrightarrow> b_ok w' \<and> b_mono True (taken i w) w'"
  shows "backend_rel Q True w w'"
  using assms taken_spec [of w i] Q_trans [of w "taken i w" w'] b_mono_trans [of True w "taken i w" w']
  by (intro relI) blast+

lemma taken_remaining:
  "fst (backend_call_remaining B i (taken i w)) = 0 \<Longrightarrow>
   backend_rel Q True w (snd (backend_call_remaining B i (taken i w)))"
  using remaining_spec(1) [of "taken i w" i] remaining_spec(3) [of i "taken i w"] by (intro from_taken) blast+

lemma taken_deliver: "backend_rel Q True w (deliver_result B i res (taken i w))"
  using deliver_spec [of "taken i w" i] by (intro from_taken) blast+

lemma reply_rel: "backend_rel Q True w (service_call_cb B i outcome (taken i w))"
proof (cases "fst (backend_call_remaining B i (taken i w)) = 0")
  case True
  then show ?thesis using taken_remaining [OF True] by (simp add: service_call_cb_def case_prod_beta)
next
  case False
  with remaining_spec(2) [OF False] show ?thesis
    by (simp add: service_call_cb_def case_prod_beta taken_deliver)
qed

lemma bus_ready_rel:
  assumes "call_at w i = Some c" and "b_ok w \<Longrightarrow> bc_waiting c \<noteq> None"
  shows "backend_rel Q True w (service_bus_ready_cb B i failure (taken i w))"
proof (cases "fst (backend_call_remaining B i (taken i w)) = 0")
  case True
  then show ?thesis using taken_remaining [OF True] by (simp add: service_bus_ready_cb_def case_prod_beta)
next
  case False
  note same = remaining_spec(2) [OF False, THEN conjunct1]
  let ?sent = "update_call i (\<lambda>c. c\<lparr>bc_waiting := Some Wait_Reply\<rparr>)"
  have merge: "?sent (taken i w) = ?sent w"
    by (cases "i < length (b_calls w)") (simp_all add: update_call_def list_update_beyond)
  have "call_ok r d \<Longrightarrow> call_ok r (d\<lparr>bc_waiting := Some Wait_Reply\<rparr>)" for r d
    by (auto simp: call_ok_def)
  then have "b_ok w \<Longrightarrow> b_ok (?sent w) \<and> b_mono True w (?sent w)"
    by (simp add: update_kept update_mono call_le_def)
  then have "backend_rel Q True w (?sent w)" by (intro relI) (simp_all add: Q_own)
  then have "backend_rel Q True w (be_call B m (?sent (taken i w)))" for m
    unfolding merge by (rule rel_trans [OF _ call_rel])
  with False same show ?thesis
    by (simp add: service_bus_ready_cb_def case_prod_beta taken_deliver split: option.split)
qed

lemma execute_rel: "backend_rel Q True w (backend_execute B operation name config token owner w)"
proof -
  obtain i w1 where new: "backend_call_new operation name config token owner w = (i, w1)" by force
  note spec = call_new_spec [OF new]
  define w2 where "w2 = update_call i
      (\<lambda>c. c\<lparr>bc_deadline_msec := be_now B w div 1000 + int (client_timeout_msec (Some (operation_verb operation)))\<rparr>) w1"
  let ?armed = "update_call i (\<lambda>c. c\<lparr>bc_deadline_source := True, bc_waiting := Some Wait_Bus\<rparr>)"
  have step: "Q w w2 \<and> (b_ok w \<longrightarrow> almost_ok i w2 \<and> b_mono True w w2)"
  proof -
    have "b_mono True w1 w2" unfolding w2_def by (rule update_mono) (simp add: call_le_def)
    then show ?thesis
      using spec b_mono_trans [of True w w1 w2] Q_trans [OF Q_own Q_own, of w w1 w2]
      by (auto simp: w2_def update_almost)
  qed
  have delivered: "backend_rel Q True w (deliver_result B i res w1)" for res
    using spec deliver_spec [of w1 i res] Q_trans [OF Q_own, of w w1] b_mono_trans [of True w w1]
    by (intro relI) blast+
  have remaining: "backend_rel Q True w (snd (backend_call_remaining B i w2))"
    if "fst (backend_call_remaining B i w2) = 0"
    using step remaining_spec(1) [of w2 i] remaining_spec(3) [OF _ that] Q_trans [of w w2] b_mono_trans [of True w w2]
    by (intro relI) blast+
  have armed: "backend_rel Q True w (?armed w2)" if "backend_is_running w"
  proof (rule relI)
    show "Q w (?armed w2)" using step Q_trans [OF _ Q_own [OF same_client_simps(10)]] by blast
    assume ok: "b_ok w"
    have same: "b_lifecycle w1 = b_lifecycle w" "b_started w1 = b_started w"
      using new by (auto simp: backend_call_new_def Let_def)
    moreover have "b_lifecycle w" "b_started w"
      using ok that by (simp_all add: b_ok_def flags_ok_def backend_is_running_def)
    moreover obtain c1 where "call_at w1 i = Some c1" "\<not> bc_completed c1" "bc_callback c1 = Some owner"
      "bc_lifecycle c1 = b_lifecycle w1" using spec(4) by blast
    ultimately obtain c where
      c: "call_at w2 i = Some c" "\<not> bc_completed c" "bc_callback c = Some owner" "bc_lifecycle c" "b_started w2"
      by (simp add: w2_def)
    with c have "b_ok (?armed w2)"
      using step ok by (intro update_ok) (auto simp: almost_ok_def call_ok_def)
    moreover have "b_mono True w2 (?armed w2)" by (rule update_mono) (simp add: call_le_def)
    ultimately show "b_ok (?armed w2) \<and> b_mono True w (?armed w2)"
      using step ok b_mono_trans by blast
  qed
  show ?thesis
  proof (cases "fst (backend_call_remaining B i w2) = 0")
    case True
    then show ?thesis
      using delivered remaining by (simp add: backend_execute_def new case_prod_beta Let_def w2_def)
  next
    case False
    have "backend_is_running w" "snd (backend_call_remaining B i w2) = w2"
      using remaining_spec(2) [OF False] new
      by (auto simp: w2_def backend_call_new_def Let_def backend_is_running_def)
    with False show ?thesis
      using delivered armed by (simp add: backend_execute_def new case_prod_beta Let_def w2_def)
  qed
qed

end

section \<open>Events\<close>

datatype backend_event =
  Be_Authority authority_outcome | Be_Check check_outcome | Be_Authority_Changed | Be_Retry
| Be_Deadline nat | Be_Bus nat "call_error option" | Be_Reply nat call_outcome

text \<open>
  What polkit, GIO and the main loop do: they complete what was asked of them, once; a request for
  the authority reports a cancellation only when its cancellable was cancelled; signals arrive while
  the authority is held; and timers run when they are due.
\<close>

fun backend_step :: "'x backend_env \<Rightarrow> backend_event \<Rightarrow> 'x backend_scheme \<Rightarrow> 'x backend_scheme" where
  "backend_step B (Be_Authority outcome) w =
     (if \<not> b_authority_pending w \<or> outcome = Authority_cancelled \<and> b_lifecycle w then w
      else authority_ready_cb outcome w)"
| "backend_step B (Be_Check outcome) w = (if \<not> b_check_pending w then w else authorization_check_cb B outcome w)"
| "backend_step B Be_Authority_Changed w = (if \<not> b_authority w then w else authority_changed_cb B w)"
| "backend_step B Be_Retry w = (if \<not> b_retry_source w then w else authorization_retry_cb w)"
| "backend_step B (Be_Deadline i) w =
     (case call_at w i of
        None \<Rightarrow> w
      | Some c \<Rightarrow> if bc_deadline_source c \<and> bc_deadline_msec c \<le> be_now B w div 1000 then call_deadline_cb B i w else w)"
| "backend_step B (Be_Bus i failure) w =
     (case call_at w i of
        None \<Rightarrow> w
      | Some c \<Rightarrow> if bc_waiting c = Some Wait_Bus then service_bus_ready_cb B i failure (taken i w) else w)"
| "backend_step B (Be_Reply i outcome) w =
     (case call_at w i of
        None \<Rightarrow> w
      | Some c \<Rightarrow> if bc_waiting c = Some Wait_Reply then service_call_cb B i outcome (taken i w) else w)"

context backend_contract
begin

lemma step_rel:
  "backend_rel Q (\<nexists>outcome. ev = Be_Check outcome) w (backend_step B ev w)"
proof (cases ev)
  case (Be_Check outcome)
  then show ?thesis by (simp add: rel_refl check_rel)
next
  case (Be_Deadline i)
  then show ?thesis by (simp add: rel_refl deadline_rel(1) split: option.split)
next
  case (Be_Bus i failure)
  then show ?thesis using bus_ready_rel by (simp add: rel_refl split: option.split)
qed (simp_all add: rel_refl own_step_rel b_ready_rel b_retry_rel invalidate_rel reply_rel authority_changed_cb_def
    split: option.split)

lemma step_Q: "Q w (backend_step B ev w)"
  using rel_Q [OF step_rel] .

end

end
