(* ===== verification/Wiring.thy ===== *)
theory Wiring
  imports System Backend_Contract
begin

text \<open>
  The client put together: the controller calls the functions of \<open>amneziawg/backend.c\<close>, and the
  backend's callbacks are those of the controller and the inventory. What is left open is the user
  interface, the clock, polkit, the message bus, the file system and the sockets.
\<close>

section \<open>The wiring\<close>

fun call_result ::
    "('x backend_ext) controller_env \<Rightarrow> call_owner \<Rightarrow> backend_result \<Rightarrow> 'x backend_scheme \<Rightarrow> 'x backend_scheme" where
  "call_result C (Owner_Action action) res w = backend_service_result C action res w"
| "call_result C (Owner_Inventory rid) res w = inventory_result_cb (inventory_env C) rid res w"

definition wired_backend :: "'x backend_env \<Rightarrow> ('x backend_ext) controller_env \<Rightarrow> 'x backend_env" where
  "wired_backend B C = B\<lparr>be_authorization_changed := backend_authorization_changed C, be_result := call_result C\<rparr>"

definition wired_controller ::
    "('x backend_ext) controller_env \<Rightarrow> 'x backend_env \<Rightarrow> ('x backend_ext) controller_env" where
  "wired_controller C B =
     C\<lparr>ce_execute := (\<lambda>action. backend_execute B (sa_operation action) (sa_name action) (sa_config action) None
                       (Owner_Action action)),
       ce_invalidate_authorization := backend_invalidate_authorization B,
       ce_backend_start := backend_start, ce_backend_stop := backend_stop,
       ce_list := (\<lambda>rid. backend_execute B BACKEND_LIST_PROFILES (Some []) None (Some rid) (Owner_Inventory rid)),
       ce_cancel := cancel_token\<rparr>"

text \<open>The callbacks are nested to a depth; the innermost do nothing.\<close>

primrec client_backend ::
    "('x backend_ext) controller_env \<Rightarrow> 'x backend_env \<Rightarrow> (('x backend_ext) controller_ext) runtime_env \<Rightarrow>
     nat \<Rightarrow> 'x backend_env" where
  "client_backend C B R 0 = B\<lparr>be_authorization_changed := (\<lambda>auth w. w), be_result := (\<lambda>owner res w. w)\<rparr>"
| "client_backend C B R (Suc n) =
     wired_backend B (system_controller (wired_controller C (client_backend C B R n)) R n)"

definition client_controller ::
    "('x backend_ext) controller_env \<Rightarrow> 'x backend_env \<Rightarrow> (('x backend_ext) controller_ext) runtime_env \<Rightarrow>
     nat \<Rightarrow> ('x backend_ext) controller_env" where
  "client_controller C B R n = system_controller (wired_controller C (client_backend C B R n)) R n"

definition client_runtime ::
    "('x backend_ext) controller_env \<Rightarrow> 'x backend_env \<Rightarrow> (('x backend_ext) controller_ext) runtime_env \<Rightarrow>
     nat \<Rightarrow> (('x backend_ext) controller_ext) runtime_env" where
  "client_runtime C B R n = system_runtime (wired_controller C (client_backend C B R n)) R n"

lemma client_backend_Suc: "client_backend C B R (Suc n) = wired_backend B (client_controller C B R n)"
  by (simp add: client_controller_def)

section \<open>The contract\<close>

lemma backend_more_rel:
  fixes x y :: "'x backend_scheme"
  shows "controller.more y = controller.more x \<Longrightarrow> b_rel x y"
  by (cases x; cases y)
    (simp add: b_step_def b_ok_def flags_ok_def calls_ok_def b_mono_def calls_le_def call_at_def)

lemma same_client_rel:
  fixes x y :: "'x backend_scheme"
  assumes "same_client x y"
  shows "sys_rel x y"
proof -
  have "controller.truncate y = controller.truncate x" using assms by (simp add: same_client_def)
  then have "ctl_own x y" "c_evolves x y"
    by (cases x; cases y; simp add: controller.truncate_def ctl_own_def runtime_source.truncate_def
        c_evolves_def c_keeps_def c_invs)+
  then show ?thesis by (rule own_rel)
qed

text \<open>
  The user interface may call the controller from its callbacks, so it may do what the controller
  does; the same is allowed of whoever sends a message.
\<close>

locale client_world =
  fixes C :: "('x backend_ext) controller_env" and B :: "'x backend_env"
    and R :: "(('x backend_ext) controller_ext) runtime_env"
  assumes changed: "client_rel b_rel w (ce_changed C d w)"
    and ui_event: "client_rel b_rel w (snd (ce_ui_event C ev w))"
    and call: "client_rel b_rel w (be_call B message w)"
begin

lemma backend_rel_client: "backend_rel sys_rel True w w' \<longleftrightarrow> client_rel b_rel w w'"
  by (auto simp: backend_rel_def client_rel_def)

lemma world_from_backend:
  assumes "backend_contract (client_backend C B R n) sys_rel"
  shows "system_world (wired_controller C (client_backend C B R n)) b_rel"
proof
  note ops = backend_contract.execute_rel [OF assms] backend_contract.invalidate_rel [OF assms]
    backend_contract.own_rels [OF assms]
  show "client_rel b_rel w (ce_execute (wired_controller C (client_backend C B R n)) action w)"
    "client_rel b_rel w (ce_invalidate_authorization (wired_controller C (client_backend C B R n)) w)"
    "client_rel b_rel w (ce_backend_start (wired_controller C (client_backend C B R n)) w)"
    "client_rel b_rel w (ce_backend_stop (wired_controller C (client_backend C B R n)) w)"
    "client_rel b_rel w (ce_list (wired_controller C (client_backend C B R n)) rid w)"
    "client_rel b_rel w (ce_cancel (wired_controller C (client_backend C B R n)) token w)" for w action rid token
    by (simp_all add: wired_controller_def ops flip: backend_rel_client)
qed (simp_all add: wired_controller_def changed ui_event backend_more_rel, rule b_step_trans)

lemma backend_contract_all: "backend_contract (client_backend C B R n) sys_rel"
proof (induction n)
  case 0
  show ?case
    by unfold_locales (auto simp: backend_rel_client call client_rel_def call [unfolded client_rel_def]
      intro: sys_trans same_client_rel)
next
  case (Suc n)
  let ?C = "client_controller C B R n"
  note world = world_from_backend [OF Suc]
  note control = system_world.controller_contract_all [OF world, of R n, folded client_controller_def]
  note frame = system_world.controller_frame_all [OF world, of R n, folded client_controller_def]
  have auth: "client_rel b_rel w (backend_authorization_changed ?C auth w)" for auth w
    using controller_contract.authorization_changed_rel [OF control]
      controller_frame.authorization_changed [OF frame controller_frame.P_refl [OF frame]]
    by (simp add: client_rel_def)
  have result: "client_rel b_rel w (call_result ?C owner res w)" for owner res w
    using controller_contract.service_result_rel [OF control]
      controller_frame.service_result [OF frame controller_frame.P_refl [OF frame]]
      controller_contract.inventory_rels(8) [OF control] controller_frame.inventory_steps(4) [OF frame controller_frame.P_refl [OF frame]]
    by (cases owner) (simp_all add: client_rel_def)
  show ?case
    unfolding client_backend_Suc wired_backend_def
    by unfold_locales (auto simp: backend_rel_client call auth result intro: sys_trans same_client_rel)
qed

lemmas system_world_all = world_from_backend [OF backend_contract_all]

end

sublocale client_world \<subseteq> backend: backend_contract "client_backend C B R n" sys_rel for n
  by (rule backend_contract_all)

sublocale client_world \<subseteq> system: system_world "wired_controller C (client_backend C B R n)" R b_rel for n
  by (rule system_world_all)

section \<open>Histories\<close>

text \<open>Events of the user, the timers, the monitors and the scans, and those of the backend.\<close>

datatype client_event = Cl_System system_event | Cl_Backend backend_event

text \<open>What only the client's own parts do to one another is no event of its own.\<close>

fun internal :: "system_event \<Rightarrow> bool" where
  "internal (Sy_Authorization auth) = True"
| "internal (Sy_Service_Result action res) = True"
| "internal (Sy_Inventory_Result rid res) = True"
| "internal (Sy_Runtime op) = runtime_operation op"
| "internal _ = False"

definition client_step ::
    "('x backend_ext) controller_env \<Rightarrow> 'x backend_env \<Rightarrow> (('x backend_ext) controller_ext) runtime_env \<Rightarrow>
     nat \<Rightarrow> client_event \<Rightarrow> 'x backend_scheme \<Rightarrow> 'x backend_scheme" where
  "client_step C B R n ev w =
     (case ev of
        Cl_System e \<Rightarrow> if internal e then w else system_step (client_controller C B R n) (client_runtime C B R n) e w
      | Cl_Backend e \<Rightarrow> backend_step (client_backend C B R n) e w)"

primrec client_run ::
    "('x backend_ext) controller_env \<Rightarrow> 'x backend_env \<Rightarrow> (('x backend_ext) controller_ext) runtime_env \<Rightarrow>
     nat \<Rightarrow> client_event list \<Rightarrow> 'x backend_scheme \<Rightarrow> 'x backend_scheme" where
  "client_run C B R n [] w = w"
| "client_run C B R n (ev # evs) w = client_run C B R n evs (client_step C B R n ev w)"

definition client_new :: "'x backend_scheme \<Rightarrow> 'x backend_scheme" where
  "client_new w = backend_new (controller_new w)"

inductive client_reachable ::
    "('x backend_ext) controller_env \<Rightarrow> 'x backend_env \<Rightarrow> (('x backend_ext) controller_ext) runtime_env \<Rightarrow>
     nat \<Rightarrow> 'x backend_scheme \<Rightarrow> bool" for C B R n where
  fresh: "client_reachable C B R n (client_new w)"
| event: "client_reachable C B R n w \<Longrightarrow> client_reachable C B R n (client_step C B R n ev w)"
| world: "client_reachable C B R n w \<Longrightarrow> client_rel b_rel w w' \<Longrightarrow> client_reachable C B R n w'"

definition client_ok :: "'x backend_scheme \<Rightarrow> bool" where
  "client_ok w \<longleftrightarrow> system_ok w \<and> b_ok w"

lemma client_new_ok: "client_ok (client_new w)"
proof -
  let ?v = "controller_new w"
  have "sys_rel ?v (backend_new ?v)"
    by (rule own_rel) (cases ?v; simp add: backend_new_def ctl_own_def runtime_source.truncate_def
        c_evolves_def c_keeps_def c_invs)+
  then have "system_ok (backend_new ?v)" by (rule system_ok_rel [OF new_system_ok])
  then show ?thesis
    by (simp add: client_ok_def client_new_def) (simp add: backend_new_def b_ok_def flags_ok_def calls_ok_def call_at_def)
qed

lemma client_ok_rel: "client_ok w \<Longrightarrow> client_rel b_rel w w' \<Longrightarrow> client_ok w'"
  unfolding client_ok_def client_rel_def using system_ok_rel [of w w'] by (simp add: b_step_def)

lemma client_run_reachable: "client_reachable C B R n w \<Longrightarrow> client_reachable C B R n (client_run C B R n evs w)"
  by (induction evs arbitrary: w) (simp_all add: client_reachable.event)

context client_world
begin

text \<open>Every step keeps what it may; only the completion of a check ends the wait for its repetition.\<close>

lemma client_step_cases:
  obtains (rel) "client_rel b_rel w (client_step C B R n ev w)"
    | (runtime) op where "ev = Cl_System (Sy_Runtime op)"
        "client_step C B R n ev w = system_step (client_controller C B R n) (client_runtime C B R n) (Sy_Runtime op) w"
    | (check) outcome where "ev = Cl_Backend (Be_Check outcome)"
        "backend_rel sys_rel False w (client_step C B R n ev w)"
proof (cases ev)
  case (Cl_System e)
  then show thesis
    using rel runtime system.system_step_rel [of e w n n]
    by (cases "internal e"; cases "\<exists>op. e = Sy_Runtime op")
      (auto simp: client_step_def client_controller_def client_runtime_def client_rel_def)
next
  case (Cl_Backend e)
  have step: "backend_rel sys_rel (\<nexists>outcome. e = Be_Check outcome) w (client_step C B R n ev w)"
    using backend.step_rel [of e w n] by (simp add: Cl_Backend client_step_def)
  show thesis
  proof (cases "\<exists>outcome. e = Be_Check outcome")
    case True
    then show thesis using check step Cl_Backend by auto
  next
    case False
    then have "(\<nexists>outcome. e = Be_Check outcome) = True" by simp
    then show thesis using rel step by (simp only: backend_rel_client)
  qed
qed

lemma runtime_beside:
  "beside_runtime b_rel w (system_step (client_controller C B R n) (client_runtime C B R n) (Sy_Runtime op) w)"
  using system.runtime_step_beside by (simp add: client_controller_def client_runtime_def)

lemma client_step_beside: "beside_runtime (b_step False) w (client_step C B R n ev w)"
proof (cases rule: client_step_cases [where ev = ev and w = w and n = n])
  case rel
  then show ?thesis using client_rel_beside [of b_rel] by (auto simp: beside_runtime_def b_step_weaken)
next
  case runtime
  then show ?thesis using runtime_beside by (auto simp: beside_runtime_def b_step_weaken)
next
  case check
  then show ?thesis by (auto simp: beside_runtime_def backend_rel_def sys_rel_evolves sys_rel_c)
qed

lemma client_run_beside: "beside_runtime (b_step False) w (client_run C B R n evs w)"
proof (induction evs arbitrary: w)
  case (Cons ev evs)
  show ?case using client_step_beside [of w n ev] Cons [of "client_step C B R n ev w"]
    unfolding beside_runtime_def client_run.simps
    by (blast intro: evolves_trans c_evolves_trans b_step_trans)
qed (simp add: beside_runtime_def)

text \<open>Until the completion of a check, nothing but a stop forgets that it is to be repeated.\<close>

lemma client_step_no_check:
  assumes "\<And>outcome. ev \<noteq> Cl_Backend (Be_Check outcome)"
  shows "b_rel w (client_step C B R n ev w)"
proof (cases rule: client_step_cases [where ev = ev and w = w and n = n])
  case runtime
  then show ?thesis using runtime_beside by (auto simp: beside_runtime_def)
qed (use assms in \<open>auto simp: client_rel_def\<close>)

lemma client_run_no_check:
  "(\<And>outcome. Cl_Backend (Be_Check outcome) \<notin> set evs) \<Longrightarrow> b_rel w (client_run C B R n evs w)"
proof (induction evs arbitrary: w)
  case (Cons ev evs)
  then have "b_rel w (client_step C B R n ev w)" "b_rel (client_step C B R n ev w) (client_run C B R n (ev # evs) w)"
    by (auto intro: client_step_no_check)
  then show ?case by (rule b_step_trans)
qed simp

lemma client_step_ok:
  assumes "client_ok w"
  shows "client_ok (client_step C B R n ev w)"
proof (cases rule: client_step_cases [where ev = ev and w = w and n = n])
  case rel
  then show ?thesis by (rule client_ok_rel [OF assms])
next
  case (runtime op)
  then show ?thesis
    using assms system.system_step_ok [of w n n "Sy_Runtime op"] runtime_beside [of w n op]
    by (simp add: client_ok_def client_controller_def client_runtime_def beside_runtime_def b_step_def)
next
  case check
  then show ?thesis
    using assms system_ok_rel [of w] by (simp add: client_ok_def backend_rel_def b_step_def)
qed

lemma client_reachable_ok: "client_reachable C B R n w \<Longrightarrow> client_ok w"
proof (induction rule: client_reachable.induct)
  case (event w ev)
  then show ?case by (blast intro: client_step_ok)
qed (auto intro: client_new_ok client_ok_rel)

end

end
