(* ===== verification/Client.thy ===== *)
theory Client
  imports Wiring
begin

text \<open>
  What holds of every history of the client that \<open>Wiring\<close> puts together: of the user's requests, the
  answers of polkit and of the service, the timers, the monitors and the scans.
\<close>

context controller_contract
begin

lemma inventory_contract_here: "inventory_contract (inventory_env C)"
  by (rule inventory.inventory_contract_axioms)

lemma inventory_frame_here: "inventory_frame (inventory_env C) (\<lambda>w w'. rs_evolves w w' \<and> c_evolves w w')"
  by (rule frame.inventory_frame_axioms)

end

section \<open>A client to run\<close>

text \<open>
  A user interface that answers every request and calls back by events only, a clock that stands
  still, and a message bus; the controller, the inventory, the runtime source and the backend are
  those of the model.
\<close>

definition quiet_ui :: "'x controller_env" where
  "quiet_ui =
     \<lparr>ce_changed = (\<lambda>d w. w), ce_ui_event = (\<lambda>ev w. (ev_type ev \<noteq> UI_EXTERNAL_INTERACTION_ACTIVE, w)),
      ce_execute = (\<lambda>action w. w), ce_invalidate_authorization = (\<lambda>w. w), ce_backend_start = (\<lambda>w. w),
      ce_backend_stop = (\<lambda>w. w), ce_runtime = (\<lambda>op w. w), ce_list = (\<lambda>rid w. w),
      ce_cancel = (\<lambda>token w. w), ce_now = (\<lambda>w. 0)\<rparr>"

definition quiet_bus :: "'x backend_env" where
  "quiet_bus =
     \<lparr>be_authorization_changed = (\<lambda>auth w. w), be_result = (\<lambda>owner res w. w), be_call = (\<lambda>message w. w),
      be_now = (\<lambda>w. 0)\<rparr>"

lemma quiet_world: "client_world quiet_ui quiet_bus"
  by unfold_locales (simp_all add: quiet_ui_def quiet_bus_def client_rel_def)

abbreviation sample_controller :: "'x backend_ext controller_env" where
  "sample_controller \<equiv> client_controller quiet_ui quiet_bus quiet_runtime 1"

lemmas sample_system = client_world.system_world_all [OF quiet_world]

lemma sample_contract: "controller_contract (client_controller quiet_ui quiet_bus quiet_runtime n)"
  unfolding client_controller_def by (rule system_world.controller_contract_all [OF sample_system])

interpretation sample_inventory: inventory_contract "inventory_env (client_controller quiet_ui quiet_bus quiet_runtime n)" for n
  by (rule controller_contract.inventory_contract_here [OF sample_contract])

interpretation sample_inventory_frame: inventory_frame "inventory_env (client_controller quiet_ui quiet_bus quiet_runtime n)"
    "\<lambda>w w'. rs_evolves w w' \<and> c_evolves w w'" for n
  by (rule controller_contract.inventory_frame_here [OF sample_contract])

interpretation sample_runtime: runtime_contract "client_runtime quiet_ui quiet_bus quiet_runtime n" "beside_runtime b_rel" for n
  unfolding client_runtime_def by (rule system_world.runtime_contract_all [OF sample_system])

interpretation sample_control: controller_contract "client_controller quiet_ui quiet_bus quiet_runtime n" for n
  by (rule sample_contract)

interpretation sample_frame: controller_frame "client_controller quiet_ui quiet_bus quiet_runtime n" b_rel for n
  unfolding client_controller_def by (rule system_world.controller_frame_all [OF sample_system])

interpretation sample_backend: backend_contract "client_backend quiet_ui quiet_bus quiet_runtime n" sys_rel for n
  by (rule client_world.backend_contract_all [OF quiet_world])

interpretation sample_parts: system_world "wired_controller quiet_ui (client_backend quiet_ui quiet_bus quiet_runtime n)"
    quiet_runtime b_rel for n
  by (rule sample_system)

interpretation sample_client: client_world quiet_ui quiet_bus quiet_runtime
  by (rule quiet_world)

text \<open>Histories of this client from its creation, with one level of callbacks.\<close>

definition client_trace :: "client_event list \<Rightarrow> backend \<Rightarrow> backend" where
  "client_trace evs w0 = client_run quiet_ui quiet_bus quiet_runtime 1 evs (client_new w0)"

lemma client_trace_reachable: "client_reachable quiet_ui quiet_bus quiet_runtime 1 (client_trace evs w0)"
  unfolding client_trace_def by (rule client_run_reachable [OF client_reachable.fresh])

definition client_setup :: "client_event list" where
  "client_setup = [Cl_System Sy_Start, Cl_System (Sy_Ui_Callback True), Cl_System (Sy_Inventory_Enabled True),
     Cl_Backend (Be_Authority Authority_ready), Cl_Backend (Be_Check (Check_result True False))]"

definition client_reply :: "client_event list" where
  "client_reply = [Cl_Backend (Be_Bus 0 None), Cl_Backend (Be_Reply 0 (Call_reply
     \<lparr>reply_status = 0, reply_capabilities = or CAPABILITY_HELPER CAPABILITY_AWG_QUICK, reply_profiles = [],
      reply_complete = True\<rparr>))]"

definition client_disconnected :: "client_event list" where
  "client_disconnected = [Cl_Backend (Be_Bus 0 (Some Error_other))]"

section \<open>Liveness\<close>

text \<open>
  C14. The client never starves its own refreshes. In every state that the user's requests, the
  answers of polkit and of the service, the timers, the monitors and the scans can bring about, with
  callbacks nested to any depth: a controller that is idle and not stopping has not left the inventory
  suspended, and if the inventory is running, authorized and enabled, then a refresh that is queued
  has an armed timer or follows the request under way. The same holds of the runtime records.
\<close>

theorem idle_client_refreshes:
  assumes "client_world C B" and "client_reachable C B R n w"
    and "\<not> c_stopping w" and "c_activity w = ACTIVITY_IDLE"
  shows "\<not> suspended w \<and>
    (inventory_is_running w \<and> inv_authorized w \<and> enabled w \<and> dirty w \<longrightarrow> pending w \<or> refresh_source w) \<and>
    (runtime_source_is_running w \<and> rs_monitor_enabled w \<and> rs_refresh_pending w \<longrightarrow>
      rs_debounce_source w \<noteq> None \<or> rs_retry_source w \<noteq> None \<or> rs_scan_running w \<and> rs_scan_queued w)"
proof -
  have "system_ok w" using client_world.client_reachable_ok [OF assms(1,2)] by (simp add: client_ok_def)
  then show ?thesis
    using assms(3,4) by (auto simp: system_ok_def lively_def rs_lively_def c_settled_def runtime_source_is_running_def)
qed

theorem idle_client_refreshes_witness:
  "\<forall>w0. dirty (client_trace (client_setup @ client_disconnected) w0) \<and>
     (pending (client_trace (client_setup @ client_disconnected) w0) \<or>
      refresh_source (client_trace (client_setup @ client_disconnected) w0))"
proof
  fix w0
  let ?w = "client_trace (client_setup @ client_disconnected) w0"
  have "\<not> c_stopping ?w \<and> c_activity ?w = ACTIVITY_IDLE \<and> inventory_is_running ?w \<and> inv_authorized ?w \<and>
      enabled ?w \<and> dirty ?w"
    by (cases w0, hypsubst) code_simp
  with idle_client_refreshes [OF quiet_world client_trace_reachable, of "client_setup @ client_disconnected" w0]
  show "dirty ?w \<and> (pending ?w \<or> refresh_source ?w)" by blast
qed

text \<open>
  C13. No call is left without an answer. In every reachable state a call of the service that has not
  been answered has its deadline armed and a completion to come, and once the deadline is due, its
  timer answers the call.
\<close>

theorem every_call_is_answered:
  assumes "client_world C B" and "client_reachable C B R n w"
    and "call_at w i = Some c" and "\<not> bc_completed c"
  shows "bc_deadline_source c \<and> bc_waiting c \<noteq> None \<and> bc_callback c \<noteq> None \<and>
    (bc_deadline_msec c \<le> be_now (client_backend C B R n) w div 1000 \<longrightarrow>
      completed i (client_step C B R n (Cl_Backend (Be_Deadline i)) w))"
proof -
  have ok: "b_ok w" using client_world.client_reachable_ok [OF assms(1,2)] by (simp add: client_ok_def)
  then have "call_ok (b_started w) c" using assms(3) by (simp add: b_ok_def calls_ok_def)
  then have "bc_deadline_source c \<and> bc_waiting c \<noteq> None \<and> bc_callback c \<noteq> None"
    using assms(4) by (simp add: call_ok_def)
  then show ?thesis
    using backend_contract.deadline_rel(2) [OF client_world.backend_contract_all [OF assms(1)] assms(3) _ ok] assms(3)
    by (simp add: client_step_def)
qed

theorem every_call_is_answered_witness:
  "\<forall>w0. \<exists>c. call_at (client_trace client_setup w0) 0 = Some c \<and> bc_deadline_source c"
proof
  fix w0
  let ?w = "client_trace client_setup w0"
  have "\<not> Option.is_none (call_at ?w 0) \<and> \<not> bc_completed (the (call_at ?w 0))"
    by (cases w0, hypsubst) code_simp
  then obtain c where "call_at ?w 0 = Some c" "\<not> bc_completed c" by (auto simp: Option.is_none_def)
  with every_call_is_answered [OF quiet_world client_trace_reachable]
  show "\<exists>c. call_at ?w 0 = Some c \<and> bc_deadline_source c" by blast
qed

section \<open>Safety\<close>

text \<open>
  C16. The state is well formed. In every reachable state no part has both started and stopped, the
  activity counter is within 64 bits, a request is under way exactly with its cancellable, the
  authority, the retry and a repetition are there only while the backend is started, a check is
  repeated only if one is under way, and a call has its callback exactly until it is answered.
\<close>

theorem client_state_is_wellformed:
  assumes "client_world C B" and "client_reachable C B R n w"
  shows "\<not> (c_started w \<and> c_stopping w) \<and> \<not> (b_started w \<and> b_stopping w) \<and>
    c_activity_id w \<le> G_MAXUINT64 \<and> cancellable w = (if pending w then Some (request_id w) else None) \<and>
    (b_lifecycle w \<longleftrightarrow> b_started w) \<and> (b_authority w \<or> b_retry_source w \<or> b_recheck w \<longrightarrow> b_started w) \<and>
    (b_started w \<longrightarrow> b_authority w \<or> b_authority_pending w \<or> b_retry_source w) \<and>
    (b_recheck w \<longrightarrow> b_check_pending w) \<and>
    (\<forall>i c. call_at w i = Some c \<longrightarrow> (bc_completed c \<longleftrightarrow> bc_callback c = None))"
proof -
  have ok: "system_ok w" "b_ok w"
    using client_world.client_reachable_ok [OF assms] by (simp_all add: client_ok_def)
  have "bc_completed c \<longleftrightarrow> bc_callback c = None" if "call_at w i = Some c" for i c
  proof -
    have "call_ok (b_started w) c" using ok(2) that by (simp add: b_ok_def calls_ok_def)
    then show ?thesis by (auto simp: call_ok_def split: if_splits)
  qed
  moreover have "cancellable w = (if pending w then Some (request_id w) else None)"
    using ok(1) by (simp add: system_ok_def inv_ok_def)
  ultimately show ?thesis using ok by (auto simp: system_ok_def c_ok_def b_ok_def flags_ok_def)
qed

theorem client_state_is_wellformed_witness:
  "\<forall>w0. b_started (client_trace client_setup w0) \<and>
     (b_authority (client_trace client_setup w0) \<or> b_authority_pending (client_trace client_setup w0) \<or>
      b_retry_source (client_trace client_setup w0))"
proof
  fix w0
  let ?w = "client_trace client_setup w0"
  have "b_started ?w" by (cases w0, hypsubst) code_simp
  with client_state_is_wellformed [OF quiet_world client_trace_reachable, of client_setup w0]
  show "b_started ?w \<and> (b_authority ?w \<or> b_authority_pending ?w \<or> b_retry_source ?w)" by blast
qed



lemma verdict_unused:
  assumes "b_recheck w \<or> \<not> backend_is_running w" and "outcome \<noteq> Check_error"
  shows "authorization_check_cb B outcome w = authorization_check_cb B (Check_result False False) w"
  using assms by (auto simp: authorization_check_cb_def finish_authorization_check_def backend_is_running_def Let_def)



lemma retired_mismatch: "c_retired i w \<Longrightarrow> \<not> activity_matches i w"
  by (auto simp: c_retired_def activity_matches_def)

lemma stale_is_ignored:
  assumes "\<not> activity_matches i w" and "sa_activity_id action = i"
  shows "backend_service_result C action res w = w" and "dispatch_service_action C action w = w"
    and "confirmation_response C type i confirmed w = w" and "import_loaded C i config w = w"
  using assms by (simp_all add: backend_service_result_def dispatch_service_action_def dispatch_admission_def
      Let_def confirmation_response_def confirmation_matches_def import_loaded_def service_action_matches_def)

text \<open>
  C11. What is over stays over. Once an activity has ended, then whatever happens afterwards, a late
  reply of the service, a late confirmation or a late file for it changes nothing, and its action is
  not dispatched.
\<close>

theorem finished_activity_is_final:
  assumes "client_world C B" and "c_retired i w" and "sa_activity_id action = i"
    and "w' = client_run C B R n evs w"
  shows "backend_service_result (client_controller C B R n) action res w' = w' \<and>
    dispatch_service_action (client_controller C B R n) action w' = w' \<and>
    confirmation_response (client_controller C B R n) type i confirmed w' = w' \<and>
    import_loaded (client_controller C B R n) i config w' = w'"
proof -
  have "c_evolves w w'"
    using client_world.client_run_beside [OF assms(1)] assms(4) by (simp add: beside_runtime_def)
  then have "c_retired i w'" using assms(2) by (simp add: c_evolves_def c_keeps_def)
  then show ?thesis using stale_is_ignored [OF retired_mismatch assms(3)] by blast
qed

theorem finished_activity_is_final_witness:
  "\<forall>w0 evs config.
     let w' = client_run quiet_ui quiet_bus quiet_runtime 1 evs
       (client_trace (client_setup @ client_reply @ [Cl_System Sy_Import, Cl_System (Sy_Selection_Cancelled 1)]) w0)
     in import_loaded sample_controller 1 config w' = w'"
proof (intro allI)
  fix w0 evs config
  let ?w = "client_trace (client_setup @ client_reply @ [Cl_System Sy_Import, Cl_System (Sy_Selection_Cancelled 1)]) w0"
  have "c_retired 1 ?w" by (cases w0, hypsubst) code_simp
  then show "let w' = client_run quiet_ui quiet_bus quiet_runtime 1 evs ?w
     in import_loaded sample_controller 1 config w' = w'"
    unfolding Let_def
    by (rule finished_activity_is_final [where action = "\<lparr>sa_activity_id = 1, sa_name = None, sa_config = None,
            sa_operation = BACKEND_IMPORT, sa_cleanup_only = False\<rparr>", OF quiet_world _ _ refl,
          THEN conjunct2, THEN conjunct2, THEN conjunct2]) simp
qed

text \<open>
  C6. A loss of authorization ends every interaction. Selecting or loading a file and confirming a
  replacement or a deletion are over for good when the backend reports that the user is no longer
  authorized, whatever the callbacks do meanwhile.
\<close>

theorem authorization_loss_ends_interaction:
  assumes "client_world C B" and "controller_is_running w" and "is_interaction (c_activity w)"
  shows "c_retired (c_activity_id w) (backend_authorization_changed (client_controller C B R n) False w)"
  using controller_contract.lost_interaction_retired
      [OF system_world.controller_contract_all [OF client_world.system_world_all [OF assms(1)]] assms(3)] assms(2)
  by (simp add: backend_authorization_changed_def client_controller_def)

theorem authorization_loss_ends_interaction_witness:
  "\<forall>w0. c_retired 1 (backend_authorization_changed sample_controller False
     (client_trace (client_setup @ client_reply @ [Cl_System Sy_Import]) w0))"
proof
  fix w0
  let ?w = "client_trace (client_setup @ client_reply @ [Cl_System Sy_Import]) w0"
  have "controller_is_running ?w \<and> is_interaction (c_activity ?w) \<and> c_activity_id ?w = 1"
    by (cases w0, hypsubst) code_simp
  with authorization_loss_ends_interaction [OF quiet_world, of ?w]
  show "c_retired 1 (backend_authorization_changed sample_controller False ?w)"
    by simp
qed

text \<open>
  C3. Only what is admitted is executed. An action is handed to the service only in a state where its
  activity is still under way, the controller is running and authorized, the configuration that the
  operation needs is there, no dependency it needs is missing and, for everything but bringing an
  interface down, the policy allows it on the facts of that moment: whatever the callbacks of the
  checks have changed is taken into account. In particular a profile that is brought up is saved
  and available then, and its runtime records are fresh.
\<close>

theorem dispatched_actions_are_admitted:
  fixes w :: "'x controller_scheme"
  shows "dispatch_service_action C action w = snd (dispatch_admission C action w) \<and> \<not> fst (dispatch_admission C action w) \<or>
    (\<exists>w'. dispatch_admission C action w = (True, w') \<and>
      dispatch_service_action C action w =
        ce_execute C action (runtime_set_mutation_active (is_mutation (sa_operation action)) w') \<and>
      activity_matches (sa_activity_id action) w' \<and> c_authorized w' \<and>
      \<not> (sa_operation action \<in> {BACKEND_IMPORT, BACKEND_REPLACE} \<and> sa_config action = None) \<and>
      operation_missing_dependencies (sa_operation action) (sa_name action) (sa_cleanup_only action) w' = 0 \<and>
      (sa_operation action = BACKEND_DOWN \<or>
        av_allowed (operation_availability (sa_operation action) (sa_name action) True w')) \<and>
      (sa_operation action \<noteq> BACKEND_UP \<or>
        (\<exists>n. sa_name action = Some n \<and> get_profile_status (inv_model w') n = Some PROFILE_AVAILABLE \<and> rs_records_fresh w')))"
proof (cases "fst (dispatch_admission C action w)")
  case True
  then obtain w' where r: "dispatch_admission C action w = (True, w')" by (metis prod.collapse)
  have allowed: "activity_matches (sa_activity_id action) w' \<and> c_authorized w' \<and>
      \<not> (sa_operation action \<in> {BACKEND_IMPORT, BACKEND_REPLACE} \<and> sa_config action = None) \<and>
      operation_missing_dependencies (sa_operation action) (sa_name action) (sa_cleanup_only action) w' = 0 \<and>
      (sa_operation action = BACKEND_DOWN \<or>
        av_allowed (operation_availability (sa_operation action) (sa_name action) True w'))"
    using r unfolding dispatch_admission_def Let_def
    by (auto simp: DEPENDENCY_NONE_def service_action_matches_def operation_is_allowed_def Let_def
        split: if_splits prod.splits)
  have "\<exists>n. sa_name action = Some n \<and> get_profile_status (inv_model w') n = Some PROFILE_AVAILABLE \<and> rs_records_fresh w'"
    if "sa_operation action = BACKEND_UP"
  proof -
    have "target_permits ACTION_UP (Some (controller_admission_target (sa_name action) w'))"
      using allowed that by (simp add: operation_availability_def action_allowed_iff)
    then show ?thesis
      by (auto simp: controller_admission_target_def get_cached_def Let_def settled_def
          split: option.splits if_splits prod.splits)
  qed
  with allowed r show ?thesis by (auto simp: dispatch_service_action_def)
qed (auto simp: dispatch_service_action_def split: prod.split)

theorem dispatched_actions_are_admitted_witness:
  "\<forall>w0. let w = client_trace (client_setup @ client_reply @ [Cl_System Sy_Import,
         Cl_System (Sy_File_Selected (\<lambda>s. s) 1 (Some ''awg0.conf''))]) w0;
       action = \<lparr>sa_activity_id = 1, sa_name = Some ''awg0'', sa_config = Some [CHR ''x''],
         sa_operation = BACKEND_IMPORT, sa_cleanup_only = False\<rparr>
     in \<exists>w'. dispatch_service_action sample_controller action w =
            ce_execute sample_controller action (runtime_set_mutation_active True w') \<and>
          activity_matches 1 w' \<and> c_authorized w'"
proof
  fix w0
  let ?w = "client_trace (client_setup @ client_reply @ [Cl_System Sy_Import,
     Cl_System (Sy_File_Selected (\<lambda>s. s) 1 (Some ''awg0.conf''))]) w0"
  let ?action = "\<lparr>sa_activity_id = 1, sa_name = Some ''awg0'', sa_config = Some [CHR ''x''],
    sa_operation = BACKEND_IMPORT, sa_cleanup_only = False\<rparr>"
  have "fst (dispatch_admission sample_controller ?action ?w)"
    by (cases w0, hypsubst) code_simp
  then show "let w = ?w; action = ?action
     in \<exists>w'. dispatch_service_action sample_controller action w =
            ce_execute sample_controller action (runtime_set_mutation_active True w') \<and>
          activity_matches 1 w' \<and> c_authorized w'"
    using dispatched_actions_are_admitted [of sample_controller ?action ?w]
    unfolding Let_def by (auto simp: is_mutation_def)
qed

end
