(* ===== verification/Quick_Diagnostics.thy ===== *)
theory Quick_Diagnostics
  imports Link_Identity
begin

text \<open>
  \<open>helper/amneziawg_quick_diagnostics.h\<close> and \<open>.c\<close>, and \<open>helper/amneziawg_helper_quick.c\<close>: the
  helper runs \<open>awg-quick\<close> and reads from the commands that the tool echoes how far it came. The
  buffer of a line is the list of the bytes it holds. Running a process, and with it the bytes of
  its diagnostics as they arrive, is the parameter \<open>quick_os\<close>.
\<close>

section \<open>Data\<close>

datatype quick_stage =
  STAGE_NONE | STAGE_INTERFACE | STAGE_USERSPACE | STAGE_SETCONF | STAGE_ADDRESS | STAGE_MTU
| STAGE_DNS | STAGE_ROUTE | STAGE_FIREWALL

fun stage_rank :: "quick_stage \<Rightarrow> nat" where
  "stage_rank STAGE_NONE = 0"
| "stage_rank STAGE_INTERFACE = 1"
| "stage_rank STAGE_USERSPACE = 2"
| "stage_rank STAGE_SETCONF = 3"
| "stage_rank STAGE_ADDRESS = 4"
| "stage_rank STAGE_MTU = 5"
| "stage_rank STAGE_DNS = 6"
| "stage_rank STAGE_ROUTE = 7"
| "stage_rank STAGE_FIREWALL = 8"

instantiation quick_stage :: linorder
begin

definition less_eq_quick_stage :: "quick_stage \<Rightarrow> quick_stage \<Rightarrow> bool" where
  "s \<le> t \<longleftrightarrow> stage_rank s \<le> stage_rank t"

definition less_quick_stage :: "quick_stage \<Rightarrow> quick_stage \<Rightarrow> bool" where
  "s < t \<longleftrightarrow> stage_rank s < stage_rank t"

instance
proof
  fix s t :: quick_stage
  show "s \<le> t \<Longrightarrow> t \<le> s \<Longrightarrow> s = t" by (cases s; cases t) (simp_all add: less_eq_quick_stage_def)
qed (auto simp: less_eq_quick_stage_def less_quick_stage_def)

end

definition diagnostic_line_limit :: nat where "diagnostic_line_limit = 16 * 1024"

record quick_diagnostics =
  qd_line :: bytes
  qd_discarding :: bool
  qd_userspace_started :: bool
  qd_current_stage :: quick_stage
  qd_failure_candidate :: quick_stage
  qd_interface_seen :: bool
  qd_teardown_seen :: bool
  qd_recovery_blocked :: bool

definition diagnostics_init :: quick_diagnostics where
  "diagnostics_init =
     \<lparr>qd_line = [], qd_discarding = False, qd_userspace_started = False, qd_current_stage = STAGE_NONE,
      qd_failure_candidate = STAGE_NONE, qd_interface_seen = False, qd_teardown_seen = False,
      qd_recovery_blocked = False\<rparr>"

datatype subprocess_status =
  SUBPROCESS_EXITED | SUBPROCESS_SETUP_FAILED | SUBPROCESS_IO_FAILED | SUBPROCESS_OUTPUT_TOO_LARGE
| SUBPROCESS_TIMED_OUT | SUBPROCESS_CANCELLED

record subprocess_result =
  sp_status :: subprocess_status
  sp_may_have_run :: bool
  sp_wait_status :: nat
  sp_diagnostics_complete :: bool

text \<open>The macros of \<open>sys/wait.h\<close> on a wait status.\<close>

definition WIFEXITED :: "nat \<Rightarrow> bool" where "WIFEXITED s \<longleftrightarrow> s mod 128 = 0"
definition WEXITSTATUS :: "nat \<Rightarrow> nat" where "WEXITSTATUS s = s div 256 mod 256"
definition WIFSIGNALED :: "nat \<Rightarrow> bool" where "WIFSIGNALED s \<longleftrightarrow> s mod 128 \<noteq> 0 \<and> s mod 128 \<noteq> 127"

section \<open>Lines\<close>

definition line_has_prefix :: "bytes \<Rightarrow> string \<Rightarrow> bool" where
  "line_has_prefix line text \<longleftrightarrow> length line \<ge> length text \<and> take (length text) line = text"

definition link_delete :: string where "link_delete = ''[#] ip link delete dev ''"
definition link_add :: string where "link_add = ''[#] ip link add ''"

definition line_is_teardown_command :: "bytes \<Rightarrow> bool" where
  "line_is_teardown_command line \<longleftrightarrow>
     line_has_prefix line ''[#] resolvconf -d '' \<or>
     line_has_prefix line ''[#] ip -4 rule delete '' \<or>
     line_has_prefix line ''[#] ip -6 rule delete '' \<or>
     line_has_prefix line ''[#] ip -4 route delete '' \<or>
     line_has_prefix line ''[#] ip -6 route delete '' \<or>
     line_has_prefix line link_delete"

text \<open>The name and the token are read as C strings once they have been copied.\<close>

definition line_is_link_claim :: "bytes \<Rightarrow> bool" where
  "line_is_link_claim line =
     (let start = ''[#] ip link set dev ''; alias = '' alias '' @ link_alias_prefix
      in if \<not> line_has_prefix line start then False
         else
           let rest = drop (length start) line;
               name = takeWhile (\<lambda>c. c \<noteq> CHR '' '') rest;
               tail = drop (length name) rest
           in if tail = [] then False
              else if length name \<ge> max_interface_length + 1 \<or>
                      length tail \<noteq> length alias + link_token_length \<or>
                      take (length alias) tail \<noteq> alias then False
              else name_is_valid (Some (c_string name)) \<and>
                   link_token_is_valid (Some (c_string (drop (length alias) tail))))"

definition observe_stage :: "quick_stage \<Rightarrow> quick_diagnostics \<Rightarrow> quick_diagnostics" where
  "observe_stage stage d =
     (let d1 = (if stage \<ge> STAGE_DNS \<or> stage < qd_current_stage d \<or> qd_teardown_seen d
                then d\<lparr>qd_recovery_blocked := True\<rparr> else d)
      in if stage = STAGE_INTERFACE then d1\<lparr>qd_interface_seen := True\<rparr> else d1)"

definition fallback_marker :: string where
  "fallback_marker =
     ''[!] Missing WireGuard (Amnezia VPN) kernel module. Falling back to slow userspace implementation.''"

text \<open>The stage that a command belongs to, and whether it is one of the firewall loaders.\<close>

definition command_stage :: "bytes \<Rightarrow> quick_stage \<times> bool" where
  "command_stage line =
     (if line_has_prefix line link_add then (STAGE_INTERFACE, False)
      else if line_has_prefix line ''[#] amneziawg-go '' then (STAGE_USERSPACE, False)
      else if line_has_prefix line ''[#] awg setconf '' then (STAGE_SETCONF, False)
      else if line_has_prefix line ''[#] ip -4 address add '' \<or>
              line_has_prefix line ''[#] ip -6 address add '' then (STAGE_ADDRESS, False)
      else if line_has_prefix line ''[#] ip link set mtu '' then (STAGE_MTU, False)
      else if line_has_prefix line ''[#] resolvconf -a '' then (STAGE_DNS, False)
      else if line_has_prefix line ''[#] awg set '' \<or>
              line_has_prefix line ''[#] ip -4 rule add '' \<or> line_has_prefix line ''[#] ip -6 rule add '' \<or>
              line_has_prefix line ''[#] ip -4 route add '' \<or> line_has_prefix line ''[#] ip -6 route add ''
      then (STAGE_ROUTE, False)
      else if line_has_prefix line ''[#] sysctl -q net.ipv4.conf.all.src_valid_mark=1'' then (STAGE_FIREWALL, False)
      else if line_has_prefix line ''[#] nft -f '' \<or> line_has_prefix line ''[#] iptables-restore -n'' \<or>
              line_has_prefix line ''[#] ip6tables-restore -n'' then (STAGE_FIREWALL, True)
      else (STAGE_NONE, False))"

definition classify_line :: "quick_diagnostics \<Rightarrow> quick_diagnostics" where
  "classify_line d =
     (let line = qd_line d
      in if line = fallback_marker then
           let d1 = observe_stage STAGE_USERSPACE d;
               d2 = (if qd_failure_candidate d1 = STAGE_INTERFACE then d1\<lparr>qd_failure_candidate := STAGE_NONE\<rparr> else d1)
           in d2\<lparr>qd_current_stage := STAGE_USERSPACE, qd_userspace_started := True\<rparr>
         else if line_is_teardown_command line then
           (if line_has_prefix line link_delete then d\<lparr>qd_teardown_seen := True\<rparr>
            else d\<lparr>qd_recovery_blocked := True\<rparr>)
         else
           let (stage, cleanup_capable_firewall) = command_stage line;
               d1 = (if stage = STAGE_USERSPACE then d\<lparr>qd_userspace_started := True\<rparr> else d)
           in if stage \<noteq> STAGE_NONE then
                let d2 = observe_stage stage d1
                in if cleanup_capable_firewall \<and> qd_failure_candidate d2 \<noteq> STAGE_NONE then d2
                   else d2\<lparr>qd_current_stage := stage, qd_failure_candidate := STAGE_NONE\<rparr>
              else
                let d2 = (if line_has_prefix line ''[#]'' \<and>
                             (\<not> line_is_link_claim line \<or> qd_teardown_seen d1 \<or> qd_current_stage d1 > STAGE_USERSPACE)
                          then d1\<lparr>qd_recovery_blocked := True\<rparr> else d1)
                in if length line > 0 \<and> qd_current_stage d2 \<noteq> STAGE_NONE \<and> qd_failure_candidate d2 = STAGE_NONE
                   then d2\<lparr>qd_failure_candidate := qd_current_stage d2\<rparr> else d2)"

definition consume_byte :: "byte \<Rightarrow> quick_diagnostics \<Rightarrow> quick_diagnostics" where
  "consume_byte c d =
     (if c = LF then
        (let d1 = (if \<not> qd_discarding d then classify_line d else d)
         in d1\<lparr>qd_line := [], qd_discarding := False\<rparr>)
      else if \<not> qd_discarding d then
        (let d1 = (if c = CHR 0x00 \<or> c = CHR 0x0D then d\<lparr>qd_recovery_blocked := True\<rparr> else d)
         in if length (qd_line d1) < diagnostic_line_limit then d1\<lparr>qd_line := qd_line d1 @ [c]\<rparr>
            else (classify_line (d1\<lparr>qd_recovery_blocked := True\<rparr>))\<lparr>qd_line := [], qd_discarding := True\<rparr>)
      else d)"

definition diagnostics_consume :: "bytes \<Rightarrow> quick_diagnostics \<Rightarrow> quick_diagnostics" where
  "diagnostics_consume = fold consume_byte"

definition diagnostics_finish :: "quick_diagnostics \<Rightarrow> quick_diagnostics" where
  "diagnostics_finish d =
     (let d1 = (if \<not> qd_discarding d \<and> length (qd_line d) > 0
                then classify_line (d\<lparr>qd_recovery_blocked := True\<rparr>) else d)
      in d1\<lparr>qd_line := []\<rparr>)"

definition diagnostics_failure_status :: "quick_diagnostics \<Rightarrow> helper_exit" where
  "diagnostics_failure_status d =
     (case (if qd_failure_candidate d \<noteq> STAGE_NONE then qd_failure_candidate d else qd_current_stage d) of
        STAGE_INTERFACE \<Rightarrow> HELPER_INTERFACE_CREATION_FAILED
      | STAGE_USERSPACE \<Rightarrow> HELPER_USERSPACE_FAILED
      | STAGE_SETCONF \<Rightarrow> HELPER_SETCONF_FAILED
      | STAGE_ADDRESS \<Rightarrow> HELPER_ADDRESS_FAILED
      | STAGE_MTU \<Rightarrow> HELPER_MTU_FAILED
      | STAGE_DNS \<Rightarrow> HELPER_DNS_FAILED
      | STAGE_ROUTE \<Rightarrow> HELPER_ROUTE_FAILED
      | STAGE_FIREWALL \<Rightarrow> HELPER_FIREWALL_FAILED
      | STAGE_NONE \<Rightarrow> HELPER_AWG_QUICK_FAILED)"

definition diagnostics_failed_before_routes :: "quick_diagnostics \<Rightarrow> subprocess_result \<Rightarrow> bool" where
  "diagnostics_failed_before_routes d child \<longleftrightarrow>
     sp_status child = SUBPROCESS_EXITED \<and> sp_diagnostics_complete child \<and>
     WIFEXITED (sp_wait_status child) \<and> WEXITSTATUS (sp_wait_status child) \<noteq> 0 \<and>
     WEXITSTATUS (sp_wait_status child) \<noteq> 127 \<and> qd_interface_seen d \<and> qd_teardown_seen d \<and>
     \<not> qd_recovery_blocked d \<and> qd_current_stage d \<ge> STAGE_INTERFACE \<and> qd_current_stage d \<le> STAGE_MTU"

section \<open>Running the tool\<close>

definition QUICK_STRIP_TIMEOUT_MSEC :: nat where "QUICK_STRIP_TIMEOUT_MSEC = 15 * 1000"
definition QUICK_TUNNEL_TIMEOUT_MSEC :: nat where "QUICK_TUNNEL_TIMEOUT_MSEC = 120 * 1000"
definition QUICK_TERMINATION_GRACE_MSEC :: nat where "QUICK_TERMINATION_GRACE_MSEC = 500"

datatype subprocess_completion = SUBPROCESS_WAIT_FOR_EOF | SUBPROCESS_DRAIN_ON_EXIT

record subprocess_request =
  sr_executable :: string
  sr_argv :: "string list"
  sr_output_limit :: nat
  sr_timeout_msec :: nat
  sr_termination_grace_msec :: nat
  sr_completion :: subprocess_completion
  sr_retains :: bool

record file_attributes =
  fa_regular :: bool
  fa_uid :: nat
  fa_gid :: nat
  fa_nlink :: nat
  fa_mode :: "12 word"

text \<open>
  What the helper needs of the system: whether the phase has to stop, opening a path and reading the
  attributes of what it opened, and a process, of which it gets the result, the pieces of its diagnostics and its output.
\<close>

record quick_os =
  qo_stop :: "int \<Rightarrow> helper_exit"
  qo_open :: "string \<Rightarrow> file_attributes option option"
  qo_run :: "subprocess_request \<Rightarrow> int \<Rightarrow> subprocess_result \<times> bytes list \<times> bytes option"

definition quick_paths :: "string list" where
  "quick_paths = [''/usr/bin/awg-quick'', ''/usr/sbin/awg-quick'', ''/bin/awg-quick'', ''/sbin/awg-quick'']"

unbundle bit_operations_syntax

definition quick_is_trusted :: "file_attributes \<Rightarrow> bool" where
  "quick_is_trusted a \<longleftrightarrow>
     fa_regular a \<and> fa_uid a = 0 \<and> fa_gid a = 0 \<and> fa_nlink a = 1 \<and>
     fa_mode a AND 0x49 \<noteq> 0 \<and> fa_mode a AND 0x12 = 0"

text \<open>The first path that can be opened and is trusted; an open file without attributes is skipped.\<close>

definition open_awg_quick :: "quick_os \<Rightarrow> string option" where
  "open_awg_quick Q =
     List.find (\<lambda>path. case qo_open Q path of Some (Some a) \<Rightarrow> quick_is_trusted a | _ \<Rightarrow> False) quick_paths"

definition retain_userspace_backend :: "quick_diagnostics \<Rightarrow> bool \<times> quick_diagnostics" where
  "retain_userspace_backend d = (let d1 = diagnostics_finish d in (qd_userspace_started d1, d1))"

datatype quick_execution = QUICK_NOT_STARTED | QUICK_MAY_HAVE_RUN

record quick_result =
  qr_status :: helper_exit
  qr_execution :: quick_execution
  qr_failed_before_routes :: bool

definition quick_status :: "string \<Rightarrow> subprocess_result \<Rightarrow> quick_diagnostics \<Rightarrow> helper_exit" where
  "quick_status command child d =
     (if sp_status child = SUBPROCESS_CANCELLED then HELPER_CHILD_SIGNALED
      else if sp_status child = SUBPROCESS_TIMED_OUT then HELPER_TIMED_OUT
      else if sp_status child \<noteq> SUBPROCESS_EXITED then HELPER_CHILD_SETUP_FAILED
      else if WIFSIGNALED (sp_wait_status child) then HELPER_CHILD_SIGNALED
      else if \<not> WIFEXITED (sp_wait_status child) then HELPER_AWG_QUICK_FAILED
      else if WEXITSTATUS (sp_wait_status child) \<noteq> 0 then
        (if command = ''up'' \<and> qd_current_stage d \<noteq> STAGE_NONE then diagnostics_failure_status d
         else if WEXITSTATUS (sp_wait_status child) = 127 then HELPER_CHILD_SETUP_FAILED
         else HELPER_AWG_QUICK_FAILED)
      else HELPER_SUCCESS)"

text \<open>
  One run of the tool, which says what the callers ask of its output; the output is dropped unless
  the tool succeeds.
\<close>

definition quick_request :: "string \<Rightarrow> string \<Rightarrow> string \<Rightarrow> subprocess_request" where
  "quick_request path command config_path =
     \<lparr>sr_executable = path, sr_argv = [''awg-quick'', command, config_path],
      sr_output_limit = max_config_size,
      sr_timeout_msec = (if command = ''strip'' then QUICK_STRIP_TIMEOUT_MSEC else QUICK_TUNNEL_TIMEOUT_MSEC),
      sr_termination_grace_msec = QUICK_TERMINATION_GRACE_MSEC,
      sr_completion = (if command = ''strip'' then SUBPROCESS_WAIT_FOR_EOF else SUBPROCESS_DRAIN_ON_EXIT),
      sr_retains = (command = ''up'')\<rparr>"

definition quick_not_started :: "helper_exit \<Rightarrow> quick_result" where
  "quick_not_started status =
     \<lparr>qr_status = status, qr_execution = QUICK_NOT_STARTED, qr_failed_before_routes = False\<rparr>"

definition quick_run :: "quick_os \<Rightarrow> string \<Rightarrow> string \<Rightarrow> bool \<Rightarrow> int \<Rightarrow> quick_result \<times> bytes option" where
  "quick_run Q command config_path wants_output deadline =
     (if qo_stop Q deadline \<noteq> HELPER_SUCCESS then (quick_not_started (qo_stop Q deadline), None)
      else case open_awg_quick Q of
        None \<Rightarrow> (quick_not_started HELPER_AWG_QUICK_UNAVAILABLE, None)
      | Some path \<Rightarrow>
          let (child, pieces, output) = qo_run Q (quick_request path command config_path) deadline;
              d = diagnostics_finish (fold diagnostics_consume pieces diagnostics_init);
              status = quick_status command child d
          in (\<lparr>qr_status = status,
               qr_execution = (if sp_may_have_run child then QUICK_MAY_HAVE_RUN else QUICK_NOT_STARTED),
               qr_failed_before_routes = (command = ''up'' \<and> diagnostics_failed_before_routes d child)\<rparr>,
              if status = HELPER_SUCCESS \<and> wants_output then output else None))"

section \<open>What the evidence of an early failure is worth\<close>

text \<open>The commands that leave nothing behind but the link, its addresses and its claim.\<close>

definition early_command :: "bytes \<Rightarrow> bool" where
  "early_command line \<longleftrightarrow>
     line_has_prefix line link_add \<or> line_has_prefix line ''[#] amneziawg-go '' \<or>
     line_has_prefix line ''[#] awg setconf '' \<or> line_has_prefix line ''[#] ip -4 address add '' \<or>
     line_has_prefix line ''[#] ip -6 address add '' \<or> line_has_prefix line ''[#] ip link set mtu '' \<or>
     line_has_prefix line link_delete \<or> line_is_link_claim line"

text \<open>
  The lines of a failed activation that says it ended before the routes: every command is early, the
  link was added before it was deleted, and after that nothing was run but deletions of it.
\<close>

definition early_trace :: "bytes list \<Rightarrow> bool \<Rightarrow> bool \<Rightarrow> bool" where
  "early_trace ls interface teardown \<longleftrightarrow>
     (\<forall>l \<in> set ls. length l \<le> diagnostic_line_limit \<and> CHR 0x00 \<notin> set l \<and> CHR 0x0D \<notin> set l \<and> LF \<notin> set l \<and>
        (line_has_prefix l ''[#]'' \<longrightarrow> early_command l)) \<and>
     (\<exists>up down. ls = up @ down \<and> (interface \<longrightarrow> (\<exists>l \<in> set up. line_has_prefix l link_add)) \<and>
        (teardown \<longleftrightarrow> down \<noteq> []) \<and> (down \<noteq> [] \<longrightarrow> line_has_prefix (hd down) link_delete) \<and>
        (\<forall>l \<in> set down. line_has_prefix l ''[#]'' \<longrightarrow> line_has_prefix l link_delete))"

definition diagnostics_inv :: "bytes \<Rightarrow> quick_diagnostics \<Rightarrow> bool" where
  "diagnostics_inv bs d \<longleftrightarrow>
     qd_recovery_blocked d \<or>
     \<not> qd_discarding d \<and> length (qd_line d) \<le> diagnostic_line_limit \<and>
     CHR 0x00 \<notin> set (qd_line d) \<and> CHR 0x0D \<notin> set (qd_line d) \<and> LF \<notin> set (qd_line d) \<and>
     (\<exists>ls. bs = concat (map (\<lambda>l. l @ [LF]) ls) @ qd_line d \<and>
        early_trace ls (qd_interface_seen d) (qd_teardown_seen d))"

lemma observe_stage_simps [simp]:
  "qd_line (observe_stage s d) = qd_line d" "qd_discarding (observe_stage s d) = qd_discarding d"
  "qd_teardown_seen (observe_stage s d) = qd_teardown_seen d"
  "qd_interface_seen (observe_stage s d) = (s = STAGE_INTERFACE \<or> qd_interface_seen d)"
  "qd_recovery_blocked (observe_stage s d) =
     (s \<ge> STAGE_DNS \<or> s < qd_current_stage d \<or> qd_teardown_seen d \<or> qd_recovery_blocked d)"
  "qd_failure_candidate (observe_stage s d) = qd_failure_candidate d"
  by (simp_all add: observe_stage_def Let_def)

lemma classify_line_kept [simp]:
  "qd_line (classify_line d) = qd_line d" "qd_discarding (classify_line d) = qd_discarding d"
  by (cases "command_stage (qd_line d)"; simp add: classify_line_def Let_def)+

lemma classify_blocked: "qd_recovery_blocked d \<Longrightarrow> qd_recovery_blocked (classify_line d)"
  by (cases "command_stage (qd_line d)"; simp add: classify_line_def Let_def)

text \<open>What a line does that does not spoil the evidence.\<close>

lemma line_has_prefix_iff: "line_has_prefix l t \<longleftrightarrow> (\<exists>r. l = t @ r)"
proof
  assume "line_has_prefix l t"
  then have "l = t @ drop (length t) l" unfolding line_has_prefix_def by (metis append_take_drop_id)
  then show "\<exists>r. l = t @ r" ..
qed (auto simp: line_has_prefix_def)

lemma fallback_no_command: "\<not> line_has_prefix fallback_marker ''[#]''" "\<not> line_has_prefix fallback_marker link_delete"
  by (simp_all add: line_has_prefix_iff fallback_marker_def link_delete_def)

lemma delete_is_command: "line_has_prefix l link_delete \<Longrightarrow> line_has_prefix l ''[#]''"
  by (auto simp: line_has_prefix_iff link_delete_def)

lemma command_stage_cases:
  "command_stage l = (s, b) \<Longrightarrow> s < STAGE_DNS \<Longrightarrow> s \<noteq> STAGE_NONE \<Longrightarrow> early_command l"
  "command_stage l = (STAGE_INTERFACE, b) \<Longrightarrow> line_has_prefix l link_add"
  by (auto simp: command_stage_def early_command_def less_quick_stage_def split: if_splits)

lemma classify_step:
  assumes "\<not> qd_recovery_blocked (classify_line d)"
  shows "line_has_prefix (qd_line d) ''[#]'' \<Longrightarrow> early_command (qd_line d)"
    and "qd_interface_seen (classify_line d) \<Longrightarrow> qd_interface_seen d \<or> line_has_prefix (qd_line d) link_add \<and> \<not> qd_teardown_seen d"
    and "qd_teardown_seen (classify_line d) = (qd_teardown_seen d \<or> line_has_prefix (qd_line d) link_delete)"
    and "qd_teardown_seen d \<Longrightarrow> line_has_prefix (qd_line d) ''[#]'' \<Longrightarrow> line_has_prefix (qd_line d) link_delete"
proof -
  obtain s b where stage: "command_stage (qd_line d) = (s, b)" by force
  have cases: "qd_line d = fallback_marker \<and> \<not> qd_teardown_seen d \<or>
    qd_line d \<noteq> fallback_marker \<and> line_has_prefix (qd_line d) link_delete \<or>
    qd_line d \<noteq> fallback_marker \<and> \<not> line_is_teardown_command (qd_line d) \<and> s \<noteq> STAGE_NONE \<and>
      s < STAGE_DNS \<and> \<not> qd_teardown_seen d \<or>
    qd_line d \<noteq> fallback_marker \<and> \<not> line_is_teardown_command (qd_line d) \<and> s = STAGE_NONE \<and>
      (line_has_prefix (qd_line d) ''[#]'' \<longrightarrow> line_is_link_claim (qd_line d) \<and> \<not> qd_teardown_seen d)"
    using assms stage by (auto simp: classify_line_def Let_def split: if_splits)
  show "line_has_prefix (qd_line d) ''[#]'' \<Longrightarrow> early_command (qd_line d)"
    using cases fallback_no_command command_stage_cases(1) [OF stage] by (auto simp: early_command_def)
  show "qd_teardown_seen d \<Longrightarrow> line_has_prefix (qd_line d) ''[#]'' \<Longrightarrow> line_has_prefix (qd_line d) link_delete"
    using cases fallback_no_command by auto
  show "qd_interface_seen (classify_line d) \<Longrightarrow> qd_interface_seen d \<or> line_has_prefix (qd_line d) link_add \<and> \<not> qd_teardown_seen d"
    using assms stage command_stage_cases(2) [of "qd_line d" b]
    by (auto simp: classify_line_def Let_def split: if_splits)
  show "qd_teardown_seen (classify_line d) = (qd_teardown_seen d \<or> line_has_prefix (qd_line d) link_delete)"
    using assms stage fallback_no_command
    by (auto simp: classify_line_def Let_def line_is_teardown_command_def split: if_splits)
qed


lemma early_trace_add:
  assumes "early_trace ls i t" and "length l \<le> diagnostic_line_limit" "CHR 0x00 \<notin> set l" "CHR 0x0D \<notin> set l" "LF \<notin> set l"
    and "line_has_prefix l ''[#]'' \<Longrightarrow> early_command l"
    and "i' \<Longrightarrow> i \<or> line_has_prefix l link_add \<and> \<not> t" and "t' = (t \<or> line_has_prefix l link_delete)"
    and "t \<Longrightarrow> line_has_prefix l ''[#]'' \<Longrightarrow> line_has_prefix l link_delete"
  shows "early_trace (ls @ [l]) i' t'"
proof -
  obtain up down where d: "ls = up @ down" "i \<longrightarrow> (\<exists>l \<in> set up. line_has_prefix l link_add)" "t \<longleftrightarrow> down \<noteq> []"
    "down \<noteq> [] \<longrightarrow> line_has_prefix (hd down) link_delete"
    "\<forall>l \<in> set down. line_has_prefix l ''[#]'' \<longrightarrow> line_has_prefix l link_delete"
    using assms(1) unfolding early_trace_def by blast
  let ?up = "if t' then up else up @ [l]" and ?down = "if t' then down @ [l] else down"
  have split: "ls @ [l] = ?up @ ?down" using d(1,3) assms(8) by auto
  have "\<not> (line_has_prefix l link_add \<and> line_has_prefix l link_delete)"
    by (auto simp: line_has_prefix_iff link_add_def link_delete_def)
  then have up: "i' \<longrightarrow> (\<exists>l \<in> set ?up. line_has_prefix l link_add)" using d(2) assms(7,8) by auto
  have "hd ?down = (if down = [] then l else hd down)" if "?down \<noteq> []" using that by auto
  then have down: "?down \<noteq> [] \<longrightarrow> line_has_prefix (hd ?down) link_delete" using d(3,4) assms(8) by auto
  have rest: "\<forall>l \<in> set ?down. line_has_prefix l ''[#]'' \<longrightarrow> line_has_prefix l link_delete"
    using d(3,5) assms(8,9) by auto
  have "t' \<longleftrightarrow> ?down \<noteq> []" using d(3) assms(8) by auto
  with split up down rest have "\<exists>up down. ls @ [l] = up @ down \<and> (i' \<longrightarrow> (\<exists>l \<in> set up. line_has_prefix l link_add)) \<and>
      (t' \<longleftrightarrow> down \<noteq> []) \<and> (down \<noteq> [] \<longrightarrow> line_has_prefix (hd down) link_delete) \<and>
      (\<forall>l \<in> set down. line_has_prefix l ''[#]'' \<longrightarrow> line_has_prefix l link_delete)"
    by blast
  then show ?thesis using assms(1-6) unfolding early_trace_def by auto
qed

lemma consume_byte_inv:
  assumes "diagnostics_inv bs d"
  shows "diagnostics_inv (bs @ [c]) (consume_byte c d)"
proof (cases "qd_recovery_blocked (consume_byte c d)")
  case False
  have open_: "\<not> qd_recovery_blocked d" using False classify_blocked [of d] classify_blocked [of "d\<lparr>qd_recovery_blocked := True\<rparr>"]
    by (auto simp: consume_byte_def Let_def split: if_splits)
  with assms obtain ls where d: "\<not> qd_discarding d" "length (qd_line d) \<le> diagnostic_line_limit"
    "CHR 0x00 \<notin> set (qd_line d)" "CHR 0x0D \<notin> set (qd_line d)" "LF \<notin> set (qd_line d)"
    "bs = concat (map (\<lambda>l. l @ [LF]) ls) @ qd_line d" "early_trace ls (qd_interface_seen d) (qd_teardown_seen d)"
    unfolding diagnostics_inv_def by blast
  show ?thesis
  proof (cases "c = LF")
    case True
    with False d have ok: "\<not> qd_recovery_blocked (classify_line d)" by (simp add: consume_byte_def)
    have "early_trace (ls @ [qd_line d]) (qd_interface_seen (classify_line d)) (qd_teardown_seen (classify_line d))"
      using d(2-5,7) classify_step [OF ok] by (intro early_trace_add)
    moreover have "bs @ [c] = concat (map (\<lambda>l. l @ [LF]) (ls @ [qd_line d]))" using d(6) True by simp
    ultimately show ?thesis using True d(1) by (auto simp: diagnostics_inv_def consume_byte_def)
  next
    case other: False
    with False d(1) have c: "c \<noteq> CHR 0x00" "c \<noteq> CHR 0x0D" "length (qd_line d) < diagnostic_line_limit"
      using classify_blocked [of "d\<lparr>qd_recovery_blocked := True\<rparr>"]
      by (auto simp: consume_byte_def Let_def split: if_splits)
    then have "consume_byte c d = d\<lparr>qd_line := qd_line d @ [c]\<rparr>" using d(1) other by (simp add: consume_byte_def)
    with c other d show ?thesis by (auto simp: diagnostics_inv_def)
  qed
qed (simp add: diagnostics_inv_def)

lemma consume_inv: "diagnostics_inv bs d \<Longrightarrow> diagnostics_inv (bs @ cs) (diagnostics_consume cs d)"
proof (induction cs arbitrary: bs d)
  case (Cons c cs)
  show ?case using Cons.IH [OF consume_byte_inv [OF Cons.prems]] by (simp add: diagnostics_consume_def)
qed (simp add: diagnostics_consume_def)

lemma consume_pieces: "fold diagnostics_consume pieces d = diagnostics_consume (concat pieces) d"
  by (induction pieces arbitrary: d) (simp_all add: diagnostics_consume_def)

lemma diagnostics_trace:
  assumes "d = diagnostics_finish (fold diagnostics_consume pieces diagnostics_init)" and "\<not> qd_recovery_blocked d"
  obtains ls where "concat pieces = concat (map (\<lambda>l. l @ [LF]) ls)" "early_trace ls (qd_interface_seen d) (qd_teardown_seen d)"
proof -
  let ?e = "fold diagnostics_consume pieces diagnostics_init"
  have "early_trace [] False False" by (simp add: early_trace_def)
  then have "diagnostics_inv [] diagnostics_init" by (auto simp: diagnostics_inv_def diagnostics_init_def)
  then have inv: "diagnostics_inv (concat pieces) ?e" using consume_inv [of "[]"] by (simp add: consume_pieces)
  have free: "\<not> qd_recovery_blocked ?e" "qd_discarding ?e \<or> qd_line ?e = []"
    using assms classify_blocked [of "?e\<lparr>qd_recovery_blocked := True\<rparr>"] by (auto simp: diagnostics_finish_def Let_def split: if_splits)
  with inv have "qd_line ?e = []" by (auto simp: diagnostics_inv_def)
  then have "qd_interface_seen d = qd_interface_seen ?e" "qd_teardown_seen d = qd_teardown_seen ?e"
    using assms(1) by (simp_all add: diagnostics_finish_def)
  with inv free \<open>qd_line ?e = []\<close> show thesis using that by (auto simp: diagnostics_inv_def)
qed


definition sample_quick :: quick_os where
  "sample_quick =
     \<lparr>qo_stop = (\<lambda>deadline. HELPER_SUCCESS),
      qo_open = (\<lambda>path. if path = ''/usr/sbin/awg-quick''
        then Some (Some \<lparr>fa_regular = True, fa_uid = 0, fa_gid = 0, fa_nlink = 1, fa_mode = 0x1ED\<rparr>) else None),
      qo_run = (\<lambda>request deadline.
        (\<lparr>sp_status = SUBPROCESS_EXITED, sp_may_have_run = True, sp_wait_status = 256, sp_diagnostics_complete = True\<rparr>,
         [''[#] ip link add dev a'' @ [LF] @ ''failed'' @ [LF] @ ''[#] ip li'', ''nk delete dev a'' @ [LF]], None))\<rparr>"


end
