(* ===== verification/Helper_World.thy ===== *)
theory Helper_World
  imports Runtime_Journal Deadline Quick_Diagnostics Config "HOL-Library.State_Monad"
begin

text \<open>
  What the operations of the privileged helper share: the state they pass on, the services they use,
  and \<open>helper/amneziawg_helper_util.c\<close>, \<open>amneziawg_helper_session.h\<close> and \<open>.c\<close>. An operation is a
  computation in the state monad; its \<open>goto\<close>s and early returns are conditionals. Whatever the helper
  asks of the storage, the kernel, the resolver, the firewall and the tool is answered by the
  environment \<open>helper_env\<close>, which may let its answer depend on all that was asked and answered
  before. The state keeps this history, newest first, so that a theorem can speak of the order in
  which things were done. The memory that is wiped and freed has no counterpart.
\<close>

section \<open>Data\<close>

datatype storage_area = AREA_CONFIG | AREA_STAGING | AREA_RUNTIME | AREA_RUNTIME_CONFIGS
datatype entry_state = ENTRY_MISSING | ENTRY_VALID | ENTRY_INVALID
datatype dns_change_result = DNS_CHANGE_OK | DNS_CHANGE_UNAVAILABLE | DNS_CHANGE_FAILED | DNS_CHANGE_UNCERTAIN
datatype firewall_state = AWG_FIREWALL_ABSENT | AWG_FIREWALL_PRESENT | AWG_FIREWALL_UNKNOWN
datatype owned_link = OWNED_LINK_ABSENT | OWNED_LINK_PRESENT | OWNED_LINK_CONFLICT | OWNED_LINK_UNKNOWN
datatype iterator_result = ITERATOR_ENTRY string | ITERATOR_DONE | ITERATOR_FAILED
datatype bytes_outcome = Bytes_read bytes | Bytes_interrupted | Bytes_failed

record dns_change_outcome =
  dc_result :: dns_change_result
  dc_may_have_changed :: bool

abbreviation (input) MODE_PRIVATE :: nat where "MODE_PRIVATE \<equiv> 384"

text \<open>What was asked and answered; the identity of a file stands for its attributes.\<close>

datatype helper_event =
  Ev_Clock bool int
| Ev_Cleanup_Mode bool
| Ev_Release bool
| Ev_Terminate bool
| Ev_Read_Marker string "entry_state \<times> runtime_marker"
| Ev_Write_Marker string runtime_marker bool
| Ev_File_State storage_area string nat entry_state
| Ev_Read_File storage_area string nat nat "bytes option"
| Ev_Write_File storage_area string bytes nat bool
| Ev_Remove storage_area string bool
| Ev_List_Runtime "helper_exit \<times> string list"
| Ev_Observe string "string option" "link_observation option"
| Ev_Dns_Select dns_config "dns_change_result \<times> dns_backend"
| Ev_Dns_Apply string string nat dns_config dns_backend dns_change_outcome
| Ev_Dns_Revert string string nat dns_backend dns_change_outcome
| Ev_Firewall_Scope "bool \<times> flags"
| Ev_Firewall_Probe string flags firewall_state
| Ev_Quick string string bool "quick_result \<times> bytes option"
| Ev_Random nat bytes_outcome
| Ev_Config_Security string entry_state
| Ev_Read_Config string "helper_exit \<times> bytes \<times> nat"
| Ev_Stage bytes "bool \<times> string \<times> bool"
| Ev_Unlink_Staging string bool
| Ev_Rename_Noreplace string string "bool \<times> bool"
| Ev_Exchange string string bool
| Ev_Sync_Config_And_Staging bool
| Ev_Sync_Staging bool
| Ev_Get_Identity string "nat option"
| Ev_Config_Matches string nat bool
| Ev_Displaced_Matches string nat bool
| Ev_Iterator_New storage_area bool
| Ev_Iterator_Next iterator_result
| Ev_Iterator_Free bool
| Ev_Output bytes bool

type_synonym history = "helper_event list"

record helper =
  h_trace :: history
  h_blocked :: bool
  h_journal :: runtime_marker

text \<open>
  The environment answers from the history; deadlines are those of the call. The clock says whether a
  termination was requested, and the time in milliseconds, negative if there is none.
\<close>

record helper_env =
  he_clock :: "history \<Rightarrow> bool \<times> int"
  he_release :: "history \<Rightarrow> int \<Rightarrow> int \<Rightarrow> bool"
  he_terminate :: "history \<Rightarrow> int \<Rightarrow> bool"
  he_read_marker :: "history \<Rightarrow> string \<Rightarrow> entry_state \<times> runtime_marker"
  he_write_marker :: "history \<Rightarrow> string \<Rightarrow> runtime_marker \<Rightarrow> bool"
  he_file_state :: "history \<Rightarrow> storage_area \<Rightarrow> string \<Rightarrow> nat \<Rightarrow> entry_state"
  he_read_file :: "history \<Rightarrow> storage_area \<Rightarrow> string \<Rightarrow> nat \<Rightarrow> nat \<Rightarrow> bytes option"
  he_write_file :: "history \<Rightarrow> storage_area \<Rightarrow> string \<Rightarrow> bytes \<Rightarrow> nat \<Rightarrow> bool"
  he_remove :: "history \<Rightarrow> storage_area \<Rightarrow> string \<Rightarrow> bool"
  he_list_runtime :: "history \<Rightarrow> int \<Rightarrow> helper_exit \<times> string list"
  he_observe :: "history \<Rightarrow> string \<Rightarrow> string option \<Rightarrow> link_observation option"
  he_dns_select :: "history \<Rightarrow> dns_config \<Rightarrow> int \<Rightarrow> dns_change_result \<times> dns_backend"
  he_dns_apply :: "history \<Rightarrow> string \<Rightarrow> string \<Rightarrow> nat \<Rightarrow> dns_config \<Rightarrow> dns_backend \<Rightarrow> int \<Rightarrow> dns_change_outcome"
  he_dns_revert :: "history \<Rightarrow> string \<Rightarrow> string \<Rightarrow> nat \<Rightarrow> dns_backend \<Rightarrow> int \<Rightarrow> dns_change_outcome"
  he_firewall_scope :: "history \<Rightarrow> int \<Rightarrow> bool \<times> flags"
  he_firewall_probe :: "history \<Rightarrow> string \<Rightarrow> flags \<Rightarrow> int \<Rightarrow> firewall_state"
  he_quick :: "history \<Rightarrow> string \<Rightarrow> string \<Rightarrow> bool \<Rightarrow> int \<Rightarrow> quick_result \<times> bytes option"
  he_random :: "history \<Rightarrow> nat \<Rightarrow> bytes_outcome"
  he_config_security :: "history \<Rightarrow> string \<Rightarrow> entry_state"
  he_read_config :: "history \<Rightarrow> string \<Rightarrow> helper_exit \<times> bytes \<times> nat"
  he_stage :: "history \<Rightarrow> bytes \<Rightarrow> bool \<times> string \<times> bool"
  he_unlink_staging :: "history \<Rightarrow> string \<Rightarrow> bool"
  he_rename_noreplace :: "history \<Rightarrow> string \<Rightarrow> string \<Rightarrow> bool \<times> bool"
  he_exchange :: "history \<Rightarrow> string \<Rightarrow> string \<Rightarrow> bool"
  he_sync_config_and_staging :: "history \<Rightarrow> bool"
  he_sync_staging :: "history \<Rightarrow> bool"
  he_get_identity :: "history \<Rightarrow> string \<Rightarrow> nat option"
  he_config_matches :: "history \<Rightarrow> string \<Rightarrow> nat \<Rightarrow> bool"
  he_displaced_matches :: "history \<Rightarrow> string \<Rightarrow> nat \<Rightarrow> bool"
  he_iterator_new :: "history \<Rightarrow> storage_area \<Rightarrow> bool"
  he_iterator_next :: "history \<Rightarrow> iterator_result"
  he_iterator_free :: "history \<Rightarrow> bool"
  he_output :: "history \<Rightarrow> bytes \<Rightarrow> bool"
  he_pton :: "pton"

section \<open>Computations\<close>

type_synonym 'a helper_op = "(helper, 'a) state"

abbreviation ret :: "'a \<Rightarrow> 'a helper_op" where "ret \<equiv> State_Monad.return"

definition ask :: "(history \<Rightarrow> 'a) \<Rightarrow> ('a \<Rightarrow> helper_event) \<Rightarrow> 'a helper_op" where
  "ask answer ev = State (\<lambda>s. let a = answer (h_trace s) in (a, s\<lparr>h_trace := ev a # h_trace s\<rparr>))"

definition tell :: "helper_event \<Rightarrow> unit helper_op" where
  "tell ev = State (\<lambda>s. ((), s\<lparr>h_trace := ev # h_trace s\<rparr>))"

definition get_journal :: "runtime_marker helper_op" where
  "get_journal = State (\<lambda>s. (h_journal s, s))"

definition set_journal :: "(runtime_marker \<Rightarrow> runtime_marker) \<Rightarrow> unit helper_op" where
  "set_journal f = State (\<lambda>s. ((), s\<lparr>h_journal := f (h_journal s)\<rparr>))"

definition get_blocked :: "bool helper_op" where
  "get_blocked = State (\<lambda>s. (h_blocked s, s))"

definition set_blocked :: "bool \<Rightarrow> unit helper_op" where
  "set_blocked b = State (\<lambda>s. ((), s\<lparr>h_blocked := b\<rparr>))"

section \<open>Phases\<close>

definition phase_stop_status :: "helper_env \<Rightarrow> int \<Rightarrow> helper_exit helper_op" where
  "phase_stop_status E deadline = do {
     (terminated, now) \<leftarrow> ask (he_clock E) (\<lambda>(t, n). Ev_Clock t n);
     ret (if terminated then HELPER_CHILD_SIGNALED
          else if now < 0 \<or> now \<ge> deadline then HELPER_TIMED_OUT else HELPER_SUCCESS)
   }"

definition phase_failure_or :: "helper_env \<Rightarrow> int \<Rightarrow> helper_exit \<Rightarrow> helper_exit helper_op" where
  "phase_failure_or E deadline fallback = do {
     stop \<leftarrow> phase_stop_status E deadline;
     ret (if stop = HELPER_SUCCESS then fallback else stop)
   }"

definition set_cleanup_mode :: "bool \<Rightarrow> unit helper_op" where
  "set_cleanup_mode b = tell (Ev_Cleanup_Mode b)"

section \<open>Storage\<close>

text \<open>The names of the files; \<open>snprintf\<close> into a buffer of the size that the callers use.\<close>

definition make_config_filename :: "string \<Rightarrow> string option" where
  "make_config_filename name =
     (if length name + 5 < max_interface_length + 6 then Some (name @ ''.conf'') else None)"

definition make_dns_filename :: "string \<Rightarrow> string option" where
  "make_dns_filename name =
     (if length name + 4 < max_interface_length + 5 then Some (name @ ''.dns'') else None)"

definition runtime_config_dir :: string where
  "runtime_config_dir = ''/run/nm-sidebar/amneziawg/.configs''"

definition make_runtime_config_path :: "string \<Rightarrow> string option" where
  "make_runtime_config_path name =
     (let path = runtime_config_dir @ ''/'' @ name @ ''.conf''
      in if length path < 4096 then Some path else None)"

abbreviation read_runtime_marker where
  "read_runtime_marker E name \<equiv> ask (\<lambda>t. he_read_marker E t name) (Ev_Read_Marker name)"
abbreviation write_runtime_marker where
  "write_runtime_marker E name m \<equiv> ask (\<lambda>t. he_write_marker E t name m) (Ev_Write_Marker name m)"
abbreviation secure_file_state where
  "secure_file_state E area name mode \<equiv> ask (\<lambda>t. he_file_state E t area name mode) (Ev_File_State area name mode)"
abbreviation read_secure_file where
  "read_secure_file E area name mode limit \<equiv>
     ask (\<lambda>t. he_read_file E t area name mode limit) (Ev_Read_File area name mode limit)"
abbreviation atomic_write where
  "atomic_write E area name contents mode \<equiv>
     ask (\<lambda>t. he_write_file E t area name contents mode) (Ev_Write_File area name contents mode)"
abbreviation remove_and_sync where
  "remove_and_sync E area name \<equiv> ask (\<lambda>t. he_remove E t area name) (Ev_Remove area name)"
abbreviation link_observe_now where
  "link_observe_now E name token \<equiv> ask (\<lambda>t. he_observe E t name token) (Ev_Observe name token)"
abbreviation quick_run_now where
  "quick_run_now E command path wants_output deadline \<equiv>
     ask (\<lambda>t. he_quick E t command path wants_output deadline) (Ev_Quick command path wants_output)"

text \<open>The journal as it stands is written.\<close>

definition write_journal :: "helper_env \<Rightarrow> string \<Rightarrow> bool helper_op" where
  "write_journal E name = do {
     m \<leftarrow> get_journal;
     write_runtime_marker E name m
   }"

section \<open>Sessions\<close>

definition classify_owned_link :: "runtime_marker \<Rightarrow> link_observation option \<Rightarrow> owned_link" where
  "classify_owned_link m observation =
     (case observation of
        None \<Rightarrow> OWNED_LINK_UNKNOWN
      | Some current \<Rightarrow>
          if token_matches current > 1 then OWNED_LINK_UNKNOWN
          else if token_matches current = 0
          then (if named_exists current then OWNED_LINK_CONFLICT else OWNED_LINK_ABSENT)
          else if \<not> token_has_expected_name current \<or>
                  named_exists current \<and> named_ifindex current \<noteq> token_ifindex current \<or>
                  ifindex m \<noteq> 0 \<and> ifindex m \<noteq> token_ifindex current
          then OWNED_LINK_CONFLICT
          else OWNED_LINK_PRESENT)"

definition owned_link_state ::
    "helper_env \<Rightarrow> string \<Rightarrow> runtime_marker \<Rightarrow> (owned_link \<times> link_observation option) helper_op" where
  "owned_link_state E name m = do {
     observation \<leftarrow> link_observe_now E name (Some (link_token m));
     ret (classify_owned_link m observation, observation)
   }"

text \<open>The result, whether there is a marker and an interface, and the marker.\<close>

definition session_runtime_state ::
    "helper_env \<Rightarrow> string \<Rightarrow> (helper_exit \<times> bool \<times> bool \<times> runtime_marker option) helper_op" where
  "session_runtime_state E name = do {
     (marker, parsed) \<leftarrow> read_runtime_marker E name;
     if marker = ENTRY_MISSING then do {
       observation \<leftarrow> link_observe_now E name None;
       ret (case observation of
              None \<Rightarrow> (HELPER_RUNTIME_FAILED, False, False, None)
            | Some current \<Rightarrow> (HELPER_SUCCESS, False, named_exists current, None))
     }
     else if marker = ENTRY_INVALID then ret (HELPER_RUNTIME_FAILED, False, False, None)
     else do {
       (owned, _) \<leftarrow> owned_link_state E name parsed;
       ret (case owned of
              OWNED_LINK_UNKNOWN \<Rightarrow> (HELPER_RUNTIME_FAILED, False, False, None)
            | OWNED_LINK_CONFLICT \<Rightarrow> (HELPER_INTERFACE_CONFLICT, False, False, None)
            | _ \<Rightarrow> (HELPER_SUCCESS, True, owned = OWNED_LINK_PRESENT, Some parsed))
     }
   }"

text \<open>The journal adopts the index of the link that bears its token.\<close>

definition refresh_owned_interface :: "helper_env \<Rightarrow> string \<Rightarrow> (helper_exit \<times> bool) helper_op" where
  "refresh_owned_interface E name = do {
     m \<leftarrow> get_journal;
     (state, observation) \<leftarrow> owned_link_state E name m;
     if state = OWNED_LINK_UNKNOWN then ret (HELPER_RUNTIME_FAILED, False)
     else if state = OWNED_LINK_CONFLICT then ret (HELPER_INTERFACE_CONFLICT, False)
     else if state = OWNED_LINK_ABSENT then ret (HELPER_SUCCESS, False)
     else if ifindex m = 0 then do {
       set_journal (\<lambda>j. j\<lparr>ifindex := (case observation of None \<Rightarrow> 0 | Some seen \<Rightarrow> token_ifindex seen)\<rparr>);
       written \<leftarrow> write_journal E name;
       ret (if written then HELPER_SUCCESS else HELPER_RUNTIME_FAILED, True)
     }
     else ret (HELPER_SUCCESS, True)
   }"

end
