(* ===== verification/Link_Claim.thy ===== *)
theory Link_Claim
  imports Config Link_Identity
begin

text \<open>
  \<open>helper/amneziawg_quick_config.h\<close> and \<open>.c\<close>: the snapshot that \<open>awg-quick\<close> is run with, and the two
  hooks in it that claim the link for this program when the interface is brought up and check the
  claim when it is taken down.
\<close>

definition link_hook_reserve :: nat where "link_hook_reserve = 256"

definition quick_config_build_snapshot :: "pton \<Rightarrow> bytes \<Rightarrow> envelope \<Rightarrow> config_error + bytes" where
  "quick_config_build_snapshot pton protocol_config env =
     runtime_snapshot_build pton protocol_config env link_hook_reserve"

definition claim_lines :: "string \<Rightarrow> bytes" where
  "claim_lines token =
     ''PreUp = ip link set dev %i alias '' @ link_alias_prefix @ token @ [LF] @
     ''PreDown = grep -Fxq '' @ link_alias_prefix @ token @ '' /sys/class/net/%i/ifalias'' @ [LF]"

definition quick_config_add_link_claim :: "pton \<Rightarrow> bytes \<Rightarrow> string option \<Rightarrow> config_error + bytes" where
  "quick_config_add_link_claim pton snapshot link_token =
     (if \<not> link_token_is_valid link_token
      then set_error_literal ERROR_INVALID_DATA ''runtime link identity is invalid''
      else case config_parse_envelope pton snapshot of
        Inl e \<Rightarrow> Inl e
      | Inr env \<Rightarrow>
          let insertion_offset = interface_line_end env;
              claim = claim_lines (the link_token);
              separator = (if insertion_offset > 0 \<and> snapshot ! (insertion_offset - 1) \<noteq> LF then [LF] else [])
          in if length claim \<ge> link_hook_reserve
             then set_error_literal ERROR_TOO_LARGE ''runtime link claim is too large''
             else if length snapshot > max_config_size - length separator \<or>
                     length claim > max_config_size - length separator - length snapshot
             then set_error_literal ERROR_TOO_LARGE ''runtime configuration exceeds the size limit''
             else Inr (take insertion_offset snapshot @ separator @ claim @ drop insertion_offset snapshot))"

end
