(* ===== verification/Helper_Profiles.thy ===== *)
theory Helper_Profiles
  imports Helper_World Link_Claim Profile_Report
begin

text \<open>
  \<open>helper/amneziawg_helper_profiles.h\<close> and \<open>.c\<close>: importing, replacing, inspecting, listing and
  deleting the saved profiles, and preparing one to be brought up. A candidate is written to the
  staging directory and checked there by \<open>awg-quick strip\<close> before it is moved into place. Reading
  the configuration from standard input is left to its caller's end: the bytes are given.
\<close>

section \<open>Data\<close>

record prepared_profile =
  pp_snapshot :: bytes
  pp_dns :: dns_config
  pp_dns_payload :: bytes

abbreviation stage_candidate where
  "stage_candidate E contents \<equiv> ask (\<lambda>t. he_stage E t contents) (Ev_Stage contents)"

definition staging_dir :: string where "staging_dir = ''/etc/amnezia/amneziawg/.staging''"

section \<open>Candidates\<close>

text \<open>The check of a standard input that has been read.\<close>

definition check_input :: "helper_env \<Rightarrow> bytes \<Rightarrow> helper_exit" where
  "check_input E contents =
     (case config_validate (he_pton E) contents of
        Inl e \<Rightarrow> if err_code e = ERROR_TOO_LARGE then HELPER_INPUT_TOO_LARGE else HELPER_INVALID_CONFIG
      | Inr _ \<Rightarrow> HELPER_SUCCESS)"

text \<open>What the tool makes of a candidate: the result and the runtime snapshot.\<close>

definition strip_candidate ::
    "helper_env \<Rightarrow> envelope \<Rightarrow> string \<Rightarrow> int \<Rightarrow> (helper_exit \<times> bytes) helper_op" where
  "strip_candidate E env temp_name deadline =
     (if length staging_dir + 1 + length temp_name \<ge> 4096 then ret (HELPER_FILESYSTEM_FAILED, [])
      else do {
        (run, output) \<leftarrow> quick_run_now E ''strip'' (staging_dir @ ''/'' @ temp_name) True deadline;
        if qr_status run \<noteq> HELPER_SUCCESS
        then ret (if qr_status run = HELPER_AWG_QUICK_FAILED then HELPER_INVALID_CONFIG else qr_status run, [])
        else ret (case quick_config_build_snapshot (he_pton E) (case output of None \<Rightarrow> [] | Some b \<Rightarrow> b) env of
                    Inl e \<Rightarrow> (HELPER_INVALID_CONFIG, [])
                  | Inr snapshot \<Rightarrow> (HELPER_SUCCESS, snapshot))
      })"

text \<open>The result, the name of the candidate and the snapshot; a candidate that fails is removed.\<close>

definition write_candidate ::
    "helper_env \<Rightarrow> bytes \<Rightarrow> int \<Rightarrow> (helper_exit \<times> string \<times> bytes) helper_op" where
  "write_candidate E contents deadline =
     (case config_parse_envelope (he_pton E) contents of
        Inl e \<Rightarrow> ret (HELPER_INVALID_CONFIG, [], [])
      | Inr env \<Rightarrow> do {
          (staged, temp_name, created) \<leftarrow> stage_candidate E contents;
          (result, snapshot) \<leftarrow>
            (if \<not> staged then ret (HELPER_FILESYSTEM_FAILED, []) else strip_candidate E env temp_name deadline);
          if result \<noteq> HELPER_SUCCESS \<and> created then do {
            removed \<leftarrow> remove_and_sync E AREA_STAGING temp_name;
            ret (if removed then result else HELPER_FILESYSTEM_FAILED, temp_name, [])
          }
          else ret (result, temp_name, snapshot)
        })"

text \<open>The stored configuration with its DNS data and its identity.\<close>

definition load_stored_config ::
    "helper_env \<Rightarrow> string \<Rightarrow> (helper_exit \<times> dns_config \<times> bytes \<times> nat) helper_op" where
  "load_stored_config E config_name = do {
     (result, contents, identity) \<leftarrow> ask (\<lambda>t. he_read_config E t config_name) (Ev_Read_Config config_name);
     ret (if result \<noteq> HELPER_SUCCESS then (result, dns_config_init, [], identity)
          else case config_parse_envelope (he_pton E) contents of
                 Inl e \<Rightarrow> (HELPER_INVALID_CONFIG, dns_config_init, [], identity)
               | Inr env \<Rightarrow> (HELPER_SUCCESS, env_dns env, contents, identity))
   }"

section \<open>Import and replacement\<close>

definition replacement_target_status :: "helper_env \<Rightarrow> string \<Rightarrow> string \<Rightarrow> helper_exit helper_op" where
  "replacement_target_status E name config_name = do {
     config_state \<leftarrow> secure_file_state E AREA_CONFIG config_name MODE_PRIVATE;
     if config_state \<noteq> ENTRY_VALID
     then ret (if config_state = ENTRY_MISSING then HELPER_NOT_FOUND else HELPER_FILESYSTEM_FAILED)
     else do {
       (result, marker, interface, _) \<leftarrow> session_runtime_state E name;
       ret (if result \<noteq> HELPER_SUCCESS then result
            else if marker then HELPER_ACTIVE
            else if interface then HELPER_INTERFACE_CONFLICT
            else HELPER_SUCCESS)
     }
   }"

definition drop_candidate :: "helper_env \<Rightarrow> string \<Rightarrow> helper_exit \<Rightarrow> helper_exit helper_op" where
  "drop_candidate E temp_name result = do {
     removed \<leftarrow> remove_and_sync E AREA_STAGING temp_name;
     ret (if removed then result else HELPER_FILESYSTEM_FAILED)
   }"

text \<open>The move into place did not succeed, possibly because there is such a profile by now.\<close>

definition import_not_renamed :: "helper_env \<Rightarrow> string \<Rightarrow> string \<Rightarrow> string \<Rightarrow> bool \<Rightarrow> helper_exit helper_op" where
  "import_not_renamed E name config_name temp_name existed = do {
     result \<leftarrow> (if existed then replacement_target_status E name config_name else ret HELPER_FILESYSTEM_FAILED);
     drop_candidate E temp_name
       (if result = HELPER_SUCCESS then HELPER_REPLACE_CONFIRMATION_REQUIRED
        else if result = HELPER_NOT_FOUND then HELPER_FILESYSTEM_FAILED
        else result)
   }"

definition profiles_import :: "helper_env \<Rightarrow> string \<Rightarrow> string \<Rightarrow> bytes \<Rightarrow> int \<Rightarrow> helper_exit helper_op" where
  "profiles_import E name config_name contents deadline = do {
     target \<leftarrow> replacement_target_status E name config_name;
     if target = HELPER_SUCCESS then ret HELPER_REPLACE_CONFIRMATION_REQUIRED
     else if target \<noteq> HELPER_NOT_FOUND then ret target
     else do {
       (result, temp_name, _) \<leftarrow> write_candidate E contents deadline;
       if result \<noteq> HELPER_SUCCESS then ret result
       else do {
         stop \<leftarrow> phase_stop_status E deadline;
         if stop \<noteq> HELPER_SUCCESS then drop_candidate E temp_name stop
         else do {
           (renamed, existed) \<leftarrow>
             ask (\<lambda>t. he_rename_noreplace E t temp_name config_name) (Ev_Rename_Noreplace temp_name config_name);
           if \<not> renamed then import_not_renamed E name config_name temp_name existed
           else do {
             synced \<leftarrow> ask (he_sync_config_and_staging E) Ev_Sync_Config_And_Staging;
             if \<not> synced then do {
               removed \<leftarrow> remove_and_sync E AREA_CONFIG config_name;
               ret (if removed then HELPER_FILESYSTEM_FAILED else HELPER_ROLLBACK_FAILED)
             }
             else phase_stop_status E deadline
           }
         }
       }
     }
   }"

definition exchange_staging :: "helper_env \<Rightarrow> string \<Rightarrow> string \<Rightarrow> bool helper_op" where
  "exchange_staging E temp_name config_name =
     ask (\<lambda>t. he_exchange E t temp_name config_name) (Ev_Exchange temp_name config_name)"

definition rollback_replacement :: "helper_env \<Rightarrow> string \<Rightarrow> string \<Rightarrow> helper_exit helper_op" where
  "rollback_replacement E temp_name config_name = do {
     exchanged \<leftarrow> exchange_staging E temp_name config_name;
     if \<not> exchanged then ret HELPER_ROLLBACK_FAILED
     else do {
       synced \<leftarrow> ask (he_sync_config_and_staging E) Ev_Sync_Config_And_Staging;
       if \<not> synced then ret HELPER_ROLLBACK_FAILED
       else drop_candidate E temp_name HELPER_FILESYSTEM_FAILED
     }
   }"

text \<open>The candidate is in place and the displaced file in the staging directory.\<close>

definition commit_replacement ::
    "helper_env \<Rightarrow> string \<Rightarrow> string \<Rightarrow> nat \<Rightarrow> int \<Rightarrow> helper_exit helper_op" where
  "commit_replacement E temp_name config_name original deadline = do {
     ours \<leftarrow> ask (\<lambda>t. he_displaced_matches E t temp_name original) (Ev_Displaced_Matches temp_name original);
     if \<not> ours then rollback_replacement E temp_name config_name
     else do {
       synced \<leftarrow> ask (he_sync_config_and_staging E) Ev_Sync_Config_And_Staging;
       if \<not> synced then rollback_replacement E temp_name config_name
       else do {
         unlinked \<leftarrow> ask (\<lambda>t. he_unlink_staging E t temp_name) (Ev_Unlink_Staging temp_name);
         if \<not> unlinked then rollback_replacement E temp_name config_name
         else do {
           settled \<leftarrow> ask (he_sync_staging E) Ev_Sync_Staging;
           if \<not> settled then ret HELPER_ROLLBACK_FAILED else phase_stop_status E deadline
         }
       }
     }
   }"

definition profiles_replace :: "helper_env \<Rightarrow> string \<Rightarrow> string \<Rightarrow> bytes \<Rightarrow> int \<Rightarrow> helper_exit helper_op" where
  "profiles_replace E name config_name contents deadline = do {
     target \<leftarrow> replacement_target_status E name config_name;
     if target \<noteq> HELPER_SUCCESS then ret target
     else do {
       identity \<leftarrow> ask (\<lambda>t. he_get_identity E t config_name) (Ev_Get_Identity config_name);
       case identity of
         None \<Rightarrow> ret HELPER_FILESYSTEM_FAILED
       | Some original \<Rightarrow> do {
           (result, temp_name, _) \<leftarrow> write_candidate E contents deadline;
           if result \<noteq> HELPER_SUCCESS then ret result
           else do {
             target2 \<leftarrow> replacement_target_status E name config_name;
             if target2 \<noteq> HELPER_SUCCESS then drop_candidate E temp_name target2
             else do {
               stop \<leftarrow> phase_stop_status E deadline;
               if stop \<noteq> HELPER_SUCCESS then drop_candidate E temp_name stop
               else do {
                 exchanged \<leftarrow> exchange_staging E temp_name config_name;
                 if \<not> exchanged then drop_candidate E temp_name HELPER_FILESYSTEM_FAILED
                 else commit_replacement E temp_name config_name original deadline
               }
             }
           }
         }
     }
   }"

section \<open>Inspection\<close>

definition config_entry_name :: "string \<Rightarrow> entry_state \<times> string" where
  "config_entry_name entry =
     (if length entry < 5 \<or> drop (length entry - 5) entry \<noteq> ''.conf'' then (ENTRY_MISSING, [])
      else
        let name = take (length entry - 5) entry
        in if length name > max_interface_length then (ENTRY_INVALID, [])
           else (if name_is_valid (Some name) then ENTRY_VALID else ENTRY_INVALID, name))"

text \<open>A stored configuration that has been read: whether it can be brought up, and is still the same.\<close>

definition inspect_candidate ::
    "helper_env \<Rightarrow> string \<Rightarrow> bytes \<Rightarrow> nat \<Rightarrow> int \<Rightarrow> (helper_exit \<times> profile_status) helper_op" where
  "inspect_candidate E config_name original identity deadline = do {
     (result, temp_name, _) \<leftarrow> write_candidate E original deadline;
     if result = HELPER_INVALID_CONFIG then ret (HELPER_SUCCESS, PROFILE_INCOMPATIBLE_CONFIGURATION)
     else if result \<noteq> HELPER_SUCCESS \<and> result \<noteq> HELPER_AWG_QUICK_UNAVAILABLE
     then ret (result, PROFILE_CHANGED_OR_UNREADABLE)
     else do {
       removed \<leftarrow> (if result = HELPER_SUCCESS then remove_and_sync E AREA_STAGING temp_name else ret True);
       if \<not> removed then ret (HELPER_FILESYSTEM_FAILED, PROFILE_CHANGED_OR_UNREADABLE)
       else do {
         same \<leftarrow> ask (\<lambda>t. he_config_matches E t config_name identity) (Ev_Config_Matches config_name identity);
         ret (HELPER_SUCCESS, if same then PROFILE_AVAILABLE else PROFILE_CHANGED_OR_UNREADABLE)
       }
     }
   }"

definition inspect_profile :: "helper_env \<Rightarrow> string \<Rightarrow> int \<Rightarrow> (helper_exit \<times> profile_status) helper_op" where
  "inspect_profile E config_name deadline = do {
     security \<leftarrow> ask (\<lambda>t. he_config_security E t config_name) (Ev_Config_Security config_name);
     if security = ENTRY_INVALID then ret (HELPER_SUCCESS, PROFILE_FILE_SECURITY)
     else if security = ENTRY_MISSING then ret (HELPER_SUCCESS, PROFILE_CHANGED_OR_UNREADABLE)
     else do {
       state \<leftarrow> secure_file_state E AREA_CONFIG config_name MODE_PRIVATE;
       if state \<noteq> ENTRY_VALID then ret (HELPER_SUCCESS, PROFILE_CHANGED_OR_UNREADABLE)
       else do {
         (result, dns, original, identity) \<leftarrow> load_stored_config E config_name;
         if result \<noteq> HELPER_SUCCESS
         then ret (HELPER_SUCCESS, if result = HELPER_INVALID_CONFIG then PROFILE_INVALID_CONFIGURATION
                                   else PROFILE_CHANGED_OR_UNREADABLE)
         else if dns_config_serialize dns = None then ret (HELPER_SUCCESS, PROFILE_INVALID_CONFIGURATION)
         else inspect_candidate E config_name original identity deadline
       }
     }
   }"

section \<open>The list of profiles\<close>

text \<open>
  The loop over the directory; \<open>None\<close> if there are more entries than the fuel, which nothing but the
  deadline bounds.
\<close>

primrec list_profiles_loop ::
    "helper_env \<Rightarrow> int \<Rightarrow> nat \<Rightarrow> profile_report \<Rightarrow> (helper_exit \<times> profile_report) option helper_op" where
  "list_profiles_loop E deadline 0 report = ret None"
| "list_profiles_loop E deadline (Suc fuel) report = do {
     stop \<leftarrow> phase_stop_status E deadline;
     if stop \<noteq> HELPER_SUCCESS then ret (Some (stop, report))
     else do {
       next \<leftarrow> ask (he_iterator_next E) Ev_Iterator_Next;
       case next of
         ITERATOR_FAILED \<Rightarrow> ret (Some (HELPER_FILESYSTEM_FAILED, report))
       | ITERATOR_DONE \<Rightarrow> ret (Some (HELPER_SUCCESS, report))
       | ITERATOR_ENTRY entry \<Rightarrow>
           (case config_entry_name entry of
              (ENTRY_MISSING, _) \<Rightarrow> list_profiles_loop E deadline fuel report
            | (ENTRY_INVALID, _) \<Rightarrow> list_profiles_loop E deadline fuel (report\<lparr>complete := False\<rparr>)
            | (ENTRY_VALID, name) \<Rightarrow>
                if length (records report) \<ge> report_max_records
                then ret (Some (HELPER_SUCCESS, report\<lparr>complete := False\<rparr>))
                else do {
                  (result, status) \<leftarrow> inspect_profile E entry deadline;
                  if result \<noteq> HELPER_SUCCESS then ret (Some (result, report))
                  else
                    (case profile_report_add report (Some name) (profile_status_code status) of
                       (added, report2) \<Rightarrow>
                         list_profiles_loop E deadline fuel (if added then report2 else report\<lparr>complete := False\<rparr>))
                })
     }
   }"

definition list_profiles ::
    "helper_env \<Rightarrow> nat \<Rightarrow> profile_report \<Rightarrow> int \<Rightarrow> (helper_exit \<times> profile_report) option helper_op" where
  "list_profiles E fuel report deadline = do {
     opened \<leftarrow> ask (\<lambda>t. he_iterator_new E t AREA_CONFIG) (Ev_Iterator_New AREA_CONFIG);
     if \<not> opened then ret (Some (HELPER_FILESYSTEM_FAILED, report))
     else do {
       outcome \<leftarrow> list_profiles_loop E deadline fuel report;
       case outcome of
         None \<Rightarrow> ret None
       | Some (result, listed) \<Rightarrow> do {
           closed \<leftarrow> ask (he_iterator_free E) Ev_Iterator_Free;
           ret (let result2 = (if \<not> closed \<and> result = HELPER_SUCCESS then HELPER_FILESYSTEM_FAILED else result)
                in Some (if result2 = HELPER_SUCCESS \<and> \<not> complete listed then HELPER_INVENTORY_PARTIAL else result2,
                         listed\<lparr>records := sort_key entry_name (records listed)\<rparr>))
         }
     }
   }"

definition write_profile_report :: "helper_env \<Rightarrow> profile_report \<Rightarrow> bool helper_op" where
  "write_profile_report E report =
     (case profile_report_encode (Some report) of
        None \<Rightarrow> ret False
      | Some output \<Rightarrow> ask (\<lambda>t. he_output E t output) (Ev_Output output))"

definition profiles_list :: "helper_env \<Rightarrow> nat \<Rightarrow> profile_report \<Rightarrow> int \<Rightarrow> helper_exit option helper_op" where
  "profiles_list E fuel report deadline = do {
     outcome \<leftarrow> list_profiles E fuel report deadline;
     case outcome of
       None \<Rightarrow> ret None
     | Some (result, listed) \<Rightarrow>
         if result = HELPER_SUCCESS \<or> result = HELPER_INVENTORY_PARTIAL then do {
           written \<leftarrow> write_profile_report E listed;
           ret (Some (if written then result else HELPER_CHILD_SETUP_FAILED))
         }
         else ret (Some result)
   }"

section \<open>Deletion and preparation\<close>

definition profiles_delete :: "helper_env \<Rightarrow> string \<Rightarrow> string \<Rightarrow> int \<Rightarrow> helper_exit helper_op" where
  "profiles_delete E name config_name deadline = do {
     config_state \<leftarrow> secure_file_state E AREA_CONFIG config_name MODE_PRIVATE;
     if config_state = ENTRY_INVALID then ret HELPER_FILESYSTEM_FAILED
     else do {
       (result, marker, interface, _) \<leftarrow> session_runtime_state E name;
       if result \<noteq> HELPER_SUCCESS then ret result
       else if marker then ret HELPER_ACTIVE
       else if interface then ret HELPER_INTERFACE_CONFLICT
       else do {
         stop \<leftarrow> phase_stop_status E deadline;
         if stop \<noteq> HELPER_SUCCESS then ret stop
         else do {
           removed \<leftarrow> (if config_state \<noteq> ENTRY_MISSING then remove_and_sync E AREA_CONFIG config_name else ret True);
           if \<not> removed then ret HELPER_FILESYSTEM_FAILED else phase_stop_status E deadline
         }
       }
     }
   }"

definition profiles_prepare_runtime ::
    "helper_env \<Rightarrow> string \<Rightarrow> int \<Rightarrow> (helper_exit \<times> prepared_profile) helper_op" where
  "profiles_prepare_runtime E config_name deadline = do {
     (loaded, dns, original, _) \<leftarrow> load_stored_config E config_name;
     if loaded \<noteq> HELPER_SUCCESS
     then ret (loaded, \<lparr>pp_snapshot = [], pp_dns = dns, pp_dns_payload = []\<rparr>)
     else do {
       (result, temp_name, snapshot) \<leftarrow> write_candidate E original deadline;
       if result \<noteq> HELPER_SUCCESS
       then ret (result, \<lparr>pp_snapshot = [], pp_dns = dns, pp_dns_payload = []\<rparr>)
       else do {
         removed \<leftarrow> remove_and_sync E AREA_STAGING temp_name;
         ret (if removed then HELPER_SUCCESS else HELPER_FILESYSTEM_FAILED,
              \<lparr>pp_snapshot = snapshot, pp_dns = dns, pp_dns_payload = []\<rparr>)
       }
     }
   }"

definition prepared_profile_add_link_claim ::
    "helper_env \<Rightarrow> prepared_profile \<Rightarrow> string \<Rightarrow> prepared_profile option" where
  "prepared_profile_add_link_claim E prepared token =
     (case quick_config_add_link_claim (he_pton E) (pp_snapshot prepared) (Some token) of
        Inl e \<Rightarrow> None
      | Inr claimed \<Rightarrow> Some (prepared\<lparr>pp_snapshot := claimed\<rparr>))"

definition prepared_profile_serialize_dns :: "prepared_profile \<Rightarrow> prepared_profile option" where
  "prepared_profile_serialize_dns prepared =
     (case dns_config_serialize (pp_dns prepared) of
        None \<Rightarrow> None
      | Some encoded \<Rightarrow> Some (prepared\<lparr>pp_dns_payload := encoded\<rparr>))"

end
