(* ===== verification/Helper_Tunnel.thy ===== *)
theory Helper_Tunnel
  imports Helper_Profiles
begin

text \<open>
  \<open>helper/amneziawg_helper_tunnel.h\<close> and \<open>.c\<close>: bringing an interface up and down as a transaction
  whose progress is kept in the journal of the session. The journal that a function of the source
  gets by reference, and the flag of the tunnel that blocks the recovery of the resolver, are in the
  state.
\<close>

section \<open>Data\<close>

record activation =
  ac_name :: string
  ac_config_name :: string
  ac_snapshot_path :: string
  ac_profile :: prepared_profile
  ac_journal :: runtime_marker
  ac_consumed :: bool

datatype dns_transaction_result =
  DNS_TRANSACTION_OK | DNS_TRANSACTION_CHANGE_FAILED | DNS_TRANSACTION_UNCERTAIN | DNS_TRANSACTION_JOURNAL_FAILED

datatype teardown_state =
  TEARDOWN_ABSENT | TEARDOWN_REMAINS | TEARDOWN_CONFLICT | TEARDOWN_UNKNOWN | TEARDOWN_JOURNAL_FAILED

record teardown =
  td_state :: teardown_state
  td_command_result :: helper_exit
  td_execution :: quick_execution

section \<open>Tokens\<close>

definition hex_digit :: "nat \<Rightarrow> char" where
  "hex_digit n = ''0123456789abcdef'' ! n"

definition hex_text :: "bytes \<Rightarrow> string" where
  "hex_text bs = concat (map (\<lambda>b. [hex_digit (byte_val b div 16), hex_digit (byte_val b mod 16)]) bs)"

text \<open>
  The loop over \<open>getrandom\<close>, which may be interrupted for ever: \<open>None\<close> if the fuel does not last. The
  bytes that are read at once are at most what was asked for.
\<close>

primrec read_random :: "helper_env \<Rightarrow> nat \<Rightarrow> bytes \<Rightarrow> bytes option option helper_op" where
  "read_random E 0 got = ret None"
| "read_random E (Suc fuel) got =
     (if length got \<ge> link_token_length div 2 then ret (Some (Some got))
      else do {
        let wanted = link_token_length div 2 - length got;
        outcome \<leftarrow> ask (\<lambda>t. he_random E t wanted) (Ev_Random wanted);
        case outcome of
          Bytes_interrupted \<Rightarrow> read_random E fuel got
        | Bytes_failed \<Rightarrow> ret (Some None)
        | Bytes_read bs \<Rightarrow> if bs = [] then ret (Some None) else read_random E fuel (got @ take wanted bs)
      })"

definition generate_link_token :: "helper_env \<Rightarrow> nat \<Rightarrow> string option option helper_op" where
  "generate_link_token E fuel = do {
     random \<leftarrow> read_random E fuel [];
     ret (map_option (map_option hex_text) random)
   }"

section \<open>The resolver\<close>

definition dns_config_present :: "dns_config \<Rightarrow> bool" where
  "dns_config_present dns \<longleftrightarrow> length (servers dns) > 0 \<or> length (domains dns) > 0"

definition complete_dns_change ::
    "helper_env \<Rightarrow> string \<Rightarrow> journal_dns_state \<Rightarrow> journal_dns_state \<Rightarrow> dns_change_outcome \<Rightarrow>
     dns_transaction_result helper_op" where
  "complete_dns_change E name previous_state confirmed_state outcome = do {
     set_journal (\<lambda>j. j\<lparr>dns_state :=
       (if dc_result outcome = DNS_CHANGE_OK then confirmed_state
        else if \<not> dc_may_have_changed outcome then previous_state
        else JOURNAL_DNS_UNKNOWN)\<rparr>);
     (if dc_result outcome = DNS_CHANGE_UNCERTAIN then do {
        set_blocked True;
        set_journal (\<lambda>j. j\<lparr>marker_state := JOURNAL_CLEANUP_UNCONFIRMED\<rparr>)
      } else ret ());
     written \<leftarrow> write_journal E name;
     ret (if \<not> written then DNS_TRANSACTION_JOURNAL_FAILED
          else if dc_result outcome = DNS_CHANGE_UNCERTAIN then DNS_TRANSACTION_UNCERTAIN
          else if dc_result outcome = DNS_CHANGE_OK then DNS_TRANSACTION_OK
          else DNS_TRANSACTION_CHANGE_FAILED)
   }"

text \<open>A change that is journaled as unknown before it is made.\<close>

definition change_dns ::
    "helper_env \<Rightarrow> string \<Rightarrow> journal_dns_state \<Rightarrow> (runtime_marker \<Rightarrow> dns_change_outcome helper_op) \<Rightarrow>
     dns_transaction_result helper_op" where
  "change_dns E name confirmed_state change = do {
     before \<leftarrow> get_journal;
     set_journal (\<lambda>j. j\<lparr>dns_state := JOURNAL_DNS_UNKNOWN\<rparr>);
     written \<leftarrow> write_journal E name;
     if \<not> written then do {
       set_journal (\<lambda>j. j\<lparr>dns_state := dns_state before\<rparr>);
       ret DNS_TRANSACTION_JOURNAL_FAILED
     }
     else do {
       outcome \<leftarrow> change before;
       complete_dns_change E name (dns_state before) confirmed_state outcome
     }
   }"

definition apply_dns_durably ::
    "helper_env \<Rightarrow> string \<Rightarrow> dns_config \<Rightarrow> int \<Rightarrow> dns_transaction_result helper_op" where
  "apply_dns_durably E name dns deadline = do {
     blocked \<leftarrow> get_blocked;
     m \<leftarrow> get_journal;
     if blocked then ret DNS_TRANSACTION_UNCERTAIN
     else if dns_backend m = DNS_BACKEND_NONE
     then ret (if dns_state m = JOURNAL_DNS_ABSENT then DNS_TRANSACTION_OK else DNS_TRANSACTION_JOURNAL_FAILED)
     else if dns_state m = JOURNAL_DNS_APPLIED then ret DNS_TRANSACTION_OK
     else change_dns E name JOURNAL_DNS_APPLIED
       (\<lambda>j. ask (\<lambda>t. he_dns_apply E t name (link_token j) (ifindex j) dns (dns_backend j) deadline)
              (Ev_Dns_Apply name (link_token j) (ifindex j) dns (dns_backend j)))
   }"

definition revert_dns_durably :: "helper_env \<Rightarrow> string \<Rightarrow> int \<Rightarrow> dns_transaction_result helper_op" where
  "revert_dns_durably E name deadline = do {
     blocked \<leftarrow> get_blocked;
     m \<leftarrow> get_journal;
     if blocked then ret DNS_TRANSACTION_UNCERTAIN
     else if dns_state m = JOURNAL_DNS_ABSENT then ret DNS_TRANSACTION_OK
     else do {
       lost \<leftarrow> (if dns_backend m = DNS_BACKEND_RESOLVCONF then do {
                  (state, _) \<leftarrow> owned_link_state E name m;
                  ret (state = OWNED_LINK_UNKNOWN \<or> state = OWNED_LINK_CONFLICT)
                } else ret False);
       if lost
       then complete_dns_change E name (dns_state m) (dns_state m)
              \<lparr>dc_result = DNS_CHANGE_UNCERTAIN, dc_may_have_changed = False\<rparr>
       else change_dns E name JOURNAL_DNS_ABSENT
         (\<lambda>j. ask (\<lambda>t. he_dns_revert E t name (link_token j) (ifindex j) (dns_backend j) deadline)
                (Ev_Dns_Revert name (link_token j) (ifindex j) (dns_backend j)))
     }
   }"

definition load_runtime_dns :: "helper_env \<Rightarrow> string \<Rightarrow> dns_config option helper_op" where
  "load_runtime_dns E name =
     (case make_dns_filename name of
        None \<Rightarrow> ret None
      | Some dns_name \<Rightarrow> do {
          contents \<leftarrow> read_secure_file E AREA_RUNTIME_CONFIGS dns_name MODE_PRIVATE MAX_DNS_PAYLOAD;
          ret (Option.bind contents dns_config_parse)
        })"

section \<open>Cleanup\<close>

definition abort_before_interface_teardown ::
    "helper_env \<Rightarrow> string \<Rightarrow> dns_config \<Rightarrow> bool \<Rightarrow> helper_exit \<Rightarrow> int \<Rightarrow> helper_exit helper_op" where
  "abort_before_interface_teardown E name dns began_active failure deadline = do {
     let cleanup_failure = (if began_active then HELPER_DNS_ROLLBACK_FAILED else HELPER_ROLLBACK_FAILED);
     blocked \<leftarrow> get_blocked;
     if blocked then ret failure
     else do {
       m \<leftarrow> get_journal;
       (state, _) \<leftarrow> owned_link_state E name m;
       if state = OWNED_LINK_CONFLICT then do {
         set_journal (\<lambda>j. j\<lparr>marker_state := JOURNAL_CLEANUP_UNCONFIRMED\<rparr>);
         _ \<leftarrow> write_journal E name;
         ret HELPER_INTERFACE_CONFLICT
       }
       else if state = OWNED_LINK_UNKNOWN then ret HELPER_RUNTIME_FAILED
       else if state = OWNED_LINK_ABSENT then ret failure
       else do {
         stop \<leftarrow> phase_stop_status E deadline;
         if stop \<noteq> HELPER_SUCCESS then ret cleanup_failure
         else do {
           set_journal (\<lambda>j. j\<lparr>marker_state := JOURNAL_CLEANUP_REQUIRED\<rparr>);
           written \<leftarrow> write_journal E name;
           if \<not> written then ret cleanup_failure
           else if \<not> began_active then ret failure
           else do {
             dns_result \<leftarrow> apply_dns_durably E name dns deadline;
             if dns_result \<noteq> DNS_TRANSACTION_OK then ret HELPER_DNS_ROLLBACK_FAILED
             else do {
               set_journal (\<lambda>j. j\<lparr>marker_state := JOURNAL_ACTIVE\<rparr>);
               restored \<leftarrow> write_journal E name;
               ret (if restored then failure else HELPER_DNS_ROLLBACK_FAILED)
             }
           }
         }
       }
     }
   }"

definition finalize_runtime_entries :: "helper_env \<Rightarrow> string \<Rightarrow> string \<Rightarrow> helper_exit helper_op" where
  "finalize_runtime_entries E name config_name = do {
     blocked \<leftarrow> get_blocked;
     m \<leftarrow> get_journal;
     if blocked \<or> marker_state m \<noteq> JOURNAL_CLEANUP_COMPLETE \<or> dns_state m \<noteq> JOURNAL_DNS_ABSENT \<or> was_active m
     then ret HELPER_RUNTIME_FAILED
     else do {
       written \<leftarrow> write_journal E name;
       if \<not> written then ret HELPER_RUNTIME_FAILED
       else case make_dns_filename name of
         None \<Rightarrow> ret HELPER_RUNTIME_FAILED
       | Some dns_name \<Rightarrow> do {
           config_removed \<leftarrow> remove_and_sync E AREA_RUNTIME_CONFIGS config_name;
           if \<not> config_removed then ret HELPER_RUNTIME_FAILED
           else do {
             dns_removed \<leftarrow> remove_and_sync E AREA_RUNTIME_CONFIGS dns_name;
             if \<not> dns_removed then ret HELPER_RUNTIME_FAILED
             else do {
               removed \<leftarrow> remove_and_sync E AREA_RUNTIME name;
               ret (if removed then HELPER_SUCCESS else HELPER_RUNTIME_FAILED)
             }
           }
         }
     }
   }"

definition discard_unstarted_runtime :: "helper_env \<Rightarrow> string \<Rightarrow> string \<Rightarrow> int \<Rightarrow> helper_exit helper_op" where
  "discard_unstarted_runtime E name config_name cleanup_deadline = do {
     set_cleanup_mode True;
     stop \<leftarrow> phase_stop_status E cleanup_deadline;
     result \<leftarrow>
       (if stop = HELPER_SUCCESS then do {
          set_journal (\<lambda>j. j\<lparr>marker_state := JOURNAL_CLEANUP_COMPLETE, dns_state := JOURNAL_DNS_ABSENT,
            was_active := False, firewall_scope := FIREWALL_NONE\<rparr>);
          finalize_runtime_entries E name config_name
        } else ret stop);
     set_cleanup_mode False;
     ret result
   }"

unbundle bit_operations_syntax

definition include_current_firewall_scope :: "helper_env \<Rightarrow> int \<Rightarrow> unit helper_op" where
  "include_current_firewall_scope E deadline = do {
     (_, scope) \<leftarrow> ask (\<lambda>t. he_firewall_scope E t deadline) Ev_Firewall_Scope;
     set_journal (\<lambda>j. j\<lparr>firewall_scope := firewall_scope j OR scope\<rparr>)
   }"

definition absent_or_failure :: "owned_link \<Rightarrow> helper_exit" where
  "absent_or_failure link = (if link = OWNED_LINK_UNKNOWN then HELPER_RUNTIME_FAILED else HELPER_INTERFACE_CONFLICT)"

definition verify_runtime_cleanup :: "helper_env \<Rightarrow> string \<Rightarrow> string \<Rightarrow> int \<Rightarrow> helper_exit helper_op" where
  "verify_runtime_cleanup E name config_name deadline = do {
     blocked \<leftarrow> get_blocked;
     m \<leftarrow> get_journal;
     if blocked \<or> dns_state m \<noteq> JOURNAL_DNS_ABSENT \<or>
        marker_state m \<noteq> JOURNAL_CLEANUP_REQUIRED \<and> marker_state m \<noteq> JOURNAL_FIREWALL_PENDING
     then ret HELPER_RUNTIME_FAILED
     else do {
       (link, _) \<leftarrow> owned_link_state E name m;
       if link \<noteq> OWNED_LINK_ABSENT then ret (absent_or_failure link)
       else do {
         set_journal (\<lambda>j. j\<lparr>marker_state := JOURNAL_FIREWALL_PENDING, was_active := False\<rparr>);
         written \<leftarrow> write_journal E name;
         if \<not> written then ret HELPER_RUNTIME_FAILED
         else do {
           j \<leftarrow> get_journal;
           firewall \<leftarrow> ask (\<lambda>t. he_firewall_probe E t name (firewall_scope j) deadline)
                         (Ev_Firewall_Probe name (firewall_scope j));
           if firewall \<noteq> AWG_FIREWALL_ABSENT then ret HELPER_FIREWALL_CLEANUP_FAILED
           else do {
             (link2, _) \<leftarrow> owned_link_state E name j;
             if link2 \<noteq> OWNED_LINK_ABSENT then ret (absent_or_failure link2)
             else do {
               stop \<leftarrow> phase_stop_status E deadline;
               if stop \<noteq> HELPER_SUCCESS then ret HELPER_FIREWALL_CLEANUP_FAILED
               else do {
                 set_journal (\<lambda>j. j\<lparr>marker_state := JOURNAL_CLEANUP_COMPLETE\<rparr>);
                 finalize_runtime_entries E name config_name
               }
             }
           }
         }
       }
     }
   }"

text \<open>Whether the failure is settled here, and with which result.\<close>

definition try_finalize_early_up_failure ::
    "helper_env \<Rightarrow> string \<Rightarrow> string \<Rightarrow> quick_result \<Rightarrow> int \<Rightarrow> helper_exit \<Rightarrow> (bool \<times> helper_exit) helper_op" where
  "try_finalize_early_up_failure E name config_name run cleanup_deadline result = do {
     blocked \<leftarrow> get_blocked;
     m \<leftarrow> get_journal;
     if \<not> qr_failed_before_routes run \<or> qr_status run = HELPER_SUCCESS \<or> blocked \<or>
        marker_state m \<noteq> JOURNAL_ACTIVATING \<or> was_active m \<or> ifindex m \<noteq> 0 \<or> dns_state m \<noteq> JOURNAL_DNS_ABSENT
     then ret (False, result)
     else do {
       (link, _) \<leftarrow> owned_link_state E name m;
       if link \<noteq> OWNED_LINK_ABSENT then ret (False, result)
       else do {
         set_cleanup_mode True;
         set_journal (\<lambda>j. j\<lparr>marker_state := JOURNAL_CLEANUP_REQUIRED\<rparr>);
         cleanup \<leftarrow> verify_runtime_cleanup E name config_name cleanup_deadline;
         set_cleanup_mode False;
         ret (True, if cleanup \<noteq> HELPER_SUCCESS then cleanup else result)
       }
     }
   }"

text \<open>The tool takes the interface down; the journal says already that this is not confirmed.\<close>

definition run_down :: "helper_env \<Rightarrow> string \<Rightarrow> string \<Rightarrow> journal_state \<Rightarrow> int \<Rightarrow> teardown helper_op" where
  "run_down E name snapshot_path absent_state deadline = do {
     (run, _) \<leftarrow> quick_run_now E ''down'' snapshot_path False deadline;
     m \<leftarrow> get_journal;
     (link, _) \<leftarrow> owned_link_state E name m;
     let ended = (\<lambda>state. \<lparr>td_state = state, td_command_result = qr_status run, td_execution = qr_execution run\<rparr>);
     if link = OWNED_LINK_ABSENT \<and> qr_status run = HELPER_SUCCESS then do {
       set_journal (\<lambda>j. j\<lparr>marker_state := absent_state\<rparr>);
       settled \<leftarrow> write_journal E name;
       ret (ended (if settled then TEARDOWN_ABSENT else TEARDOWN_JOURNAL_FAILED))
     }
     else ret (ended (if link = OWNED_LINK_PRESENT then TEARDOWN_REMAINS
                      else if link = OWNED_LINK_CONFLICT then TEARDOWN_CONFLICT
                      else TEARDOWN_UNKNOWN))
   }"

definition teardown_owned_interface ::
    "helper_env \<Rightarrow> string \<Rightarrow> string \<Rightarrow> journal_state \<Rightarrow> int \<Rightarrow> teardown helper_op" where
  "teardown_owned_interface E name snapshot_path absent_state deadline = do {
     let unstarted = (\<lambda>state. \<lparr>td_state = state, td_command_result = HELPER_SUCCESS, td_execution = QUICK_NOT_STARTED\<rparr>);
     (identity, exists) \<leftarrow> refresh_owned_interface E name;
     if identity = HELPER_INTERFACE_CONFLICT then ret (unstarted TEARDOWN_CONFLICT)
     else if identity \<noteq> HELPER_SUCCESS then ret (unstarted TEARDOWN_UNKNOWN)
     else do {
       set_journal (\<lambda>j. j\<lparr>marker_state := JOURNAL_CLEANUP_UNCONFIRMED\<rparr>);
       written \<leftarrow> write_journal E name;
       if \<not> written then ret (unstarted TEARDOWN_JOURNAL_FAILED)
       else if \<not> exists then ret (unstarted TEARDOWN_UNKNOWN)
       else run_down E name snapshot_path absent_state deadline
     }
   }"

text \<open>What a teardown that left something behind means for the result.\<close>

definition teardown_failure :: "teardown \<Rightarrow> helper_exit \<Rightarrow> helper_exit" where
  "teardown_failure td otherwise =
     (if td_state td = TEARDOWN_JOURNAL_FAILED then HELPER_ROLLBACK_FAILED
      else if td_state td = TEARDOWN_UNKNOWN then HELPER_RUNTIME_FAILED
      else if td_command_result td \<noteq> HELPER_SUCCESS then td_command_result td
      else otherwise)"

definition rollback_activation_impl ::
    "helper_env \<Rightarrow> string \<Rightarrow> string \<Rightarrow> string \<Rightarrow> helper_exit \<Rightarrow> int \<Rightarrow> helper_exit helper_op" where
  "rollback_activation_impl E name config_name snapshot_path failure cleanup_deadline = do {
     blocked \<leftarrow> get_blocked;
     if blocked then ret failure
     else do {
       set_journal (\<lambda>j. j\<lparr>marker_state := JOURNAL_CLEANUP_REQUIRED\<rparr>);
       written \<leftarrow> write_journal E name;
       if \<not> written then ret HELPER_ROLLBACK_FAILED
       else do {
         (identity, _) \<leftarrow> refresh_owned_interface E name;
         if identity \<noteq> HELPER_SUCCESS then do {
           set_journal (\<lambda>j. j\<lparr>marker_state := JOURNAL_CLEANUP_UNCONFIRMED\<rparr>);
           _ \<leftarrow> write_journal E name;
           ret identity
         }
         else do {
           dns_result \<leftarrow> revert_dns_durably E name cleanup_deadline;
           lost \<leftarrow> get_blocked;
           if lost then ret HELPER_RUNTIME_FAILED
           else do {
             td \<leftarrow> teardown_owned_interface E name snapshot_path JOURNAL_CLEANUP_REQUIRED cleanup_deadline;
             if td_state td = TEARDOWN_ABSENT then
               (if dns_result \<noteq> DNS_TRANSACTION_OK then ret HELPER_DNS_ROLLBACK_FAILED
                else do {
                  removed \<leftarrow> verify_runtime_cleanup E name config_name cleanup_deadline;
                  ret (if removed = HELPER_SUCCESS then failure else removed)
                })
             else if td_state td = TEARDOWN_CONFLICT then ret HELPER_INTERFACE_CONFLICT
             else do {
               let cleanup_failure = teardown_failure td
                 (if dns_result \<noteq> DNS_TRANSACTION_OK then HELPER_DNS_ROLLBACK_FAILED else HELPER_ROLLBACK_FAILED);
               if td_state td = TEARDOWN_REMAINS \<and> td_execution td = QUICK_NOT_STARTED
               then abort_before_interface_teardown E name dns_config_init False cleanup_failure cleanup_deadline
               else ret cleanup_failure
             }
           }
         }
       }
     }
   }"

definition rollback_activation ::
    "helper_env \<Rightarrow> string \<Rightarrow> string \<Rightarrow> string \<Rightarrow> helper_exit \<Rightarrow> int \<Rightarrow> helper_exit helper_op" where
  "rollback_activation E name config_name snapshot_path failure cleanup_deadline = do {
     set_cleanup_mode True;
     result \<leftarrow> rollback_activation_impl E name config_name snapshot_path failure cleanup_deadline;
     set_cleanup_mode False;
     ret result
   }"

section \<open>Preparation\<close>

text \<open>The profile, the resolver and the firewall of an activation with a token.\<close>

definition prepare_activation ::
    "helper_env \<Rightarrow> string \<Rightarrow> string \<Rightarrow> string \<Rightarrow> string \<Rightarrow> int \<Rightarrow> (helper_exit \<times> activation option) helper_op" where
  "prepare_activation E name config_name snapshot_path token deadline = do {
     (result, profile) \<leftarrow> profiles_prepare_runtime E config_name deadline;
     if result \<noteq> HELPER_SUCCESS then ret (result, None)
     else case Option.bind (prepared_profile_add_link_claim E profile token) prepared_profile_serialize_dns of
       None \<Rightarrow> ret (HELPER_RUNTIME_FAILED, None)
     | Some prepared \<Rightarrow> do {
         (selected, backend) \<leftarrow> ask (\<lambda>t. he_dns_select E t (pp_dns prepared) deadline) (Ev_Dns_Select (pp_dns prepared));
         if selected \<noteq> DNS_CHANGE_OK then do {
           failure \<leftarrow> phase_failure_or E deadline
             (if selected = DNS_CHANGE_UNAVAILABLE then HELPER_DNS_BACKEND_UNAVAILABLE else HELPER_DNS_APPLY_FAILED);
           ret (failure, None)
         }
         else do {
           (captured, scope) \<leftarrow> ask (\<lambda>t. he_firewall_scope E t deadline) Ev_Firewall_Scope;
           if \<not> captured then do {
             failure \<leftarrow> phase_failure_or E deadline HELPER_FIREWALL_FAILED;
             ret (failure, None)
           }
           else do {
             stop \<leftarrow> phase_stop_status E deadline;
             ret (stop, if stop = HELPER_SUCCESS
               then Some \<lparr>ac_name = name, ac_config_name = config_name, ac_snapshot_path = snapshot_path,
                 ac_profile = prepared,
                 ac_journal = \<lparr>link_token = token, ifindex = 0, dns_backend = backend,
                   marker_state = JOURNAL_ACTIVATING, dns_state = JOURNAL_DNS_ABSENT, was_active = False,
                   firewall_scope = scope\<rparr>,
                 ac_consumed = False\<rparr>
               else None)
           }
         }
       }
   }"

text \<open>\<open>None\<close> if the system keeps interrupting the reading of random bytes longer than the fuel lasts.\<close>

definition tunnel_prepare_up ::
    "helper_env \<Rightarrow> nat \<Rightarrow> string \<Rightarrow> int \<Rightarrow> (helper_exit \<times> activation option) option helper_op" where
  "tunnel_prepare_up E fuel name deadline =
     (if \<not> name_is_valid (Some name) then ret (Some (HELPER_INVALID_NAME, None))
      else do {
        stop \<leftarrow> phase_stop_status E deadline;
        if stop \<noteq> HELPER_SUCCESS then ret (Some (stop, None))
        else case (make_config_filename name, make_runtime_config_path name) of
          (Some config_name, Some snapshot_path) \<Rightarrow> do {
            config_state \<leftarrow> secure_file_state E AREA_CONFIG config_name MODE_PRIVATE;
            if config_state \<noteq> ENTRY_VALID
            then ret (Some (if config_state = ENTRY_MISSING then HELPER_NOT_FOUND else HELPER_FILESYSTEM_FAILED, None))
            else do {
              (result, marker, interface, _) \<leftarrow> session_runtime_state E name;
              if result \<noteq> HELPER_SUCCESS then ret (Some (result, None))
              else if marker \<or> interface
              then ret (Some (if marker then HELPER_ACTIVE else HELPER_INTERFACE_CONFLICT, None))
              else do {
                token \<leftarrow> generate_link_token E fuel;
                case token of
                  None \<Rightarrow> ret None
                | Some None \<Rightarrow> ret (Some (HELPER_RUNTIME_FAILED, None))
                | Some (Some t) \<Rightarrow> do {
                    outcome \<leftarrow> prepare_activation E name config_name snapshot_path t deadline;
                    ret (Some outcome)
                  }
              }
            }
          }
        | _ \<Rightarrow> ret (Some (HELPER_INVALID_NAME, None))
      })"

section \<open>Activation\<close>

definition roll_back :: "helper_env \<Rightarrow> activation \<Rightarrow> deadlines \<Rightarrow> helper_exit \<Rightarrow> helper_exit helper_op" where
  "roll_back E ac d failure =
     rollback_activation E (ac_name ac) (ac_config_name ac) (ac_snapshot_path ac) failure (cleanup_at d)"

text \<open>A step of the activation is taken only if nothing asks the phase to stop.\<close>

definition unless_stopped ::
    "helper_env \<Rightarrow> activation \<Rightarrow> deadlines \<Rightarrow> helper_exit helper_op \<Rightarrow> helper_exit helper_op" where
  "unless_stopped E ac d step = do {
     stop \<leftarrow> phase_stop_status E (forward_at d);
     if stop \<noteq> HELPER_SUCCESS then roll_back E ac d stop else step
   }"

text \<open>The journal says that the session is active, and the session is as it says.\<close>

definition confirm_activation :: "helper_env \<Rightarrow> activation \<Rightarrow> deadlines \<Rightarrow> helper_exit helper_op" where
  "confirm_activation E ac d = do {
     set_journal (\<lambda>j. j\<lparr>marker_state := JOURNAL_ACTIVE, was_active := True\<rparr>);
     written \<leftarrow> write_journal E (ac_name ac);
     if \<not> written then do {
       set_journal (\<lambda>j. j\<lparr>marker_state := JOURNAL_ACTIVATING, was_active := False\<rparr>);
       roll_back E ac d HELPER_RUNTIME_FAILED
     }
     else unless_stopped E ac d (do {
       (result, marker, interface, _) \<leftarrow> session_runtime_state E (ac_name ac);
       if result \<noteq> HELPER_SUCCESS \<or> \<not> marker \<or> \<not> interface
       then roll_back E ac d (if result = HELPER_SUCCESS then HELPER_RUNTIME_FAILED else result)
       else ret HELPER_SUCCESS
     })
   }"

definition activate_dns :: "helper_env \<Rightarrow> activation \<Rightarrow> deadlines \<Rightarrow> helper_exit helper_op" where
  "activate_dns E ac d = do {
     dns_result \<leftarrow> apply_dns_durably E (ac_name ac) (pp_dns (ac_profile ac)) (forward_at d);
     if dns_result \<noteq> DNS_TRANSACTION_OK then do {
       failure \<leftarrow> (if dns_result = DNS_TRANSACTION_CHANGE_FAILED
                   then phase_failure_or E (forward_at d) HELPER_DNS_APPLY_FAILED
                   else ret HELPER_RUNTIME_FAILED);
       roll_back E ac d failure
     }
     else unless_stopped E ac d (confirm_activation E ac d)
   }"

text \<open>The tool has brought the interface up.\<close>

definition adopt_interface :: "helper_env \<Rightarrow> activation \<Rightarrow> deadlines \<Rightarrow> helper_exit helper_op" where
  "adopt_interface E ac d = unless_stopped E ac d (do {
     (result, interface) \<leftarrow> refresh_owned_interface E (ac_name ac);
     if result \<noteq> HELPER_SUCCESS \<or> \<not> interface
     then roll_back E ac d (if result = HELPER_SUCCESS then HELPER_RUNTIME_FAILED else result)
     else unless_stopped E ac d (unless_stopped E ac d (activate_dns E ac d))
   })"

text \<open>From the run of the tool on: whether the tunnel was started, and the result.\<close>

definition run_up :: "helper_env \<Rightarrow> activation \<Rightarrow> deadlines \<Rightarrow> (bool \<times> helper_exit) helper_op" where
  "run_up E ac d = do {
     (run, _) \<leftarrow> quick_run_now E ''up'' (ac_snapshot_path ac) False (forward_at d);
     if qr_status run \<noteq> HELPER_SUCCESS \<and> qr_execution run = QUICK_NOT_STARTED then do {
       cleanup \<leftarrow> discard_unstarted_runtime E (ac_name ac) (ac_config_name ac) (cleanup_at d);
       ret (False, if cleanup \<noteq> HELPER_SUCCESS then cleanup else qr_status run)
     }
     else do {
       include_current_firewall_scope E (forward_at d);
       written \<leftarrow> write_journal E (ac_name ac);
       let result = (if written then qr_status run else HELPER_RUNTIME_FAILED);
       if result \<noteq> HELPER_SUCCESS then do {
         (settled, settled_result) \<leftarrow>
           try_finalize_early_up_failure E (ac_name ac) (ac_config_name ac) run (cleanup_at d) result;
         if settled then ret (False, settled_result)
         else do {
           rolled \<leftarrow> roll_back E ac d result;
           ret (False, rolled)
         }
       }
       else do {
         adopted \<leftarrow> adopt_interface E ac d;
         ret (True, adopted)
       }
     }
   }"

text \<open>The snapshot, the DNS data and the journal are written before anything is done.\<close>

definition write_runtime_entries :: "helper_env \<Rightarrow> activation \<Rightarrow> string \<Rightarrow> bool helper_op" where
  "write_runtime_entries E ac dns_name = do {
     config_written \<leftarrow> atomic_write E AREA_RUNTIME_CONFIGS (ac_config_name ac) (pp_snapshot (ac_profile ac)) MODE_PRIVATE;
     if \<not> config_written then ret False
     else do {
       dns_written \<leftarrow> atomic_write E AREA_RUNTIME_CONFIGS dns_name (pp_dns_payload (ac_profile ac)) MODE_PRIVATE;
       if \<not> dns_written then ret False else write_journal E (ac_name ac)
     }
   }"

text \<open>A successful activation releases the processes it started, any other ends them.\<close>

definition finish_activation ::
    "helper_env \<Rightarrow> activation \<Rightarrow> deadlines \<Rightarrow> bool \<Rightarrow> helper_exit \<Rightarrow> helper_exit helper_op" where
  "finish_activation E ac d tunnel_started outcome = do {
     result \<leftarrow>
       (if tunnel_started \<and> outcome = HELPER_SUCCESS then do {
          stop \<leftarrow> phase_stop_status E (forward_at d);
          if stop \<noteq> HELPER_SUCCESS then roll_back E ac d stop else ret outcome
        } else ret outcome);
     if result = HELPER_SUCCESS then do {
       released \<leftarrow> ask (\<lambda>t. he_release E t (forward_at d) (cleanup_at d)) Ev_Release;
       if \<not> released then do {
         stop \<leftarrow> phase_stop_status E (forward_at d);
         rolled \<leftarrow> roll_back E ac d (if stop = HELPER_SUCCESS then HELPER_CHILD_SIGNALED else stop);
         ended \<leftarrow> ask (\<lambda>t. he_terminate E t (cleanup_at d)) Ev_Terminate;
         ret (if ended then rolled else HELPER_ROLLBACK_FAILED)
       }
       else ret result
     }
     else do {
       ended \<leftarrow> ask (\<lambda>t. he_terminate E t (cleanup_at d)) Ev_Terminate;
       ret (if ended then result else HELPER_ROLLBACK_FAILED)
     }
   }"

text \<open>The result, and the attempt, which is used up.\<close>

definition tunnel_activate :: "helper_env \<Rightarrow> activation \<Rightarrow> deadlines \<Rightarrow> (helper_exit \<times> activation) helper_op" where
  "tunnel_activate E attempt d =
     (if ac_consumed attempt then ret (HELPER_USAGE, attempt)
      else do {
        let ac = attempt\<lparr>ac_consumed := True\<rparr>;
        set_journal (\<lambda>_. ac_journal ac);
        stop \<leftarrow> phase_stop_status E (forward_at d);
        if stop \<noteq> HELPER_SUCCESS then ret (stop, ac)
        else do {
          (result, marker, interface, _) \<leftarrow> session_runtime_state E (ac_name ac);
          if result \<noteq> HELPER_SUCCESS then ret (result, ac)
          else if marker \<or> interface then ret (if marker then HELPER_ACTIVE else HELPER_INTERFACE_CONFLICT, ac)
          else case make_dns_filename (ac_name ac) of
            None \<Rightarrow> ret (HELPER_RUNTIME_FAILED, ac)
          | Some dns_name \<Rightarrow> do {
              written \<leftarrow> write_runtime_entries E ac dns_name;
              (started, outcome) \<leftarrow>
                (if \<not> written then do {
                   cleanup \<leftarrow> discard_unstarted_runtime E (ac_name ac) (ac_config_name ac) (cleanup_at d);
                   ret (False, if cleanup = HELPER_SUCCESS then HELPER_RUNTIME_FAILED else HELPER_ROLLBACK_FAILED)
                 } else run_up E ac d);
              final \<leftarrow> finish_activation E ac d started outcome;
              ret (final, ac)
            }
        }
      })"

section \<open>Taking an interface down\<close>

definition runtime_files_agree :: "helper_env \<Rightarrow> string \<Rightarrow> string \<Rightarrow> runtime_marker \<Rightarrow> dns_config option helper_op" where
  "runtime_files_agree E name config_name m = do {
     loaded \<leftarrow> load_runtime_dns E name;
     case loaded of
       None \<Rightarrow> ret None
     | Some dns \<Rightarrow> do {
         state \<leftarrow> secure_file_state E AREA_RUNTIME_CONFIGS config_name MODE_PRIVATE;
         ret (if state \<noteq> ENTRY_VALID \<or> (dns_backend m = DNS_BACKEND_NONE) \<noteq> (\<not> dns_config_present dns)
              then None else Some dns)
       }
   }"

definition tunnel_check_down :: "helper_env \<Rightarrow> string \<Rightarrow> int \<Rightarrow> helper_exit helper_op" where
  "tunnel_check_down E name deadline = do {
     stop \<leftarrow> phase_stop_status E deadline;
     if stop \<noteq> HELPER_SUCCESS then ret stop
     else case (if name_is_valid (Some name) then make_config_filename name else None) of
       None \<Rightarrow> ret HELPER_INVALID_NAME
     | Some config_name \<Rightarrow> do {
         (result, marker, interface, found) \<leftarrow> session_runtime_state E name;
         if result \<noteq> HELPER_SUCCESS then ret result
         else case found of
           None \<Rightarrow> ret (if interface then HELPER_INTERFACE_CONFLICT else HELPER_SUCCESS)
         | Some m \<Rightarrow>
             if \<not> marker \<or> marker_state m = JOURNAL_CLEANUP_COMPLETE \<or> marker_state m = JOURNAL_FIREWALL_PENDING
             then ret (if interface then HELPER_INTERFACE_CONFLICT else HELPER_SUCCESS)
             else if \<not> interface \<or>
                     marker_state m \<notin> {JOURNAL_ACTIVE, JOURNAL_ACTIVATING, JOURNAL_CLEANUP_REQUIRED} \<or>
                     dns_backend m = DNS_BACKEND_RESOLVED \<and> dns_state m = JOURNAL_DNS_UNKNOWN
             then ret HELPER_RUNTIME_FAILED
             else do {
               files \<leftarrow> runtime_files_agree E name config_name m;
               phase_failure_or E deadline (if files = None then HELPER_RUNTIME_FAILED else HELPER_SUCCESS)
             }
       }
   }"

text \<open>The resolver has been reverted; the interface is taken down.\<close>

definition down_interface ::
    "helper_env \<Rightarrow> string \<Rightarrow> string \<Rightarrow> string \<Rightarrow> deadlines \<Rightarrow> (bool \<times> helper_exit) helper_op" where
  "down_interface E name config_name snapshot_path d = do {
     td \<leftarrow> teardown_owned_interface E name snapshot_path JOURNAL_CLEANUP_REQUIRED (forward_at d);
     if td_state td = TEARDOWN_ABSENT then do {
       result \<leftarrow> verify_runtime_cleanup E name config_name (forward_at d);
       ret (False, result)
     }
     else if td_state td = TEARDOWN_CONFLICT then ret (False, HELPER_INTERFACE_CONFLICT)
     else ret (td_state td = TEARDOWN_REMAINS \<and> td_execution td = QUICK_NOT_STARTED,
               teardown_failure td HELPER_RUNTIME_FAILED)
   }"

text \<open>The transaction itself: whether it stopped before the teardown, and the result.\<close>

definition down_session ::
    "helper_env \<Rightarrow> string \<Rightarrow> string \<Rightarrow> string \<Rightarrow> deadlines \<Rightarrow> (bool \<times> helper_exit) helper_op" where
  "down_session E name config_name snapshot_path d = do {
     include_current_firewall_scope E (forward_at d);
     set_journal (\<lambda>j. j\<lparr>marker_state := JOURNAL_CLEANUP_REQUIRED\<rparr>);
     written \<leftarrow> write_journal E name;
     if \<not> written then ret (False, HELPER_RUNTIME_FAILED)
     else do {
       dns_result \<leftarrow> revert_dns_durably E name (forward_at d);
       blocked \<leftarrow> get_blocked;
       if blocked then ret (False, HELPER_RUNTIME_FAILED)
       else if dns_result \<noteq> DNS_TRANSACTION_OK then do {
         failure \<leftarrow> (if dns_result = DNS_TRANSACTION_CHANGE_FAILED
                     then phase_failure_or E (forward_at d) HELPER_DNS_REVERT_FAILED
                     else ret HELPER_RUNTIME_FAILED);
         ret (True, failure)
       }
       else down_interface E name config_name snapshot_path d
     }
   }"

text \<open>A session with a journal that is neither settled nor beyond repair.\<close>

definition down_recoverable ::
    "helper_env \<Rightarrow> string \<Rightarrow> string \<Rightarrow> string \<Rightarrow> deadlines \<Rightarrow> bool \<Rightarrow> helper_exit helper_op" where
  "down_recoverable E name config_name snapshot_path d interface = do {
     m \<leftarrow> get_journal;
     (result, exists) \<leftarrow> (if interface \<and> ifindex m = 0 then refresh_owned_interface E name else ret (HELPER_SUCCESS, interface));
     if result \<noteq> HELPER_SUCCESS then ret result
     else if interface \<and> \<not> exists then ret HELPER_RUNTIME_FAILED
     else do {
       files \<leftarrow> runtime_files_agree E name config_name m;
       case files of
         None \<Rightarrow> ret HELPER_RUNTIME_FAILED
       | Some dns \<Rightarrow> do {
           let began_active = (marker_state m = JOURNAL_ACTIVE);
           (aborted, outcome) \<leftarrow> down_session E name config_name snapshot_path d;
           if \<not> aborted then ret outcome
           else do {
             set_cleanup_mode True;
             final \<leftarrow> abort_before_interface_teardown E name dns began_active outcome (cleanup_at d);
             set_cleanup_mode False;
             ret final
           }
         }
     }
   }"

definition tunnel_down ::
    "helper_env \<Rightarrow> string \<Rightarrow> string \<Rightarrow> string \<Rightarrow> deadlines \<Rightarrow> helper_exit helper_op" where
  "tunnel_down E name config_name snapshot_path d = do {
     stop \<leftarrow> phase_stop_status E (forward_at d);
     if stop \<noteq> HELPER_SUCCESS then ret stop
     else do {
       (result, marker, interface, found) \<leftarrow> session_runtime_state E name;
       if result \<noteq> HELPER_SUCCESS then ret result
       else case found of
         None \<Rightarrow> ret (if interface then HELPER_INTERFACE_CONFLICT else HELPER_SUCCESS)
       | Some m \<Rightarrow> do {
           set_journal (\<lambda>_. m);
           if marker_state m = JOURNAL_CLEANUP_COMPLETE then
             (if interface then ret HELPER_INTERFACE_CONFLICT else finalize_runtime_entries E name config_name)
           else if marker_state m = JOURNAL_FIREWALL_PENDING then
             (if interface then ret HELPER_INTERFACE_CONFLICT
              else verify_runtime_cleanup E name config_name (forward_at d))
           else if marker_state m = JOURNAL_CLEANUP_UNCONFIRMED then ret HELPER_RUNTIME_FAILED
           else if dns_backend m = DNS_BACKEND_RESOLVED \<and> dns_state m = JOURNAL_DNS_UNKNOWN then do {
             set_blocked True;
             set_journal (\<lambda>j. j\<lparr>marker_state := JOURNAL_CLEANUP_UNCONFIRMED\<rparr>);
             _ \<leftarrow> write_journal E name;
             ret HELPER_RUNTIME_FAILED
           }
           else down_recoverable E name config_name snapshot_path d interface
         }
     }
   }"

end
