(* ===== verification/Helper_Switch.thy ===== *)
theory Helper_Switch
  imports Helper_Tunnel
begin

text \<open>
  \<open>helper/amneziawg_helper_switch.c\<close> and \<open>amneziawg_helper_remove.c\<close>: bringing an interface up after
  every other session has been taken down, and deleting a profile after its session has.
\<close>

text \<open>A tunnel of its own, with nothing known to have gone wrong.\<close>

definition with_new_tunnel :: "'a helper_op \<Rightarrow> 'a helper_op" where
  "with_new_tunnel op = do {
     blocked \<leftarrow> get_blocked;
     set_blocked False;
     a \<leftarrow> op;
     set_blocked blocked;
     ret a
   }"

definition previous_session_failure :: "helper_exit \<Rightarrow> helper_exit" where
  "previous_session_failure result =
     (if result = HELPER_TIMED_OUT \<or> result = HELPER_CHILD_SIGNALED then result else HELPER_SWITCH_CLEANUP_FAILED)"

definition disconnect_previous :: "helper_env \<Rightarrow> string \<Rightarrow> deadlines \<Rightarrow> helper_exit helper_op" where
  "disconnect_previous E name d = do {
     stop \<leftarrow> phase_stop_status E (forward_at d);
     if stop \<noteq> HELPER_SUCCESS then ret stop
     else case (make_config_filename name, make_runtime_config_path name) of
       (Some config_name, Some snapshot_path) \<Rightarrow> do {
         result \<leftarrow> with_new_tunnel (tunnel_down E name config_name snapshot_path d);
         if result \<noteq> HELPER_SUCCESS then ret result
         else do {
           stop2 \<leftarrow> phase_stop_status E (forward_at d);
           if stop2 \<noteq> HELPER_SUCCESS then ret stop2
           else do {
             (state, marker, interface, _) \<leftarrow> session_runtime_state E name;
             ret (if state \<noteq> HELPER_SUCCESS then state
                  else if marker \<or> interface then HELPER_RUNTIME_FAILED else HELPER_SUCCESS)
           }
         }
       }
     | _ \<Rightarrow> ret HELPER_INVALID_NAME
   }"

text \<open>The loops over the previous sessions; the first failure ends them.\<close>

primrec all_succeed :: "('a \<Rightarrow> helper_exit helper_op) \<Rightarrow> 'a list \<Rightarrow> helper_exit helper_op" where
  "all_succeed f [] = ret HELPER_SUCCESS"
| "all_succeed f (x # xs) = do {
     result \<leftarrow> f x;
     if result \<noteq> HELPER_SUCCESS then ret result else all_succeed f xs
   }"

definition list_runtime_names :: "helper_env \<Rightarrow> int \<Rightarrow> (helper_exit \<times> string list) helper_op" where
  "list_runtime_names E deadline = ask (\<lambda>t. he_list_runtime E t deadline) Ev_List_Runtime"

text \<open>Every session has been admitted; they are disconnected, and the target is activated.\<close>

definition switch_admitted :: "helper_env \<Rightarrow> activation \<Rightarrow> string list \<Rightarrow> deadlines \<Rightarrow> helper_exit helper_op" where
  "switch_admitted E ac previous d = do {
     result \<leftarrow> all_succeed (\<lambda>p. disconnect_previous E p d) previous;
     if result \<noteq> HELPER_SUCCESS then ret (previous_session_failure result)
     else do {
       (listed, remaining) \<leftarrow> list_runtime_names E (forward_at d);
       if listed \<noteq> HELPER_SUCCESS then ret (previous_session_failure listed)
       else if remaining \<noteq> [] then ret (previous_session_failure HELPER_RUNTIME_FAILED)
       else do {
         stop \<leftarrow> phase_stop_status E (forward_at d);
         if stop \<noteq> HELPER_SUCCESS then ret stop
         else do {
           (activated, _) \<leftarrow> tunnel_activate E ac d;
           ret activated
         }
       }
     }
   }"

definition switch_up :: "helper_env \<Rightarrow> nat \<Rightarrow> string \<Rightarrow> deadlines \<Rightarrow> helper_exit option helper_op" where
  "switch_up E fuel name d =
     (if \<not> name_is_valid (Some name) then ret (Some HELPER_INVALID_NAME)
      else do {
        (listed, previous) \<leftarrow> list_runtime_names E (forward_at d);
        if listed \<noteq> HELPER_SUCCESS then ret (Some (previous_session_failure listed))
        else do {
          set_blocked False;
          prepared \<leftarrow> tunnel_prepare_up E fuel name (forward_at d);
          case prepared of
            None \<Rightarrow> ret None
          | Some (result, None) \<Rightarrow> ret (Some result)
          | Some (result, Some ac) \<Rightarrow> do {
              admitted \<leftarrow> all_succeed (\<lambda>p. tunnel_check_down E p (forward_at d)) previous;
              if admitted \<noteq> HELPER_SUCCESS then ret (Some (previous_session_failure admitted))
              else do {
                final \<leftarrow> switch_admitted E ac previous d;
                ret (Some final)
              }
            }
        }
      })"

definition helper_remove :: "helper_env \<Rightarrow> string \<Rightarrow> deadlines \<Rightarrow> helper_exit helper_op" where
  "helper_remove E name d = do {
     stop \<leftarrow> phase_stop_status E (forward_at d);
     if stop \<noteq> HELPER_SUCCESS then ret stop
     else case (if name_is_valid (Some name) then make_config_filename name else None, make_runtime_config_path name) of
       (Some config_name, Some snapshot_path) \<Rightarrow> do {
         state \<leftarrow> secure_file_state E AREA_CONFIG config_name MODE_PRIVATE;
         if state = ENTRY_INVALID then ret HELPER_FILESYSTEM_FAILED
         else do {
           result \<leftarrow> with_new_tunnel (tunnel_down E name config_name snapshot_path d);
           if result \<noteq> HELPER_SUCCESS then ret result
           else do {
             stop2 \<leftarrow> phase_stop_status E (forward_at d);
             if stop2 \<noteq> HELPER_SUCCESS then ret stop2
             else profiles_delete E name config_name (forward_at d)
           }
         }
       }
     | _ \<Rightarrow> ret HELPER_INVALID_NAME
   }"

end
