(* ===== verification/Helper_Logic.thy ===== *)
theory Helper_Logic
  imports Helper_Switch
begin

text \<open>
  What the helper does before what: the histories in which every change of the resolver, of the link
  and of the journal is covered by a journal that was written before, and the proof that all
  operations of the helper keep to them, whatever the environment answers.
\<close>

section \<open>Histories\<close>

text \<open>
  The journal of a session as it is known to be on disk: what was written last, if that is known to
  have succeeded and nothing was removed since.
\<close>

primrec durable :: "string \<Rightarrow> history \<Rightarrow> runtime_marker option" where
  "durable name [] = None"
| "durable name (e # t) =
     (case e of
        Ev_Write_Marker n m written \<Rightarrow> if n = name then (if written then Some m else None) else durable name t
      | Ev_Remove area n removed \<Rightarrow> if area = AREA_RUNTIME \<and> n = name then None else durable name t
      | _ \<Rightarrow> durable name t)"

definition covers_dns :: "runtime_marker \<Rightarrow> string \<Rightarrow> nat \<Rightarrow> dns_backend \<Rightarrow> bool" where
  "covers_dns m token index backend \<longleftrightarrow>
     dns_state m = JOURNAL_DNS_UNKNOWN \<and> link_token m = token \<and> ifindex m = index \<and> dns_backend m = backend"

definition journaled :: "helper_event \<Rightarrow> history \<Rightarrow> bool" where
  "journaled e t \<longleftrightarrow>
     (case e of
        Ev_Dns_Apply name token index dns backend outcome \<Rightarrow>
          (\<exists>m. durable name t = Some m \<and> covers_dns m token index backend)
      | Ev_Dns_Revert name token index backend outcome \<Rightarrow>
          (\<exists>m. durable name t = Some m \<and> covers_dns m token index backend)
      | Ev_Quick command path wants_output outcome \<Rightarrow>
          (command = ''up'' \<longrightarrow> (\<exists>name m. make_runtime_config_path name = Some path \<and> durable name t = Some m \<and>
             marker_state m = JOURNAL_ACTIVATING \<and> dns_state m = JOURNAL_DNS_ABSENT \<and> \<not> was_active m)) \<and>
          (command = ''down'' \<longrightarrow> (\<exists>name m. make_runtime_config_path name = Some path \<and> durable name t = Some m \<and>
             marker_state m = JOURNAL_CLEANUP_UNCONFIRMED))
      | Ev_Remove area name removed \<Rightarrow>
          (area = AREA_RUNTIME \<longrightarrow> (\<exists>m. durable name t = Some m \<and> marker_state m = JOURNAL_CLEANUP_COMPLETE \<and>
             dns_state m = JOURNAL_DNS_ABSENT \<and> \<not> was_active m))
      | _ \<Rightarrow> True)"

primrec writes_ahead :: "history \<Rightarrow> bool" where
  "writes_ahead [] = True"
| "writes_ahead (e # t) = (journaled e t \<and> writes_ahead t)"

section \<open>Rules\<close>

definition keeps :: "(helper \<Rightarrow> bool) \<Rightarrow> 'a helper_op \<Rightarrow> bool" where
  "keeps I m \<longleftrightarrow> (\<forall>s. I s \<longrightarrow> I (snd (run_state m s)))"

named_theorems keep_rules \<open>rules for the invariants of the helper's operations\<close>

lemma keeps_ret [keep_rules]: "keeps I (ret a)"
  by (simp add: keeps_def)

lemma keeps_bind [keep_rules]: "keeps I m \<Longrightarrow> (\<And>a. keeps I (f a)) \<Longrightarrow> keeps I (m \<bind> f)"
  by (auto simp: keeps_def split: prod.split)

lemma keeps_if [keep_rules]: "(b \<Longrightarrow> keeps I m) \<Longrightarrow> (\<not> b \<Longrightarrow> keeps I n) \<Longrightarrow> keeps I (if b then m else n)"
  by simp

lemma keeps_option [keep_rules]:
  "keeps I m \<Longrightarrow> (\<And>x. y = Some x \<Longrightarrow> keeps I (f x)) \<Longrightarrow> keeps I (case y of None \<Rightarrow> m | Some x \<Rightarrow> f x)"
  by (simp split: option.split)

lemma keeps_prod [keep_rules]: "(\<And>a b. p = (a, b) \<Longrightarrow> keeps I (f a b)) \<Longrightarrow> keeps I (case p of (a, b) \<Rightarrow> f a b)"
  by (simp split: prod.split)

lemma keeps_sum [keep_rules]:
  "(\<And>x. y = Inl x \<Longrightarrow> keeps I (f x)) \<Longrightarrow> (\<And>x. y = Inr x \<Longrightarrow> keeps I (g x)) \<Longrightarrow>
   keeps I (case y of Inl x \<Rightarrow> f x | Inr x \<Rightarrow> g x)"
  by (simp split: sum.split)

lemma keeps_gets [keep_rules]: "keeps I get_journal" "keeps I get_blocked"
  by (simp_all add: keeps_def get_journal_def get_blocked_def)

text \<open>An invariant of the history does not depend on the rest of the state.\<close>

definition of_trace :: "(history \<Rightarrow> bool) \<Rightarrow> helper \<Rightarrow> bool" where
  "of_trace J s \<longleftrightarrow> J (h_trace s)"

lemma keeps_sets [keep_rules]: "keeps (of_trace J) (set_journal f)" "keeps (of_trace J) (set_blocked b)"
  by (simp_all add: keeps_def set_journal_def set_blocked_def of_trace_def)

text \<open>A step that keeps the invariant where something more is known of the state.\<close>

definition keeps_when :: "(helper \<Rightarrow> bool) \<Rightarrow> (helper \<Rightarrow> bool) \<Rightarrow> 'a helper_op \<Rightarrow> bool" where
  "keeps_when K I m \<longleftrightarrow> (\<forall>s. K s \<longrightarrow> I s \<longrightarrow> I (snd (run_state m s)))"

lemma keeps_whenI: "keeps I m \<Longrightarrow> keeps_when K I m"
  by (simp add: keeps_when_def keeps_def)

lemma keeps_when_if:
  "(b \<Longrightarrow> keeps_when K I m) \<Longrightarrow> (\<not> b \<Longrightarrow> keeps_when K I n) \<Longrightarrow> keeps_when K I (if b then m else n)"
  by simp

lemma keeps_when_ask:
  assumes "\<And>s a. K s \<Longrightarrow> J (h_trace s) \<Longrightarrow> J (ev a # h_trace s)" and "\<And>a. keeps (of_trace J) (f a)"
  shows "keeps_when K (of_trace J) (ask answer ev \<bind> f)"
  unfolding keeps_when_def
proof (intro allI impI)
  fix s assume "K s" "of_trace J s"
  let ?a = "answer (h_trace s)"
  have "of_trace J (s\<lparr>h_trace := ev ?a # h_trace s\<rparr>)" using assms(1) \<open>K s\<close> \<open>of_trace J s\<close> by (simp add: of_trace_def)
  then have "of_trace J (snd (run_state (f ?a) (s\<lparr>h_trace := ev ?a # h_trace s\<rparr>)))" using assms(2) by (simp add: keeps_def)
  then show "of_trace J (snd (run_state (ask answer ev \<bind> f) s))" by (simp add: ask_def Let_def)
qed

lemma keeps_ask: "(\<And>a t. J t \<Longrightarrow> J (ev a # t)) \<Longrightarrow> keeps (of_trace J) (ask answer ev)"
  by (simp add: keeps_def ask_def of_trace_def Let_def)

lemma keeps_tell: "(\<And>t. J t \<Longrightarrow> J (ev # t)) \<Longrightarrow> keeps (of_trace J) (tell ev)"
  by (simp add: keeps_def tell_def of_trace_def)


section \<open>Operations that change nothing\<close>

text \<open>Events that leave the sessions and the saved profiles alone; the staging directory is not theirs.\<close>

definition calm :: "helper_event \<Rightarrow> bool" where
  "calm e \<longleftrightarrow>
     (case e of
        Ev_Write_Marker name m written \<Rightarrow> False
      | Ev_Write_File area name contents mode written \<Rightarrow> False
      | Ev_Remove area name removed \<Rightarrow> area = AREA_STAGING
      | Ev_Dns_Apply name token index dns backend outcome \<Rightarrow> False
      | Ev_Dns_Revert name token index backend outcome \<Rightarrow> False
      | Ev_Quick command path wants_output outcome \<Rightarrow> command = ''strip''
      | Ev_Cleanup_Mode on \<Rightarrow> False
      | Ev_Release released \<Rightarrow> False
      | Ev_Terminate ended \<Rightarrow> False
      | Ev_Rename_Noreplace temp_name config_name outcome \<Rightarrow> False
      | Ev_Exchange temp_name config_name exchanged \<Rightarrow> False
      | Ev_Sync_Config_And_Staging synced \<Rightarrow> False
      | _ \<Rightarrow> True)"

locale calm_operations =
  fixes I :: "helper \<Rightarrow> bool"
  assumes calm_step: "calm e \<Longrightarrow> I s \<Longrightarrow> I (s\<lparr>h_trace := e # h_trace s\<rparr>)"
begin

lemma ask_calm: "(\<And>a. calm (ev a)) \<Longrightarrow> keeps I (ask answer ev)"
  by (simp add: keeps_def ask_def Let_def calm_step)

lemma ask_calm_events:
  "keeps I (ask (he_clock E) (\<lambda>(t, n). Ev_Clock t n))"
  "keeps I (read_runtime_marker E name)" "keeps I (link_observe_now E name token)"
  "keeps I (secure_file_state E area name mode)" "keeps I (read_secure_file E area name mode limit)"
  "keeps I (remove_and_sync E AREA_STAGING name)" "keeps I (stage_candidate E contents)"
  "keeps I (quick_run_now E ''strip'' path wants_output deadline)"
  "keeps I (ask f1 (Ev_Read_Config name))" "keeps I (ask f2 (Ev_Random wanted))"
  "keeps I (ask f3 (Ev_Dns_Select dns))" "keeps I (ask f4 Ev_Firewall_Scope)"
  "keeps I (ask f5 Ev_List_Runtime)" "keeps I (ask f6 (Ev_Firewall_Probe name scope))"
  "keeps I (ask f7 Ev_Iterator_Next)" "keeps I (ask f8 (Ev_Config_Matches name identity))"
  "keeps I (ask f9 (Ev_Config_Security name))" "keeps I (ask f10 (Ev_Iterator_New area))"
  "keeps I (ask f11 Ev_Iterator_Free)" "keeps I (ask f12 (Ev_Output output))"
  by (rule ask_calm; simp add: calm_def split: prod.split)+

lemma phases:
  "keeps I (phase_stop_status E deadline)" "keeps I (phase_failure_or E deadline fallback)"
  unfolding phase_failure_or_def phase_stop_status_def by (intro keep_rules ask_calm_events)+

lemma sessions:
  "keeps I (owned_link_state E name m)" "keeps I (session_runtime_state E name)"
  unfolding session_runtime_state_def owned_link_state_def by (intro keep_rules ask_calm_events)+

lemma candidates:
  "keeps I (write_candidate E contents deadline)" "keeps I (load_stored_config E config_name)"
  "keeps I (profiles_prepare_runtime E config_name deadline)"
  unfolding profiles_prepare_runtime_def write_candidate_def strip_candidate_def load_stored_config_def
  by (intro keep_rules ask_calm_events)+

lemma read_random_keeps: "keeps I (read_random E fuel got)"
proof (induction fuel arbitrary: got)
  case (Suc fuel)
  show ?case unfolding read_random.simps Let_def
    by (intro keep_rules ask_calm_events) (auto split: bytes_outcome.split intro: keep_rules Suc)
qed (simp add: keeps_ret)

lemma preparation:
  "keeps I (prepare_activation E name config_name snapshot_path token deadline)"
  "keeps I (tunnel_prepare_up E fuel name deadline)"
  unfolding tunnel_prepare_up_def prepare_activation_def generate_link_token_def Let_def
  by (intro keep_rules ask_calm_events phases sessions candidates read_random_keeps)+

lemma checks:
  "keeps I (runtime_files_agree E name config_name m)" "keeps I (tunnel_check_down E name deadline)"
  "keeps I (list_runtime_names E deadline)"
  unfolding tunnel_check_down_def runtime_files_agree_def load_runtime_dns_def list_runtime_names_def
  by (intro keep_rules ask_calm_events phases sessions)+

lemma all_succeed_keeps: "(\<And>x. keeps I (f x)) \<Longrightarrow> keeps I (all_succeed f xs)"
  by (induction xs) (auto intro: keep_rules)

end

lemma calm_journaled: "calm e \<Longrightarrow> journaled e t"
  by (cases e) (auto simp: calm_def journaled_def)

interpretation ahead: calm_operations "of_trace writes_ahead"
  by unfold_locales (simp add: of_trace_def calm_journaled)

interpretation still: calm_operations "of_trace (list_all calm)"
  by unfold_locales (simp add: of_trace_def)

interpretation journal: calm_operations "\<lambda>s. P (h_journal s) (h_blocked s)" for P
  by unfold_locales simp


section \<open>Writing ahead\<close>

lemma keep_journaled: "(\<And>a t. journaled (ev a) t) \<Longrightarrow> keeps (of_trace writes_ahead) (ask answer ev)"
  by (rule keeps_ask) simp

lemma write_journal_keeps: "keeps (of_trace writes_ahead) (write_journal E name)"
  unfolding write_journal_def by (intro keep_rules keep_journaled) (simp add: journaled_def)

lemma cleanup_mode_keeps: "keeps (of_trace writes_ahead) (set_cleanup_mode b)"
  unfolding set_cleanup_mode_def by (rule keeps_tell) (simp add: journaled_def)

lemma plain_keeps:
  "keeps (of_trace writes_ahead) (atomic_write E area name contents mode)"
  "keeps (of_trace writes_ahead) (remove_and_sync E AREA_RUNTIME_CONFIGS name)"
  "keeps (of_trace writes_ahead) (remove_and_sync E AREA_CONFIG name)"
  "keeps (of_trace writes_ahead) (ask f Ev_Release)" "keeps (of_trace writes_ahead) (ask g Ev_Terminate)"
  by (rule keep_journaled; simp add: journaled_def)+

lemmas ahead_rules = keep_rules write_journal_keeps cleanup_mode_keeps plain_keeps
  ahead.ask_calm_events ahead.phases ahead.sessions ahead.candidates ahead.preparation ahead.checks

text \<open>What is known once the journal has been written.\<close>

definition journal_is :: "string \<Rightarrow> (runtime_marker \<Rightarrow> bool) \<Rightarrow> helper \<Rightarrow> bool" where
  "journal_is name P s \<longleftrightarrow> durable name (h_trace s) = Some (h_journal s) \<and> P (h_journal s)"

lemma keeps_set_write:
  assumes "\<And>j. P (u j)" and "keeps (of_trace writes_ahead) (rest False)"
    and "keeps_when (journal_is name P) (of_trace writes_ahead) (rest True)"
  shows "keeps (of_trace writes_ahead) (set_journal u \<bind> (\<lambda>_. write_journal E name \<bind> rest))"
  unfolding keeps_def
proof (intro allI impI)
  fix s assume s: "of_trace writes_ahead s"
  let ?s = "\<lambda>b. s\<lparr>h_journal := u (h_journal s), h_trace := Ev_Write_Marker name (u (h_journal s)) b # h_trace s\<rparr>"
  have "of_trace writes_ahead (?s b)" for b using s by (simp add: of_trace_def journaled_def)
  moreover have "journal_is name P (?s True)" using assms(1) by (simp add: journal_is_def)
  ultimately have "of_trace writes_ahead (snd (run_state (rest b) (?s b)))" for b
    using assms(2,3) by (cases b) (simp_all add: keeps_def keeps_when_def)
  then show "of_trace writes_ahead (snd (run_state (set_journal u \<bind> (\<lambda>_. write_journal E name \<bind> rest)) s))"
    by (simp add: get_journal_def set_journal_def write_journal_def ask_def Let_def)
qed

lemma complete_dns_keeps: "keeps (of_trace writes_ahead) (complete_dns_change E name previous confirmed outcome)"
  unfolding complete_dns_change_def by (intro ahead_rules)

lemma change_dns_keeps:
  assumes "\<And>s m. writes_ahead (h_trace s) \<Longrightarrow> durable name (h_trace s) = Some (m\<lparr>dns_state := JOURNAL_DNS_UNKNOWN\<rparr>) \<Longrightarrow>
    writes_ahead (h_trace (snd (run_state (change m) s)))"
  shows "keeps (of_trace writes_ahead) (change_dns E name confirmed change)"
  unfolding keeps_def
proof (intro allI impI)
  fix s assume s: "of_trace writes_ahead s"
  let ?m = "(h_journal s)\<lparr>dns_state := JOURNAL_DNS_UNKNOWN\<rparr>"
  let ?s = "\<lambda>written. s\<lparr>h_journal := ?m, h_trace := Ev_Write_Marker name ?m written # h_trace s\<rparr>"
  have "of_trace writes_ahead (snd (run_state (change (h_journal s)) (?s True)))"
    using assms [of "?s True" "h_journal s"] s by (simp add: of_trace_def journaled_def)
  then have "of_trace writes_ahead (snd (run_state (change (h_journal s) \<bind>
      complete_dns_change E name (dns_state (h_journal s)) confirmed) (?s True)))"
    using complete_dns_keeps by (auto simp: keeps_def split: prod.split)
  then show "of_trace writes_ahead (snd (run_state (change_dns E name confirmed change) s))"
    using s by (cases "he_write_marker E (h_trace s) name ?m")
      (auto simp: change_dns_def get_journal_def set_journal_def write_journal_def ask_def Let_def of_trace_def journaled_def
        split: prod.splits)
qed

lemma dns_keeps:
  "keeps (of_trace writes_ahead) (apply_dns_durably E name dns deadline)"
  "keeps (of_trace writes_ahead) (revert_dns_durably E name deadline)"
  unfolding apply_dns_durably_def revert_dns_durably_def
  by (intro ahead_rules complete_dns_keeps change_dns_keeps;
      simp add: ask_def Let_def journaled_def covers_dns_def)+

lemma finalize_keeps: "keeps (of_trace writes_ahead) (finalize_runtime_entries E name config_name)"
  unfolding keeps_def
  by (intro allI impI) (auto simp: finalize_runtime_entries_def get_blocked_def get_journal_def write_journal_def ask_def
      Let_def of_trace_def journaled_def split: option.split)

lemma abort_keeps:
  "keeps (of_trace writes_ahead) (abort_before_interface_teardown E name dns began_active failure deadline)"
  unfolding abort_before_interface_teardown_def Let_def by (intro ahead_rules dns_keeps)

lemma cleanup_keeps:
  "keeps (of_trace writes_ahead) (verify_runtime_cleanup E name config_name deadline)"
  "keeps (of_trace writes_ahead) (discard_unstarted_runtime E name config_name deadline)"
  "keeps (of_trace writes_ahead) (include_current_firewall_scope E deadline)"
  "keeps (of_trace writes_ahead) (try_finalize_early_up_failure E name config_name run deadline result)"
  "keeps (of_trace writes_ahead) (refresh_owned_interface E name)"
  unfolding verify_runtime_cleanup_def discard_unstarted_runtime_def include_current_firewall_scope_def
    try_finalize_early_up_failure_def refresh_owned_interface_def
  by (intro ahead_rules finalize_keeps)+

lemma run_down_keeps:
  assumes "make_runtime_config_path name = Some snapshot_path"
  shows "keeps_when (journal_is name (\<lambda>m. marker_state m = JOURNAL_CLEANUP_UNCONFIRMED)) (of_trace writes_ahead)
    (run_down E name snapshot_path absent_state deadline)"
  unfolding run_down_def Let_def
proof (rule keeps_when_ask)
  show "writes_ahead (Ev_Quick ''down'' snapshot_path False a # h_trace s)"
    if "journal_is name (\<lambda>m. marker_state m = JOURNAL_CLEANUP_UNCONFIRMED) s" "writes_ahead (h_trace s)" for s a
    using that assms by (auto simp: journaled_def journal_is_def)
qed (intro ahead_rules)

lemma teardown_keeps:
  assumes "make_runtime_config_path name = Some snapshot_path"
  shows "keeps (of_trace writes_ahead) (teardown_owned_interface E name snapshot_path absent_state deadline)"
  unfolding teardown_owned_interface_def Let_def
  by (rule keeps_bind [OF cleanup_keeps(5)] keeps_prod keeps_if keeps_ret
        keeps_set_write [where P = "\<lambda>m. marker_state m = JOURNAL_CLEANUP_UNCONFIRMED"])+
    (simp_all add: keeps_ret keeps_when_def [of _ _ "ret _"] run_down_keeps assms)

lemma rollback_keeps:
  assumes "make_runtime_config_path name = Some snapshot_path"
  shows "keeps (of_trace writes_ahead) (rollback_activation E name config_name snapshot_path failure deadline)"
  unfolding rollback_activation_def rollback_activation_impl_def Let_def
  by (intro ahead_rules dns_keeps abort_keeps cleanup_keeps teardown_keeps assms)

lemma down_keeps:
  assumes "make_runtime_config_path name = Some snapshot_path"
  shows "keeps (of_trace writes_ahead) (tunnel_down E name config_name snapshot_path d)"
  unfolding tunnel_down_def down_recoverable_def down_session_def down_interface_def Let_def
  by (intro ahead_rules dns_keeps abort_keeps cleanup_keeps finalize_keeps teardown_keeps assms)



text \<open>An activation starts from a journal that says so.\<close>

definition activating :: "runtime_marker \<Rightarrow> bool" where
  "activating m \<longleftrightarrow> marker_state m = JOURNAL_ACTIVATING \<and> dns_state m = JOURNAL_DNS_ABSENT \<and> \<not> was_active m"

definition activation_ok :: "activation \<Rightarrow> bool" where
  "activation_ok ac \<longleftrightarrow> make_runtime_config_path (ac_name ac) = Some (ac_snapshot_path ac) \<and> activating (ac_journal ac)"

lemma roll_back_keeps: "activation_ok ac \<Longrightarrow> keeps (of_trace writes_ahead) (roll_back E ac d failure)"
  unfolding roll_back_def by (rule rollback_keeps) (simp add: activation_ok_def)

lemma unless_stopped_keeps:
  "activation_ok ac \<Longrightarrow> keeps (of_trace writes_ahead) step \<Longrightarrow> keeps (of_trace writes_ahead) (unless_stopped E ac d step)"
  unfolding unless_stopped_def by (intro ahead_rules roll_back_keeps)

lemma adopt_keeps: "activation_ok ac \<Longrightarrow> keeps (of_trace writes_ahead) (adopt_interface E ac d)"
  unfolding adopt_interface_def activate_dns_def confirm_activation_def
  by (intro ahead_rules unless_stopped_keeps roll_back_keeps dns_keeps cleanup_keeps)

lemma finish_keeps: "activation_ok ac \<Longrightarrow> keeps (of_trace writes_ahead) (finish_activation E ac d started outcome)"
  unfolding finish_activation_def by (intro ahead_rules roll_back_keeps)

lemma run_up_keeps:
  assumes "activation_ok ac"
  shows "keeps_when (journal_is (ac_name ac) activating) (of_trace writes_ahead) (run_up E ac d)"
  unfolding run_up_def Let_def
proof (rule keeps_when_ask)
  show "writes_ahead (Ev_Quick ''up'' (ac_snapshot_path ac) False a # h_trace s)"
    if "journal_is (ac_name ac) activating s" "writes_ahead (h_trace s)" for s a
    using that assms by (auto simp: journaled_def journal_is_def activating_def activation_ok_def)
qed (intro ahead_rules cleanup_keeps roll_back_keeps adopt_keeps assms)


lemma keeps_when_bind:
  "keeps K m \<Longrightarrow> keeps I m \<Longrightarrow> (\<And>a. keeps_when K I (f a)) \<Longrightarrow> keeps_when K I (m \<bind> f)"
  unfolding keeps_when_def keeps_def run_state_bind by (metis case_prod_unfold)

lemma keeps_when_then: "keeps_when K I m \<Longrightarrow> (\<And>a. keeps I (f a)) \<Longrightarrow> keeps_when K I (m \<bind> f)"
  unfolding keeps_when_def keeps_def run_state_bind by (metis case_prod_unfold)

lemma keeps_when_option:
  "keeps_when K I m \<Longrightarrow> (\<And>x. keeps_when K I (f x)) \<Longrightarrow> keeps_when K I (case y of None \<Rightarrow> m | Some x \<Rightarrow> f x)"
  by (simp split: option.split)

lemma keeps_set_const:
  "keeps_when (\<lambda>s. h_journal s = j) (of_trace J) (f ()) \<Longrightarrow> keeps (of_trace J) (set_journal (\<lambda>_. j) \<bind> f)"
  by (simp add: keeps_def keeps_when_def set_journal_def of_trace_def)

lemma keeps_when_prod: "(\<And>a b. keeps_when K I (f a b)) \<Longrightarrow> keeps_when K I (case p of (a, b) \<Rightarrow> f a b)"
  by (simp split: prod.split)

lemma write_entries_then:
  assumes "activating j" and "keeps (of_trace writes_ahead) (rest False)"
    and "keeps_when (journal_is (ac_name ac) activating) (of_trace writes_ahead) (rest True)"
  shows "keeps_when (\<lambda>s. h_journal s = j) (of_trace writes_ahead) (write_runtime_entries E ac dns_name \<bind> rest)"
  unfolding keeps_when_def
proof (intro allI impI)
  fix s assume s: "h_journal s = j" "of_trace writes_ahead s"
  obtain b s' where r: "run_state (write_runtime_entries E ac dns_name) s = (b, s')" by force
  have "keeps (of_trace writes_ahead) (write_runtime_entries E ac dns_name)"
    unfolding write_runtime_entries_def by (intro ahead_rules)
  then have "of_trace writes_ahead s'" using s(2) r by (auto simp: keeps_def)
  moreover have "b \<Longrightarrow> journal_is (ac_name ac) activating s'"
    using r s(1) assms(1)
    by (auto simp: write_runtime_entries_def write_journal_def get_journal_def ask_def Let_def journal_is_def split: if_splits)
  ultimately have "of_trace writes_ahead (snd (run_state (rest b) s'))"
    using assms(2,3) by (cases b) (auto simp: keeps_def keeps_when_def)
  then show "of_trace writes_ahead (snd (run_state (write_runtime_entries E ac dns_name \<bind> rest) s))"
    by (simp add: r)
qed

lemma activate_keeps:
  assumes "activation_ok ac"
  shows "keeps (of_trace writes_ahead) (tunnel_activate E ac d)"
proof -
  have ok: "activation_ok (ac\<lparr>ac_consumed := True\<rparr>)" using assms by (simp add: activation_ok_def)
  have names: "ac_journal (ac\<lparr>ac_consumed := True\<rparr>) = ac_journal ac" "activating (ac_journal ac)"
    using assms by (simp_all add: activation_ok_def)
  show ?thesis
    unfolding tunnel_activate_def Let_def names(1)
    by (rule keeps_if [OF keeps_ret keeps_set_const]
        keeps_when_bind [OF journal.phases(1) ahead.phases(1)] keeps_when_if keeps_whenI [OF keeps_ret]
        keeps_when_bind [OF journal.sessions(2) ahead.sessions(2)] keeps_when_prod keeps_when_option
        write_entries_then [OF names(2)])+
      (simp, intro ahead_rules cleanup_keeps finish_keeps ok, simp,
       intro keeps_when_then [OF run_up_keeps [OF ok, simplified]] ahead_rules finish_keeps ok)
qed

text \<open>What holds of every result of an operation.\<close>

definition gives :: "('a \<Rightarrow> bool) \<Rightarrow> 'a helper_op \<Rightarrow> bool" where
  "gives R m \<longleftrightarrow> (\<forall>s. R (fst (run_state m s)))"

lemma gives_rules:
  "R a \<Longrightarrow> gives R (ret a)"
  "(\<And>x. gives R (f x)) \<Longrightarrow> gives R (m \<bind> f)"
  "(b \<Longrightarrow> gives R m1) \<Longrightarrow> (\<not> b \<Longrightarrow> gives R m2) \<Longrightarrow> gives R (if b then m1 else m2)"
  "(y = None \<Longrightarrow> gives R m1) \<Longrightarrow> (\<And>x. y = Some x \<Longrightarrow> gives R (g x)) \<Longrightarrow> gives R (case y of None \<Rightarrow> m1 | Some x \<Rightarrow> g x)"
  "(\<And>c d. p = (c, d) \<Longrightarrow> gives R (h c d)) \<Longrightarrow> gives R (case p of (c, d) \<Rightarrow> h c d)"
  by (auto simp: gives_def split: prod.split option.split)

lemma gives_bind: "gives R m \<Longrightarrow> (\<And>x. R x \<Longrightarrow> gives S (f x)) \<Longrightarrow> gives S (m \<bind> f)"
  unfolding gives_def run_state_bind by (metis case_prod_unfold)

lemma prepare_activation_ok:
  assumes "make_runtime_config_path name = Some snapshot_path"
  shows "gives (\<lambda>r. \<forall>ac. snd r = Some ac \<longrightarrow> activation_ok ac)
    (prepare_activation E name config_name snapshot_path token deadline)"
  unfolding prepare_activation_def
  by (intro gives_rules) (simp_all add: activation_ok_def activating_def assms)

lemma prepare_up_ok:
  "gives (\<lambda>r. \<forall>result ac. r = Some (result, Some ac) \<longrightarrow> activation_ok ac) (tunnel_prepare_up E fuel name deadline)"
  unfolding tunnel_prepare_up_def
  by (intro gives_rules gives_bind [OF prepare_activation_ok]) simp_all

lemma keeps_bind_gives:
  "gives R m \<Longrightarrow> keeps I m \<Longrightarrow> (\<And>a. R a \<Longrightarrow> keeps I (f a)) \<Longrightarrow> keeps I (m \<bind> f)"
  unfolding gives_def keeps_def run_state_bind by (metis case_prod_unfold)

lemma disconnect_keeps: "keeps (of_trace writes_ahead) (disconnect_previous E name d)"
  unfolding disconnect_previous_def with_new_tunnel_def by (intro ahead_rules down_keeps) simp_all

lemma switch_admitted_keeps:
  "activation_ok ac \<Longrightarrow> keeps (of_trace writes_ahead) (switch_admitted E ac previous d)"
  unfolding switch_admitted_def
  by (intro ahead_rules ahead.all_succeed_keeps disconnect_keeps activate_keeps)

lemma switch_keeps: "keeps (of_trace writes_ahead) (switch_up E fuel name d)"
  unfolding switch_up_def
  by (rule keeps_if keeps_ret keeps_bind [OF ahead.checks(3)] keeps_prod keeps_bind [OF keeps_sets(2)]
      keeps_bind_gives [OF prepare_up_ok ahead.preparation(2)] keeps_option
      keeps_bind [OF ahead.all_succeed_keeps [OF ahead.checks(2)]] keeps_bind [OF switch_admitted_keeps])+
    (simp, rule keeps_ret)

lemma delete_keeps: "keeps (of_trace writes_ahead) (profiles_delete E name config_name deadline)"
  unfolding profiles_delete_def by (intro ahead_rules)

lemma remove_keeps: "keeps (of_trace writes_ahead) (helper_remove E name d)"
  unfolding helper_remove_def with_new_tunnel_def by (intro ahead_rules down_keeps delete_keeps) simp_all

lemma keeps_fresh: "keeps (of_trace J) m \<Longrightarrow> J [] \<Longrightarrow> J (h_trace (snd (run_state m (s\<lparr>h_trace := []\<rparr>))))"
  by (simp add: keeps_def of_trace_def)

text \<open>
  C1. The helper keeps a journal ahead of what it does. In every run of a switch and of a removal,
  whatever the storage, the kernel, the resolver, the firewall and the tool answer, and whichever
  steps fail: the resolver is changed only while a journal that names the link's token and index,
  the backend, and says that the state of the resolver is unknown has been written with success and
  not removed since; the tool brings an interface up only under a journal of an activation, and down
  only under one that calls the cleanup unconfirmed; and a journal is removed only after one that
  calls the cleanup complete, with the resolver restored, has been written.
\<close>

theorem changes_are_journaled:
  "writes_ahead (h_trace (snd (run_state (switch_up E fuel name d) (s\<lparr>h_trace := []\<rparr>)))) \<and>
   writes_ahead (h_trace (snd (run_state (helper_remove E name d) (s\<lparr>h_trace := []\<rparr>))))"
  by (simp add: keeps_fresh switch_keeps remove_keeps)


section \<open>Refusing a switch\<close>

lemma keeps_run: "keeps I m \<Longrightarrow> I s \<Longrightarrow> run_state m s = (a, s') \<Longrightarrow> I s'"
  by (auto simp: keeps_def)

text \<open>
  C9. A switch disturbs no session before all of them have been admitted. In every run of a switch,
  either nothing was ever done to a session, to the resolver, to a link or to a profile, or the run
  went through a state in which nothing of this kind had been done, from there every session that
  was listed passed its check, still without anything having been done, and only then the sessions
  were disconnected and the target was activated.
\<close>

theorem refused_switch_disturbs_nothing:
  "let end_state = snd (run_state (switch_up E fuel name d) (s\<lparr>h_trace := []\<rparr>)) in
   list_all calm (h_trace end_state) \<or>
    (\<exists>ac previous listed checked.
       he_list_runtime E [] (forward_at d) = (HELPER_SUCCESS, previous) \<and> list_all calm (h_trace listed) \<and>
       run_state (all_succeed (\<lambda>p. tunnel_check_down E p (forward_at d)) previous) listed = (HELPER_SUCCESS, checked) \<and>
       list_all calm (h_trace checked) \<and> end_state = snd (run_state (switch_admitted E ac previous d) checked))"
proof (unfold Let_def)
  let ?I = "of_trace (list_all calm)" and ?s = "s\<lparr>h_trace := []\<rparr>"
  let ?check = "\<lambda>p. tunnel_check_down E p (forward_at d)"
  obtain r1 previous s1 where l: "run_state (list_runtime_names E (forward_at d)) ?s = ((r1, previous), s1)"
    by (metis surj_pair)
  then have listed: "he_list_runtime E [] (forward_at d) = (r1, previous)"
    by (auto simp: list_runtime_names_def ask_def Let_def)
  have c0: "?I ?s" by (simp add: of_trace_def)
  have c1: "?I s1" by (rule keeps_run [OF still.checks(3) c0 l])
  obtain prepared s2 where p: "run_state (tunnel_prepare_up E fuel name (forward_at d)) (s1\<lparr>h_blocked := False\<rparr>) = (prepared, s2)"
    by force
  have c2: "?I s2" using c1 by (intro keeps_run [OF still.preparation(2) _ p]) (simp add: of_trace_def)
  obtain r3 s3 where a: "run_state (all_succeed ?check previous) s2 = (r3, s3)" by force
  have c3: "?I s3" by (rule keeps_run [OF still.all_succeed_keeps [OF still.checks(2)] c2 a])
  let ?final = "snd (run_state (switch_up E fuel name d) ?s)"
  let ?goal = "list_all calm (h_trace ?final) \<or>
    (\<exists>ac previous listed checked.
       he_list_runtime E [] (forward_at d) = (HELPER_SUCCESS, previous) \<and> list_all calm (h_trace listed) \<and>
       run_state (all_succeed ?check previous) listed = (HELPER_SUCCESS, checked) \<and>
       list_all calm (h_trace checked) \<and> ?final = snd (run_state (switch_admitted E ac previous d) checked))"
  have "?goal" if "r1 = HELPER_SUCCESS" "prepared = Some (result, Some ac)" "r3 = HELPER_SUCCESS" "name_is_valid (Some name)" for result ac
    using that c2 c3 listed l p a
    by (intro disjI2 exI [of _ ac] exI [of _ previous] exI [of _ s2] exI [of _ s3])
      (simp add: switch_up_def of_trace_def set_blocked_def split: prod.split)
  then show ?goal
    using l p a c0 c1 c2 c3 unfolding switch_up_def
    by (auto simp: of_trace_def set_blocked_def split: option.split prod.split)
qed

end
