(* ===== verification/Helper_Outcomes.thy ===== *)
theory Helper_Outcomes
  imports Helper_Logic
begin

text \<open>
  What it means that an operation of the helper succeeded: weakest preconditions of the operations,
  and what the history and the journal say after a successful activation and a successful teardown.
\<close>

section \<open>Weakest preconditions\<close>

definition wp :: "'a helper_op \<Rightarrow> ('a \<Rightarrow> helper \<Rightarrow> bool) \<Rightarrow> helper \<Rightarrow> bool" where
  "wp m Q s \<longleftrightarrow> Q (fst (run_state m s)) (snd (run_state m s))"

named_theorems wp_rules \<open>weakest preconditions of the helper's operations\<close>

lemma wp_basic [wp_rules]:
  "wp (ret a) Q = Q a"
  "wp (m \<bind> f) Q = wp m (\<lambda>a. wp (f a) Q)"
  "wp (if b then m1 else m2) Q s = (if b then wp m1 Q s else wp m2 Q s)"
  "wp (case p of (c, e) \<Rightarrow> h c e) Q s = (case p of (c, e) \<Rightarrow> wp (h c e) Q s)"
  "wp (case y of None \<Rightarrow> n1 | Some x \<Rightarrow> n2 x) Q s = (case y of None \<Rightarrow> wp n1 Q s | Some x \<Rightarrow> wp (n2 x) Q s)"
  by (simp_all add: wp_def fun_eq_iff split: prod.split option.split)

lemma wp_ask [wp_rules]:
  "wp (ask answer ev) Q s = Q (answer (h_trace s)) (s\<lparr>h_trace := ev (answer (h_trace s)) # h_trace s\<rparr>)"
  by (simp add: wp_def ask_def Let_def)

lemma wp_tell [wp_rules]: "wp (tell ev) Q s = Q () (s\<lparr>h_trace := ev # h_trace s\<rparr>)"
  by (simp add: wp_def tell_def)

lemma wp_journal [wp_rules]: "wp get_journal Q s = Q (h_journal s) s"
  by (simp add: wp_def get_journal_def)

lemma wp_blocked [wp_rules]: "wp get_blocked Q s = Q (h_blocked s) s"
  by (simp add: wp_def get_blocked_def)

lemma wp_sets [wp_rules]:
  "wp (set_journal g) Q s = Q () (s\<lparr>h_journal := g (h_journal s)\<rparr>)"
  "wp (set_blocked b) Q s = Q () (s\<lparr>h_blocked := b\<rparr>)"
  by (simp_all add: wp_def set_journal_def set_blocked_def)

lemma wp_mono: "wp m Q s \<Longrightarrow> (\<And>a s'. Q a s' \<Longrightarrow> R a s') \<Longrightarrow> wp m R s"
  by (simp add: wp_def)

lemma wp_gives: "gives R m \<Longrightarrow> (\<And>a s'. R a \<Longrightarrow> Q a s') \<Longrightarrow> wp m Q s"
  by (simp add: wp_def gives_def)

section \<open>A rollback does not succeed\<close>

abbreviation failure_of :: "helper_exit \<Rightarrow> bool" where
  "failure_of r \<equiv> r \<noteq> HELPER_SUCCESS"

lemma abort_fails:
  "failure_of failure \<Longrightarrow> gives failure_of (abort_before_interface_teardown E name dns began_active failure deadline)"
  unfolding abort_before_interface_teardown_def Let_def by (intro gives_rules) simp_all

lemma rollback_impl_fails:
  "failure_of failure \<Longrightarrow> gives failure_of (rollback_activation_impl E name config_name snapshot_path failure deadline)"
  unfolding rollback_activation_impl_def Let_def
  by (intro gives_rules abort_fails) (simp_all add: teardown_failure_def)

lemma rollback_fails:
  "failure_of failure \<Longrightarrow> gives failure_of (rollback_activation E name config_name snapshot_path failure deadline)"
  unfolding rollback_activation_def
  by (intro gives_rules(2) gives_bind [OF rollback_impl_fails]) (auto intro: gives_rules)

lemma roll_back_fails: "failure_of failure \<Longrightarrow> gives failure_of (roll_back E ac d failure)"
  unfolding roll_back_def by (rule rollback_fails)

lemma early_failure_fails:
  "failure_of result \<Longrightarrow> gives (\<lambda>r. failure_of (snd r)) (try_finalize_early_up_failure E name config_name run deadline result)"
  unfolding try_finalize_early_up_failure_def by (intro gives_rules) simp_all

section \<open>A successful activation\<close>

text \<open>What was last seen of the links, asked about by a name.\<close>

primrec last_seen :: "string \<Rightarrow> history \<Rightarrow> link_observation option" where
  "last_seen name [] = None"
| "last_seen name (e # t) =
     (case e of Ev_Observe n token seen \<Rightarrow> if n = name then seen else last_seen name t | _ \<Rightarrow> last_seen name t)"

text \<open>The journal that was last read back.\<close>

primrec last_read :: "string \<Rightarrow> history \<Rightarrow> runtime_marker option" where
  "last_read name [] = None"
| "last_read name (e # t) =
     (case e of Ev_Read_Marker n r \<Rightarrow> if n = name \<and> fst r = ENTRY_VALID then Some (snd r) else last_read name t
      | _ \<Rightarrow> last_read name t)"

text \<open>The session is what its journal, which is on disk, says it is: active.\<close>

definition session_active :: "string \<Rightarrow> string \<Rightarrow> helper \<Rightarrow> bool" where
  "session_active name token s \<longleftrightarrow>
     (let m = h_journal s in
      durable name (h_trace s) = Some m \<and> marker_state m = JOURNAL_ACTIVE \<and> was_active m \<and> link_token m = token \<and>
      (dns_state m = JOURNAL_DNS_APPLIED \<or> dns_backend m = DNS_BACKEND_NONE \<and> dns_state m = JOURNAL_DNS_ABSENT) \<and>
      (case last_read name (h_trace s) of
         None \<Rightarrow> False
       | Some read \<Rightarrow> classify_owned_link read (last_seen name (h_trace s)) = OWNED_LINK_PRESENT))"

abbreviation succeeds where
  "succeeds m P s \<equiv> wp m (\<lambda>r s'. r = HELPER_SUCCESS \<longrightarrow> P s') s"

lemma wp_failing: "gives failure_of m \<Longrightarrow> succeeds m P s"
  by (erule wp_gives) auto

lemma roll_back_succeeds: "failure_of failure \<Longrightarrow> succeeds (roll_back E ac d failure) P s"
  by (simp add: roll_back_fails wp_failing)

lemma wp_stop:
  "(\<And>r t n. Q r (s\<lparr>h_trace := Ev_Clock t n # h_trace s\<rparr>)) \<Longrightarrow> wp (phase_stop_status E deadline) Q s"
  by (simp add: phase_stop_status_def wp_rules split: prod.split)

lemma unless_stopped_succeeds:
  "(\<And>t n. succeeds step P (s\<lparr>h_trace := Ev_Clock t n # h_trace s\<rparr>)) \<Longrightarrow> succeeds (unless_stopped E ac d step) P s"
  unfolding unless_stopped_def wp_basic by (rule wp_stop) (simp add: roll_back_succeeds)

lemma wp_session:
  assumes "\<And>r t. failure_of r \<Longrightarrow> Q (r, False, False, None) (s\<lparr>h_trace := t\<rparr>)"
    and "\<And>m c. Q (HELPER_SUCCESS, False, named_exists c, None)
      (s\<lparr>h_trace := Ev_Observe name None (Some c) # Ev_Read_Marker name (ENTRY_MISSING, m) # h_trace s\<rparr>)"
    and "\<And>m seen. classify_owned_link m seen \<in> {OWNED_LINK_ABSENT, OWNED_LINK_PRESENT} \<Longrightarrow>
      Q (HELPER_SUCCESS, True, classify_owned_link m seen = OWNED_LINK_PRESENT, Some m)
        (s\<lparr>h_trace := Ev_Observe name (Some (link_token m)) seen # Ev_Read_Marker name (ENTRY_VALID, m) # h_trace s\<rparr>)"
  shows "wp (session_runtime_state E name) Q s"
proof -
  obtain entry m where r: "he_read_marker E (h_trace s) name = (entry, m)" by force
  let ?seen = "he_observe E (Ev_Read_Marker name (entry, m) # h_trace s) name (Some (link_token m))"
  show ?thesis
    unfolding session_runtime_state_def owned_link_state_def wp_rules r
    using assms(1,2) assms(3) [of m ?seen]
    by (cases entry) (auto simp: wp_rules split: option.split owned_link.split)
qed

lemma confirm_succeeds:
  assumes "link_token (h_journal s) = token"
    and "dns_state (h_journal s) = JOURNAL_DNS_APPLIED \<or>
      dns_backend (h_journal s) = DNS_BACKEND_NONE \<and> dns_state (h_journal s) = JOURNAL_DNS_ABSENT"
  shows "succeeds (confirm_activation E ac d) (session_active (ac_name ac) token) s"
  unfolding confirm_activation_def write_journal_def wp_rules
  using assms
  by (auto simp: wp_rules session_active_def Let_def
    intro!: roll_back_succeeds unless_stopped_succeeds wp_session)

lemma apply_dns_succeeds:
  "wp (apply_dns_durably E name dns deadline) (\<lambda>r s'. r = DNS_TRANSACTION_OK \<longrightarrow>
     link_token (h_journal s') = link_token (h_journal s) \<and>
     (dns_state (h_journal s') = JOURNAL_DNS_APPLIED \<or>
      dns_backend (h_journal s') = DNS_BACKEND_NONE \<and> dns_state (h_journal s') = JOURNAL_DNS_ABSENT)) s"
  unfolding apply_dns_durably_def change_dns_def complete_dns_change_def write_journal_def wp_rules
  by (auto simp: wp_rules)

lemma wp_bindI: "wp m R s \<Longrightarrow> (\<And>a s'. R a s' \<Longrightarrow> wp (f a) Q s') \<Longrightarrow> wp (m \<bind> f) Q s"
  unfolding wp_basic by (erule wp_mono)

lemma activate_dns_succeeds:
  "link_token (h_journal s) = token \<Longrightarrow> succeeds (activate_dns E ac d) (session_active (ac_name ac) token) s"
  unfolding activate_dns_def
  by (rule wp_bindI [OF apply_dns_succeeds])
    (auto simp: wp_rules phase_failure_or_def intro!: unless_stopped_succeeds confirm_succeeds roll_back_succeeds wp_stop split: if_splits)

lemma refresh_keeps_token:
  "wp (refresh_owned_interface E name) (\<lambda>r s'. link_token (h_journal s') = link_token (h_journal s)) s"
  unfolding refresh_owned_interface_def owned_link_state_def write_journal_def wp_rules
  by (simp add: wp_rules)

lemma adopt_succeeds:
  "link_token (h_journal s) = token \<Longrightarrow> succeeds (adopt_interface E ac d) (session_active (ac_name ac) token) s"
  unfolding adopt_interface_def
  by (intro unless_stopped_succeeds wp_bindI [OF refresh_keeps_token])
    (auto simp: wp_rules intro!: unless_stopped_succeeds activate_dns_succeeds roll_back_succeeds split: if_splits)

text \<open>The tunnel was started, and if the outcome is a success, the session is active; or it was not, and it is not.\<close>

definition started_well :: "string \<Rightarrow> string \<Rightarrow> bool \<times> helper_exit \<Rightarrow> helper \<Rightarrow> bool" where
  "started_well name token r s \<longleftrightarrow>
     (if fst r then snd r = HELPER_SUCCESS \<longrightarrow> session_active name token s else failure_of (snd r))"

lemma wp_any: "(\<And>a s'. Q a s') \<Longrightarrow> wp m Q s"
  by (simp add: wp_def)

lemma discard_then:
  "failure_of r \<Longrightarrow>
   wp (discard_unstarted_runtime E name config_name deadline) (\<lambda>a s'. failure_of (if failure_of a then a else r)) s"
  by (rule wp_any) auto

lemma run_up_failed:
  "failure_of result \<Longrightarrow>
   wp (try_finalize_early_up_failure E name config_name run deadline result) (\<lambda>a s'.
     (fst a \<longrightarrow> failure_of (snd a)) \<and> (\<not> fst a \<longrightarrow> wp (roll_back E ac d result) (\<lambda>r s2. failure_of r) s')) s"
  by (rule wp_gives [OF early_failure_fails]) (auto intro: wp_gives [OF roll_back_fails])

lemma run_up_succeeds:
  assumes "link_token (h_journal s) = token"
  shows "wp (run_up E ac d) (started_well (ac_name ac) token) s"
  unfolding run_up_def include_current_firewall_scope_def write_journal_def wp_rules Let_def
    started_well_def [abs_def]
  using assms
  by (auto simp: wp_rules case_prod_unfold intro!: adopt_succeeds run_up_failed discard_then)

lemma session_active_quiet [simp]:
  "session_active name token (s\<lparr>h_trace := Ev_Clock t n # h_trace s\<rparr>) = session_active name token s"
  "session_active name token (s\<lparr>h_trace := Ev_Release b # h_trace s\<rparr>) = session_active name token s"
  by (simp_all add: session_active_def Let_def split: option.split)

lemma roll_back_then:
  "failure_of failure \<Longrightarrow> (\<And>r s'. failure_of r \<Longrightarrow> wp (f r) Q s') \<Longrightarrow> wp (roll_back E ac d failure \<bind> f) Q s"
  by (rule wp_bindI [OF wp_gives [OF roll_back_fails, where Q = "\<lambda>r s'. failure_of r"]]) auto

lemma finish_succeeds:
  assumes "if started then outcome = HELPER_SUCCESS \<longrightarrow> session_active (ac_name ac) token s else failure_of outcome"
  shows "succeeds (finish_activation E ac d started outcome) (session_active (ac_name ac) token) s"
  unfolding finish_activation_def
proof (rule wp_bindI [where R = "\<lambda>r s'. r = HELPER_SUCCESS \<longrightarrow> session_active (ac_name ac) token s'"])
  show "wp (if started \<and> outcome = HELPER_SUCCESS
      then phase_stop_status E (forward_at d) \<bind> (\<lambda>stop. if failure_of stop then roll_back E ac d stop else ret outcome)
      else ret outcome) (\<lambda>r s'. r = HELPER_SUCCESS \<longrightarrow> session_active (ac_name ac) token s') s"
    using assms by (auto simp: wp_basic intro!: wp_stop roll_back_succeeds split: if_splits)
qed (auto simp: wp_basic wp_ask intro!: wp_stop wp_gives [OF roll_back_fails] split: if_splits)

lemma wp_branches:
  "(b \<Longrightarrow> wp m1 Q s) \<Longrightarrow> (\<not> b \<Longrightarrow> wp m2 Q s) \<Longrightarrow> wp (if b then m1 else m2) Q s"
  "(y = None \<Longrightarrow> wp n1 Q s) \<Longrightarrow> (\<And>x. y = Some x \<Longrightarrow> wp (n2 x) Q s) \<Longrightarrow>
   wp (case y of None \<Rightarrow> n1 | Some x \<Rightarrow> n2 x) Q s"
  by (simp_all split: option.split)

lemmas wp_stop_bind = wp_stop [where Q = "\<lambda>a s'. wp (f a) Q s'" for f Q, folded wp_basic(2)]
lemmas wp_session_bind = wp_session [where Q = "\<lambda>a s'. wp (f a) Q s'" for f Q, folded wp_basic(2)]

lemma start_succeeds:
  assumes "link_token (h_journal s) = token"
  shows "wp (write_runtime_entries E ac dns_name) (\<lambda>written. wp
      (if \<not> written then discard_unstarted_runtime E (ac_name ac) (ac_config_name ac) deadline \<bind> (\<lambda>cleanup.
         ret (False, if cleanup = HELPER_SUCCESS then HELPER_RUNTIME_FAILED else HELPER_ROLLBACK_FAILED))
       else run_up E ac d) (started_well (ac_name ac) token)) s"
proof (rule wp_mono)
  show "wp (write_runtime_entries E ac dns_name) (\<lambda>r s'. link_token (h_journal s') = token) s"
    using assms by (simp add: write_runtime_entries_def write_journal_def wp_rules)
qed (rule wp_branches, rule wp_bindI [OF wp_any [where Q = "\<lambda>a s'. True"]],
  simp, simp add: wp_basic started_well_def, rule run_up_succeeds)

lemma end_succeeds:
  assumes "started_well (ac_name ac) token r s"
  shows "wp (case r of (started, outcome) \<Rightarrow> finish_activation E ac d started outcome \<bind> (\<lambda>final. ret (final, ac)))
    (\<lambda>r s'. fst r = HELPER_SUCCESS \<longrightarrow> session_active (ac_name ac) token s' \<and> ac_consumed (snd r) = ac_consumed ac) s"
  using assms unfolding started_well_def
  by (cases r) (auto simp: wp_basic intro!: wp_mono [OF finish_succeeds])



section \<open>A successful teardown\<close>

text \<open>The last that was heard of the journal of a session is that there is none.\<close>

primrec journal_gone :: "string \<Rightarrow> history \<Rightarrow> bool" where
  "journal_gone name [] = False"
| "journal_gone name (e # t) =
     (case e of
        Ev_Write_Marker n m written \<Rightarrow> n \<noteq> name \<and> journal_gone name t
      | Ev_Read_Marker n r \<Rightarrow> if n = name then fst r = ENTRY_MISSING else journal_gone name t
      | Ev_Remove area n removed \<Rightarrow> (area = AREA_RUNTIME \<and> n = name \<and> removed) \<or> journal_gone name t
      | _ \<Rightarrow> journal_gone name t)"

text \<open>When the links were seen last, none had the name, and none bore the token of the session.\<close>

primrec link_gone :: "string \<Rightarrow> history \<Rightarrow> bool" where
  "link_gone name [] = False"
| "link_gone name (e # t) =
     (case e of
        Ev_Observe n token seen \<Rightarrow>
          if n = name
          then (case seen of None \<Rightarrow> False | Some c \<Rightarrow> \<not> named_exists c \<and> (token = None \<or> token_matches c = 0))
          else link_gone name t
      | _ \<Rightarrow> link_gone name t)"

definition session_gone :: "string \<Rightarrow> bool \<Rightarrow> helper \<Rightarrow> bool" where
  "session_gone name blocked s \<longleftrightarrow>
     journal_gone name (h_trace s) \<and> link_gone name (h_trace s) \<and> (h_blocked s \<longrightarrow> blocked)"

lemma classify_absent:
  "classify_owned_link m seen = OWNED_LINK_ABSENT \<longleftrightarrow>
   (\<exists>c. seen = Some c \<and> token_matches c = 0 \<and> \<not> named_exists c)"
  by (auto simp: classify_owned_link_def split: option.splits if_splits)

lemma finalize_succeeds:
  "link_gone name (h_trace s) \<Longrightarrow> succeeds (finalize_runtime_entries E name config_name) (session_gone name False) s"
  unfolding finalize_runtime_entries_def write_journal_def wp_rules
  by (auto simp: wp_rules session_gone_def split: option.split)

lemma verify_succeeds: "succeeds (verify_runtime_cleanup E name config_name deadline) (session_gone name False) s"
  unfolding verify_runtime_cleanup_def write_journal_def owned_link_state_def wp_rules
  by (auto simp: wp_rules absent_or_failure_def classify_absent intro!: wp_stop finalize_succeeds split: if_splits)

definition ended_well :: "string \<Rightarrow> bool \<times> helper_exit \<Rightarrow> helper \<Rightarrow> bool" where
  "ended_well name r s \<longleftrightarrow>
     (if fst r then failure_of (snd r) else snd r = HELPER_SUCCESS \<longrightarrow> session_gone name False s)"

lemma down_interface_ends: "wp (down_interface E name config_name snapshot_path d) (ended_well name) s"
  unfolding down_interface_def
  by (rule wp_bindI [OF wp_any [where Q = "\<lambda>a s'. True"]])
    (auto simp: wp_basic ended_well_def teardown_failure_def intro!: verify_succeeds)

lemma revert_failure_ends:
  "wp ((if b then phase_failure_or E deadline HELPER_DNS_REVERT_FAILED else ret HELPER_RUNTIME_FAILED) \<bind>
     (\<lambda>failure. ret (True, failure))) (ended_well name) s"
  by (auto simp: wp_basic ended_well_def phase_failure_or_def intro!: wp_stop split: if_splits)

lemma down_session_ends: "wp (down_session E name config_name snapshot_path d) (ended_well name) s"
  unfolding down_session_def
  by (rule revert_failure_ends wp_bindI wp_branches down_interface_ends wp_any [where Q = "\<lambda>a s'. True"] TrueI |
      (simp add: wp_basic ended_well_def; fail))+

lemma down_abort_ends:
  assumes "ended_well name r s"
  shows "succeeds (case r of (aborted, outcome) \<Rightarrow>
      if \<not> aborted then ret outcome
      else set_cleanup_mode True \<bind> (\<lambda>_. abort_before_interface_teardown E name dns began outcome (cleanup_at d) \<bind>
        (\<lambda>final. set_cleanup_mode False \<bind> (\<lambda>_. ret final)))) (session_gone name False) s"
  using assms
  by (cases r) (auto simp: wp_basic wp_tell set_cleanup_mode_def ended_well_def intro!: wp_gives [OF abort_fails])

lemma wp_case: "(\<And>a b. p = (a, b) \<Longrightarrow> wp (f a b) Q s) \<Longrightarrow> wp (case p of (a, b) \<Rightarrow> f a b) Q s"
  by (simp split: prod.split)

lemma down_recoverable_ends:
  "succeeds (down_recoverable E name config_name snapshot_path d interface) (session_gone name False) s"
  unfolding down_recoverable_def Let_def
  by (rule wp_bindI [OF down_session_ends] | rule wp_bindI wp_branches wp_any [where Q = "\<lambda>a s'. True"] TrueI |
      (erule down_abort_ends) | rule wp_case | (simp add: wp_basic; fail))+

lemma session_gone_unblocked: "session_gone name False s \<Longrightarrow> session_gone name blocked s"
  by (simp add: session_gone_def)

lemma down_ends: "succeeds (tunnel_down E name config_name snapshot_path d) (session_gone name (h_blocked s)) s"
  unfolding tunnel_down_def
  by (rule wp_stop_bind, rule wp_branches(1), simp add: wp_basic, rule wp_session_bind)
    (simp add: wp_basic, simp add: wp_basic session_gone_def,
     auto simp: wp_rules write_journal_def classify_absent
      intro!: wp_mono [OF finalize_succeeds] wp_mono [OF verify_succeeds] wp_mono [OF down_recoverable_ends]
        session_gone_unblocked)


text \<open>A system that does what it is asked to.\<close>

primrec last_file :: "string \<Rightarrow> history \<Rightarrow> bytes option" where
  "last_file name [] = None"
| "last_file name (e # t) =
     (case e of Ev_Write_File area n contents mode written \<Rightarrow> if n = name then Some contents else last_file name t
      | _ \<Rightarrow> last_file name t)"

primrec link_up :: "history \<Rightarrow> bool" where
  "link_up [] = False"
| "link_up (e # t) =
     (case e of Ev_Quick command path wants_output outcome \<Rightarrow> command = ''up'' | _ \<Rightarrow> link_up t)"

definition example_journal :: runtime_marker where
  "example_journal = \<lparr>link_token = ''T'', ifindex = 0, dns_backend = DNS_BACKEND_NONE, marker_state = JOURNAL_ACTIVATING,
     dns_state = JOURNAL_DNS_ABSENT, was_active = False, firewall_scope = FIREWALL_NONE\<rparr>"

definition obliging :: helper_env where
  "obliging = \<lparr>
     he_clock = \<lambda>t. (False, 1), he_release = \<lambda>t f c. True, he_terminate = \<lambda>t c. True,
     he_read_marker = \<lambda>t n. (case durable n t of None \<Rightarrow> (ENTRY_MISSING, example_journal) | Some m \<Rightarrow> (ENTRY_VALID, m)),
     he_write_marker = \<lambda>t n m. True, he_file_state = \<lambda>t a n m. ENTRY_VALID,
     he_read_file = \<lambda>t a n m l. last_file n t, he_write_file = \<lambda>t a n c m. True, he_remove = \<lambda>t a n. True,
     he_list_runtime = \<lambda>t d. (HELPER_SUCCESS, []),
     he_observe = \<lambda>t n token. Some \<lparr>named_exists = link_up t, named_ifindex = 7,
       token_matches = (if link_up t then 1 else 0), token_ifindex = 7, token_has_expected_name = True, token_ifname = n\<rparr>,
     he_dns_select = \<lambda>t c d. (DNS_CHANGE_OK, DNS_BACKEND_NONE),
     he_dns_apply = \<lambda>t n k i c b d. \<lparr>dc_result = DNS_CHANGE_OK, dc_may_have_changed = True\<rparr>,
     he_dns_revert = \<lambda>t n k i b d. \<lparr>dc_result = DNS_CHANGE_OK, dc_may_have_changed = True\<rparr>,
     he_firewall_scope = \<lambda>t d. (True, FIREWALL_NONE), he_firewall_probe = \<lambda>t n s d. AWG_FIREWALL_ABSENT,
     he_quick = \<lambda>t c p w d. (\<lparr>qr_status = HELPER_SUCCESS, qr_execution = QUICK_MAY_HAVE_RUN, qr_failed_before_routes = False\<rparr>, None),
     he_random = \<lambda>t n. Bytes_failed, he_config_security = \<lambda>t n. ENTRY_VALID,
     he_read_config = \<lambda>t n. (HELPER_SUCCESS, [], 0), he_stage = \<lambda>t c. (True, ''x'', True),
     he_unlink_staging = \<lambda>t n. True, he_rename_noreplace = \<lambda>t a b. (True, True), he_exchange = \<lambda>t a b. True,
     he_sync_config_and_staging = \<lambda>t. True, he_sync_staging = \<lambda>t. True, he_get_identity = \<lambda>t n. Some 1,
     he_config_matches = \<lambda>t n i. True, he_displaced_matches = \<lambda>t n i. True, he_iterator_new = \<lambda>t a. True,
     he_iterator_next = \<lambda>t. ITERATOR_DONE, he_iterator_free = \<lambda>t. True, he_output = \<lambda>t b. True,
     he_pton = \<lambda>f s. None\<rparr>"

definition example_activation :: activation where
  "example_activation = \<lparr>ac_name = ''a'', ac_config_name = ''a.conf'', ac_snapshot_path = ''/run/a.conf'',
     ac_profile = \<lparr>pp_snapshot = [], pp_dns = dns_config_init, pp_dns_payload = the (dns_config_serialize dns_config_init)\<rparr>,
     ac_journal = example_journal, ac_consumed = False\<rparr>"

definition example_deadlines :: deadlines where
  "example_deadlines = \<lparr>forward_at = 10, cleanup_at = 20, hard_at = 30\<rparr>"

definition example_start :: helper where
  "example_start = \<lparr>h_trace = [], h_blocked = False, h_journal = example_journal\<rparr>"

lemma example_activated:
  "fst (fst (run_state (tunnel_activate obliging example_activation example_deadlines) example_start)) = HELPER_SUCCESS"
  unfolding tunnel_activate_def phase_stop_status_def session_runtime_state_def owned_link_state_def
    write_runtime_entries_def write_journal_def run_up_def include_current_firewall_scope_def
    adopt_interface_def unless_stopped_def refresh_owned_interface_def activate_dns_def apply_dns_durably_def
    confirm_activation_def finish_activation_def ask_def set_journal_def get_journal_def get_blocked_def Let_def
  by (simp add: obliging_def example_start_def example_activation_def example_deadlines_def
    make_dns_filename_def max_interface_length_def example_journal_def classify_owned_link_def)


definition example_pending :: helper where
  "example_pending = \<lparr>h_trace = [Ev_Write_Marker ''a'' (example_journal\<lparr>marker_state := JOURNAL_FIREWALL_PENDING\<rparr>) True],
     h_blocked = False, h_journal = example_journal\<rparr>"

lemma example_down:
  "fst (run_state (tunnel_down obliging ''a'' ''a.conf'' ''/run/a.conf'' example_deadlines) example_pending) = HELPER_SUCCESS"
  unfolding tunnel_down_def phase_stop_status_def session_runtime_state_def owned_link_state_def verify_runtime_cleanup_def
    finalize_runtime_entries_def write_journal_def ask_def set_journal_def get_journal_def get_blocked_def Let_def
  by (simp add: obliging_def example_pending_def example_deadlines_def make_dns_filename_def max_interface_length_def
    example_journal_def classify_owned_link_def)


end
