(* ===== verification/Helper_Resolver.thy ===== *)
theory Helper_Resolver
  imports Helper_Outcomes
begin

text \<open>
  What the helper does once a change of the resolver has an uncertain outcome: it leaves everything
  as it is.
\<close>

section \<open>Histories\<close>

definition uncertain :: "helper_event \<Rightarrow> bool" where
  "uncertain e \<longleftrightarrow>
     (case e of
        Ev_Dns_Apply name token index dns backend outcome \<Rightarrow> dc_result outcome = DNS_CHANGE_UNCERTAIN
      | Ev_Dns_Revert name token index backend outcome \<Rightarrow> dc_result outcome = DNS_CHANGE_UNCERTAIN
      | _ \<Rightarrow> False)"

text \<open>What changes the resolver, a link, the files of a session or a profile; the journal is not meant.\<close>

definition disturbing :: "helper_event \<Rightarrow> bool" where
  "disturbing e \<longleftrightarrow>
     (case e of
        Ev_Dns_Apply name token index dns backend outcome \<Rightarrow> True
      | Ev_Dns_Revert name token index backend outcome \<Rightarrow> True
      | Ev_Quick command path wants_output outcome \<Rightarrow> command \<noteq> ''strip''
      | Ev_Remove area name removed \<Rightarrow> area \<noteq> AREA_STAGING
      | Ev_Write_File area name contents mode written \<Rightarrow> True
      | Ev_Rename_Noreplace temp_name config_name outcome \<Rightarrow> True
      | Ev_Exchange temp_name config_name exchanged \<Rightarrow> True
      | _ \<Rightarrow> False)"

primrec careful :: "history \<Rightarrow> bool" where
  "careful [] = True"
| "careful (e # t) = ((disturbing e \<longrightarrow> \<not> list_ex uncertain t) \<and> careful t)"

section \<open>Steps between two conditions\<close>

definition leads :: "(helper \<Rightarrow> bool) \<Rightarrow> (helper \<Rightarrow> bool) \<Rightarrow> 'a helper_op \<Rightarrow> bool" where
  "leads P Q m \<longleftrightarrow> (\<forall>s. P s \<longrightarrow> wp m (\<lambda>a. Q) s)"

text \<open>The tunnel is not blocked, and nothing is uncertain; and what is uncertain has blocked the tunnel.\<close>

definition clear :: "helper \<Rightarrow> bool" where
  "clear s \<longleftrightarrow> careful (h_trace s) \<and> \<not> list_ex uncertain (h_trace s) \<and> \<not> h_blocked s"

definition guarded :: "helper \<Rightarrow> bool" where
  "guarded s \<longleftrightarrow> careful (h_trace s) \<and> (list_ex uncertain (h_trace s) \<longrightarrow> h_blocked s)"

lemma clear_guarded: "clear s \<Longrightarrow> guarded s"
  by (simp add: clear_def guarded_def)

lemma keeps_leads: "keeps I m \<longleftrightarrow> leads I I m"
  by (simp add: keeps_def leads_def wp_def)

lemma leads_weaken: "leads P clear m \<Longrightarrow> leads P guarded m"
  by (auto simp: leads_def wp_def clear_guarded)

lemma leads_strengthen: "leads guarded Q m \<Longrightarrow> leads clear Q m"
  by (auto simp: leads_def clear_guarded)

lemma leads_structure:
  "leads P P (ret a)"
  "leads P R m \<Longrightarrow> (\<And>a. leads R Q (f a)) \<Longrightarrow> leads P Q (m \<bind> f)"
  "(b \<Longrightarrow> leads P Q m1) \<Longrightarrow> (\<not> b \<Longrightarrow> leads P Q m2) \<Longrightarrow> leads P Q (if b then m1 else m2)"
  "(y = None \<Longrightarrow> leads P Q n1) \<Longrightarrow> (\<And>x. y = Some x \<Longrightarrow> leads P Q (n2 x)) \<Longrightarrow> leads P Q (case y of None \<Rightarrow> n1 | Some x \<Rightarrow> n2 x)"
  "(\<And>c e. p = (c, e) \<Longrightarrow> leads P Q (h c e)) \<Longrightarrow> leads P Q (case p of (c, e) \<Rightarrow> h c e)"
  by (auto simp: leads_def wp_rules intro: wp_mono split: option.split prod.split)

lemma calm_harmless: "calm e \<Longrightarrow> \<not> disturbing e \<and> \<not> uncertain e"
  by (cases e) (auto simp: calm_def disturbing_def uncertain_def)

interpretation clear: calm_operations clear
  by unfold_locales (simp add: clear_def calm_harmless)

interpretation guarded: calm_operations guarded
  by unfold_locales (simp add: guarded_def calm_harmless)

section \<open>Single steps\<close>

lemma clear_step: "\<not> uncertain e \<Longrightarrow> clear s \<Longrightarrow> clear (s\<lparr>h_trace := e # h_trace s\<rparr>)"
  by (simp add: clear_def)

lemma clear_ask: "(\<And>a. \<not> uncertain (ev a)) \<Longrightarrow> leads clear clear (ask answer ev)"
  by (simp add: leads_def wp_rules clear_step)

lemma guarded_ask: "(\<And>a. \<not> uncertain (ev a) \<and> \<not> disturbing (ev a)) \<Longrightarrow> leads guarded guarded (ask answer ev)"
  by (simp add: leads_def wp_rules guarded_def)

lemma clear_asks:
  "leads clear clear (write_journal E name)" "leads clear clear (atomic_write E area name contents mode)"
  "leads clear clear (remove_and_sync E area name)" "leads clear clear (quick_run_now E command path wants_output deadline)"
  "leads clear clear (ask f1 Ev_Release)" "leads clear clear (ask f2 Ev_Terminate)"
  "leads clear clear (set_journal g)" "leads clear clear (set_cleanup_mode b)" "leads clear clear get_journal"
  by (simp_all add: write_journal_def leads_def wp_rules clear_def set_cleanup_mode_def uncertain_def disturbing_def)

lemma guarded_asks:
  "leads guarded guarded (write_journal E name)"
  "leads guarded guarded (ask f1 Ev_Release)" "leads guarded guarded (ask f2 Ev_Terminate)"
  "leads guarded guarded (set_journal g)" "leads guarded guarded (set_cleanup_mode b)" "leads guarded guarded get_journal"
  "leads guarded guarded (set_blocked True)"
  by (simp_all add: write_journal_def leads_def wp_rules guarded_def set_cleanup_mode_def uncertain_def disturbing_def)

lemma leads_get_blocked:
  "leads guarded guarded (f True) \<Longrightarrow> leads clear guarded (f False) \<Longrightarrow> leads guarded guarded (get_blocked \<bind> f)"
  "leads clear Q (f False) \<Longrightarrow> leads clear Q (get_blocked \<bind> f)"
  unfolding leads_def wp_rules by (metis (full_types) clear_def guarded_def)+

lemmas calm_leads =
  clear.ask_calm_events [unfolded keeps_leads] clear.phases [unfolded keeps_leads] clear.sessions [unfolded keeps_leads]
  clear.checks [unfolded keeps_leads]
  guarded.ask_calm_events [unfolded keeps_leads] guarded.phases [unfolded keeps_leads]
  guarded.sessions [unfolded keeps_leads]

lemma leads_ends: "leads clear guarded (ret a)"
  by (simp add: leads_def wp_rules clear_guarded)

section \<open>The resolver\<close>

lemma change_completed:
  assumes "\<And>s. clear s \<Longrightarrow> wp change (\<lambda>o2 s'. careful (h_trace s') \<and>
      (list_ex uncertain (h_trace s') \<longrightarrow> dc_result o2 = DNS_CHANGE_UNCERTAIN)) s"
  shows "leads clear guarded (change \<bind> complete_dns_change E name previous confirmed)"
  unfolding leads_def wp_basic
proof (intro allI impI)
  fix s assume "clear s"
  from assms [OF this] show "wp change (\<lambda>a. wp (complete_dns_change E name previous confirmed a) (\<lambda>a. guarded)) s"
    by (rule wp_mono)
      (auto simp: complete_dns_change_def write_journal_def wp_rules guarded_def uncertain_def disturbing_def)
qed

lemma change_leads:
  assumes "\<And>j s. clear s \<Longrightarrow> wp (change j) (\<lambda>o2 s'. careful (h_trace s') \<and>
      (list_ex uncertain (h_trace s') \<longrightarrow> dc_result o2 = DNS_CHANGE_UNCERTAIN)) s"
  shows "leads clear guarded (change_dns E name confirmed change)"
  unfolding change_dns_def
  by (rule leads_structure(2) clear_asks leads_structure(3) leads_ends change_completed assms | assumption)+

lemma apply_leads: "leads clear guarded (apply_dns_durably E name dns deadline)"
  unfolding apply_dns_durably_def
  by (rule leads_get_blocked leads_structure(2,3) clear_asks leads_ends change_leads |
      (simp add: wp_rules clear_def uncertain_def disturbing_def; fail))+

lemma complete_leads: "leads clear guarded (complete_dns_change E name previous confirmed o2)"
  by (auto simp: leads_def complete_dns_change_def write_journal_def wp_rules clear_def guarded_def uncertain_def
      disturbing_def)

lemma revert_leads: "leads clear guarded (revert_dns_durably E name deadline)"
  unfolding revert_dns_durably_def
  by (rule leads_get_blocked complete_leads leads_structure(2) clear_asks calm_leads leads_structure(3,5) leads_ends
        leads_structure(1) change_leads |
      (simp add: wp_rules clear_def uncertain_def disturbing_def; fail))+

section \<open>Cleanup\<close>

lemma cleanup_leads:
  "leads clear clear (finalize_runtime_entries E name config_name)"
  "leads clear clear (verify_runtime_cleanup E name config_name deadline)"
  "leads clear clear (discard_unstarted_runtime E name config_name deadline)"
  "leads clear clear (include_current_firewall_scope E deadline)"
  "leads clear clear (try_finalize_early_up_failure E name config_name run deadline result)"
  "leads clear clear (refresh_owned_interface E name)"
  "leads clear clear (teardown_owned_interface E name snapshot_path absent_state deadline)"
  unfolding verify_runtime_cleanup_def discard_unstarted_runtime_def include_current_firewall_scope_def
    try_finalize_early_up_failure_def refresh_owned_interface_def finalize_runtime_entries_def
    teardown_owned_interface_def run_down_def Let_def
  by (rule leads_get_blocked(2) leads_structure(2) clear_asks calm_leads leads_structure leads_ends)+

lemma abort_leads: "leads guarded guarded (abort_before_interface_teardown E name dns began_active failure deadline)"
  unfolding abort_before_interface_teardown_def Let_def
  by (rule leads_get_blocked apply_leads leads_structure(2) clear_asks guarded_asks calm_leads leads_structure leads_ends |
      simp only: if_True if_False simp_thms)+

lemma rollback_leads: "leads guarded guarded (rollback_activation E name config_name snapshot_path failure deadline)"
  unfolding rollback_activation_def rollback_activation_impl_def Let_def
  by (rule leads_get_blocked revert_leads abort_leads abort_leads [THEN leads_strengthen] leads_structure(2) clear_asks guarded_asks calm_leads cleanup_leads leads_structure leads_ends |
      simp only: if_True if_False simp_thms)+

section \<open>Up and down\<close>

lemma roll_back_leads: "leads guarded guarded (roll_back E ac d failure)" "leads clear guarded (roll_back E ac d failure)"
  unfolding roll_back_def by (rule rollback_leads rollback_leads [THEN leads_strengthen])+

lemma unless_stopped_leads:
  "leads guarded guarded step \<Longrightarrow> leads guarded guarded (unless_stopped E ac d step)"
  "leads clear guarded step \<Longrightarrow> leads clear guarded (unless_stopped E ac d step)"
  unfolding unless_stopped_def by (rule leads_structure(2,3) calm_leads roll_back_leads | assumption)+

lemma confirm_leads: "leads guarded guarded (confirm_activation E ac d)"
  unfolding confirm_activation_def
  by (rule roll_back_leads unless_stopped_leads leads_structure(2) guarded_asks calm_leads leads_structure)+

lemma adopt_leads: "leads clear guarded (adopt_interface E ac d)"
  unfolding adopt_interface_def activate_dns_def
  by (rule roll_back_leads unless_stopped_leads confirm_leads apply_leads leads_structure(2) cleanup_leads calm_leads leads_structure)+

lemma run_up_leads: "leads clear guarded (run_up E ac d)"
  unfolding run_up_def Let_def
  by (rule roll_back_leads adopt_leads leads_structure(2) clear_asks cleanup_leads calm_leads leads_structure leads_ends)+

lemma finish_leads: "leads guarded guarded (finish_activation E ac d started outcome)"
  unfolding finish_activation_def
  by (rule roll_back_leads leads_structure(2) guarded_asks calm_leads leads_structure)+

lemma start_leads:
  "leads clear guarded
     (if b then discard_unstarted_runtime E name config_name deadline \<bind> (\<lambda>cleanup. ret (g cleanup)) else run_up E ac d)"
  by (rule run_up_leads leads_structure(2,3) cleanup_leads leads_ends)+

lemma entries_leads: "leads clear clear (write_runtime_entries E ac dns_name)"
  unfolding write_runtime_entries_def by (rule leads_structure(2) clear_asks leads_structure)+

lemma activate_leads: "leads clear guarded (tunnel_activate E ac d)"
  unfolding tunnel_activate_def Let_def
  by (rule start_leads finish_leads leads_structure(2) clear_asks entries_leads calm_leads leads_structure(3,4,5) leads_ends
        leads_structure(1))+

lemma down_interface_leads: "leads clear clear (down_interface E name config_name snapshot_path d)"
  unfolding down_interface_def by (rule leads_structure(2) cleanup_leads calm_leads leads_structure)+

lemma down_failure_leads:
  "leads guarded guarded ((if b then phase_failure_or E deadline r else ret r2) \<bind> (\<lambda>failure. ret (True, failure)))"
  "leads clear guarded ((if b then phase_failure_or E deadline r else ret r2) \<bind> (\<lambda>failure. ret (True, failure)))"
  by (rule leads_structure(2,3) calm_leads leads_ends leads_structure(1))+

lemma down_session_leads: "leads clear guarded (down_session E name config_name snapshot_path d)"
  unfolding down_session_def
  by (rule down_failure_leads revert_leads leads_weaken [OF down_interface_leads] leads_get_blocked
        leads_structure(2) clear_asks cleanup_leads calm_leads leads_ends leads_structure |
      simp only: if_True if_False simp_thms)+

lemma down_recoverable_leads: "leads clear guarded (down_recoverable E name config_name snapshot_path d interface)"
  unfolding down_recoverable_def Let_def
  by (rule down_session_leads abort_leads leads_structure(2) clear_asks guarded_asks cleanup_leads calm_leads leads_ends
        leads_structure)+

lemma blocking_leads: "leads clear guarded (set_blocked True)"
  by (rule leads_strengthen) (rule guarded_asks)

lemma down_leads: "leads clear guarded (tunnel_down E name config_name snapshot_path d)"
  unfolding tunnel_down_def
  by (rule down_recoverable_leads blocking_leads leads_weaken [OF cleanup_leads(1)] leads_weaken [OF cleanup_leads(2)]
        leads_structure(2) clear_asks guarded_asks calm_leads leads_ends leads_structure)+

section \<open>Switching and removing\<close>

definition resting :: "bool \<Rightarrow> helper \<Rightarrow> bool" where
  "resting b s \<longleftrightarrow> careful (h_trace s) \<and> \<not> list_ex uncertain (h_trace s) \<and> h_blocked s = b"

interpretation resting: calm_operations "resting b" for b
  by unfold_locales (simp add: resting_def calm_harmless)

lemma clear_resting: "clear = resting False"
  by (simp add: fun_eq_iff clear_def resting_def)

text \<open>A step that may end badly, but then carefully.\<close>

abbreviation attempts :: "bool \<Rightarrow> helper_exit helper_op \<Rightarrow> helper \<Rightarrow> bool" where
  "attempts b m \<equiv> wp m (\<lambda>r s'. careful (h_trace s') \<and> (r = HELPER_SUCCESS \<longrightarrow> resting b s'))"

lemma wp_conj: "wp m Q s \<Longrightarrow> wp m R s \<Longrightarrow> wp m (\<lambda>a s'. Q a s' \<and> R a s') s"
  by (simp add: wp_def)

lemma keeps_wp: "keeps I m \<Longrightarrow> I s \<Longrightarrow> (\<And>a s'. I s' \<Longrightarrow> wp (f a) Q s') \<Longrightarrow> wp (m \<bind> f) Q s"
  by (simp add: keeps_def wp_def split: prod.split) (metis fst_conv snd_conv)

lemma resting_careful: "resting b s \<Longrightarrow> careful (h_trace s)"
  by (simp add: resting_def)

lemma tunnel_down_attempts:
  assumes "resting b s"
  shows "attempts b (with_new_tunnel (tunnel_down E name config_name snapshot_path d)) s"
proof -
  let ?down = "tunnel_down E name config_name snapshot_path d" and ?s = "s\<lparr>h_blocked := False\<rparr>"
  have "clear ?s" using assms by (simp add: clear_def resting_def)
  then have "wp ?down (\<lambda>r s'. guarded s' \<and> (r = HELPER_SUCCESS \<longrightarrow> session_gone name False s')) ?s"
    using down_leads down_ends [of E name config_name snapshot_path d ?s] by (intro wp_conj) (simp_all add: leads_def)
  then have "wp ?down (\<lambda>r s'. careful (h_trace s') \<and> (r = HELPER_SUCCESS \<longrightarrow> \<not> list_ex uncertain (h_trace s'))) ?s"
    by (rule wp_mono) (auto simp: guarded_def session_gone_def)
  then show ?thesis
    unfolding with_new_tunnel_def wp_rules using assms by (auto simp: resting_def wp_rules elim!: wp_mono)
qed

lemma attempts_ret: "resting b s \<Longrightarrow> attempts b (ret r) s"
  by (simp add: wp_basic resting_careful)

lemma attempts_then:
  "attempts b m s \<Longrightarrow> (\<And>s'. resting b s' \<Longrightarrow> attempts b g s') \<Longrightarrow>
   attempts b (m \<bind> (\<lambda>r. if r \<noteq> HELPER_SUCCESS then ret r else g)) s"
  unfolding wp_basic by (erule wp_mono) (auto simp: wp_basic)

lemma keeps_attempts: "keeps (resting b) m \<Longrightarrow> resting b s \<Longrightarrow> attempts b m s"
  by (auto simp: keeps_def wp_def resting_careful)

lemma disconnect_attempts: "resting b s \<Longrightarrow> attempts b (disconnect_previous E name d) s"
  unfolding disconnect_previous_def
  by (auto simp: attempts_ret intro!: keeps_attempts [OF resting.phases(1)] tunnel_down_attempts attempts_then
      keeps_attempts [OF keeps_bind [OF resting.sessions(2)]] keeps_prod keeps_ret split: option.split)

lemma all_succeed_attempts:
  "(\<And>x s. resting b s \<Longrightarrow> attempts b (f x) s) \<Longrightarrow> resting b s \<Longrightarrow> attempts b (all_succeed f xs) s"
  by (induction xs arbitrary: s) (auto intro!: attempts_ret attempts_then)

lemma careful_ret: "resting b s \<Longrightarrow> wp (ret r) (\<lambda>a s'. careful (h_trace s')) s"
  by (simp add: wp_basic resting_careful)

lemma activate_careful: "resting False s \<Longrightarrow> wp (tunnel_activate E ac d) (\<lambda>r s'. careful (h_trace s')) s"
  using activate_leads [of E ac d] by (auto simp: leads_def clear_resting guarded_def elim!: wp_mono)

lemma switch_admitted_careful:
  assumes "resting False s"
  shows "wp (switch_admitted E ac previous d) (\<lambda>r s'. careful (h_trace s')) s"
  unfolding switch_admitted_def
proof (rule wp_bindI [OF all_succeed_attempts [OF disconnect_attempts assms]], assumption)
  fix r s' assume "careful (h_trace s') \<and> (r = HELPER_SUCCESS \<longrightarrow> resting False s')"
  then show "wp (if r \<noteq> HELPER_SUCCESS then ret (previous_session_failure r) else do {
      (listed, remaining) \<leftarrow> list_runtime_names E (forward_at d);
      if listed \<noteq> HELPER_SUCCESS then ret (previous_session_failure listed)
      else if remaining \<noteq> [] then ret (previous_session_failure HELPER_RUNTIME_FAILED)
      else do {
        stop \<leftarrow> phase_stop_status E (forward_at d);
        if stop \<noteq> HELPER_SUCCESS then ret stop
        else do {
          (activated, _) \<leftarrow> tunnel_activate E ac d;
          ret activated
        }
      }
    }) (\<lambda>r s'. careful (h_trace s')) s'"
    by (auto simp: wp_basic resting_careful [where b = False] intro!: wp_mono [OF activate_careful]
        keeps_wp [OF resting.checks(3) [of False], unfolded wp_basic]
        keeps_wp [OF resting.phases(1) [of False], unfolded wp_basic])
qed

lemma delete_attempts: "resting b s \<Longrightarrow> attempts b (profiles_delete E name config_name deadline) s"
  unfolding profiles_delete_def
  by (rule keeps_attempts; (intro keep_rules resting.ask_calm_events resting.sessions resting.phases)?)
    (auto simp: keeps_def resting_def ask_def Let_def disturbing_def uncertain_def)

lemma switch_careful:
  assumes "resting b s"
  shows "wp (switch_up E fuel name d) (\<lambda>r s'. careful (h_trace s')) s"
  unfolding switch_up_def
proof (rule wp_branches(1), rule careful_ret [OF assms], rule keeps_wp [OF resting.checks(3) assms])
  fix l :: "helper_exit \<times> string list" and s assume s: "resting b s"
  have clear: "resting False (s\<lparr>h_blocked := False\<rparr>)" using s by (simp add: resting_def)
  show "wp (case l of (listed, previous) \<Rightarrow>
      if listed \<noteq> HELPER_SUCCESS then ret (Some (previous_session_failure listed))
      else do {
        set_blocked False;
        prepared \<leftarrow> tunnel_prepare_up E fuel name (forward_at d);
        case prepared of
          None \<Rightarrow> ret None
        | Some (result, None) \<Rightarrow> ret (Some result)
        | Some (result, Some ac) \<Rightarrow> do {
            admitted \<leftarrow> all_succeed (\<lambda>p. tunnel_check_down E p (forward_at d)) previous;
            if admitted \<noteq> HELPER_SUCCESS then ret (Some (previous_session_failure admitted))
            else do {
              final \<leftarrow> switch_admitted E ac previous d;
              ret (Some final)
            }
          }
      }) (\<lambda>r s'. careful (h_trace s')) s"
    using clear resting_careful [OF s]
    by (auto simp: wp_basic wp_sets resting_careful [where b = False] split: prod.split option.split
      intro!: keeps_wp [OF resting.preparation(2) [of False], unfolded wp_basic] wp_mono [OF switch_admitted_careful]
        keeps_wp [OF resting.all_succeed_keeps [OF resting.checks(2) [of False]], unfolded wp_basic])
qed

lemma remove_attempts: "resting b s \<Longrightarrow> attempts b (helper_remove E name d) s"
  unfolding helper_remove_def
  by (auto simp: attempts_ret intro!: keeps_attempts [OF resting.phases(1)] tunnel_down_attempts attempts_then delete_attempts
      keeps_wp [OF resting.ask_calm_events(4)] split: option.split)

lemma resting_fresh: "resting (h_blocked s) (s\<lparr>h_trace := []\<rparr>)"
  by (simp add: resting_def)


end
