(* ===== verification/Helper_Policy.thy ===== *)
theory Helper_Policy
  imports Prelude
begin

text \<open>
  \<open>helper/amneziawg_policy.c\<close>: the service refuses to work unless polkit's registered actions protect
  it. What polkit knows of an action is a record: its identifier, its annotations, and for each of
  the three kinds of sessions whether nobody is authorized without an agent. The asynchronous
  enumeration is polkit's; its result, or an error, is given. The path of the installed helper is set by
  the build, and so is an argument.
\<close>

section \<open>Data\<close>

definition amneziawg_action_id :: string where
  "amneziawg_action_id = ''dev.relz.NmSidebar'' @ ''.manage-amneziawg''"

definition exec_path_annotation :: string where
  "exec_path_annotation = ''org.freedesktop.policykit.exec.path''"
definition exec_argv1_annotation :: string where
  "exec_argv1_annotation = ''org.freedesktop.policykit.exec.argv1''"
definition imply_annotation :: string where
  "imply_annotation = ''org.freedesktop.policykit.imply''"

record action_description =
  ad_action_id :: "string option"
  ad_annotation :: "string \<Rightarrow> string option"
  ad_any_forbidden :: bool
  ad_inactive_forbidden :: bool
  ad_active_forbidden :: bool

section \<open>The check\<close>

text \<open>\<open>g_strsplit_set\<close>: every byte of the set separates two pieces; the empty string has none.\<close>

fun split_at :: "('a \<Rightarrow> bool) \<Rightarrow> 'a list \<Rightarrow> 'a list list" where
  "split_at P [] = [[]]"
| "split_at P (c # cs) =
     (if P c then [] # split_at P cs
      else (case split_at P cs of [] \<Rightarrow> [[c]] | w # ws \<Rightarrow> (c # w) # ws))"

definition g_strsplit_set :: "string \<Rightarrow> string \<Rightarrow> string list" where
  "g_strsplit_set s delimiters = (if s = [] then [] else split_at (\<lambda>c. c \<in> set delimiters) s)"

definition implied_delimiters :: string where
  "implied_delimiters = [CHR '' '', TAB, CHR 0x0D, LF]"

definition action_id_is_amneziawg :: "string option \<Rightarrow> bool" where
  "action_id_is_amneziawg action_id \<longleftrightarrow> action_id = Some amneziawg_action_id"

definition action_implies_amneziawg :: "action_description \<Rightarrow> bool" where
  "action_implies_amneziawg d \<longleftrightarrow>
     (case ad_annotation d imply_annotation of
        None \<Rightarrow> False
      | Some annotation \<Rightarrow>
          (\<exists>implied \<in> set (g_strsplit_set annotation implied_delimiters). action_id_is_amneziawg (Some implied)))"

text \<open>One turn of the loop, on whether the action was found and whether all is safe so far.\<close>

definition check_description :: "string \<Rightarrow> action_description \<Rightarrow> bool \<times> bool \<Rightarrow> bool \<times> bool" where
  "check_description helper d = (\<lambda>(manage_found, safe).
     let exec_path = ad_annotation d exec_path_annotation;
         exec_argv1 = ad_annotation d exec_argv1_annotation;
         safe1 = (if action_implies_amneziawg d then False else safe)
     in if \<not> action_id_is_amneziawg (ad_action_id d) then
          (manage_found,
           if exec_path = Some helper \<or> exec_argv1 = Some helper then False else safe1)
        else
          let safe2 = (if manage_found then False else safe1)
          in (True,
              if exec_path \<noteq> None \<or> exec_argv1 \<noteq> None \<or> \<not> ad_any_forbidden d \<or> \<not> ad_inactive_forbidden d \<or>
                 \<not> ad_active_forbidden d
              then False else safe2))"

definition policy_descriptions_are_safe :: "string \<Rightarrow> action_description list \<Rightarrow> bool" where
  "policy_descriptions_are_safe helper descriptions =
     (let (manage_found, safe) = fold (check_description helper) descriptions (False, True) in manage_found \<and> safe)"

text \<open>The result of the check: an error of the enumeration, or whether the policy is safe.\<close>

definition policy_enumerated :: "string \<Rightarrow> 'e + action_description list \<Rightarrow> 'e + bool" where
  "policy_enumerated helper result =
     (case result of Inl error \<Rightarrow> Inl error | Inr descriptions \<Rightarrow> Inr (policy_descriptions_are_safe helper descriptions))"

section \<open>What a safe policy is\<close>

lemma split_at_not_Nil [simp]: "split_at P s \<noteq> []"
  by (induction P s rule: split_at.induct) (auto split: list.split)

text \<open>A word between delimiters.\<close>

definition word_of :: "('a \<Rightarrow> bool) \<Rightarrow> 'a list \<Rightarrow> 'a list \<Rightarrow> bool" where
  "word_of P w s \<longleftrightarrow>
     (\<exists>before after. s = before @ w @ after \<and> (\<forall>c \<in> set w. \<not> P c) \<and> (before = [] \<or> P (last before)) \<and>
        (after = [] \<or> P (hd after)))"

lemma split_at_word: "(\<forall>c \<in> set w. \<not> P c) \<Longrightarrow> split_at P w = [w]"
  by (induction w) auto

lemma split_at_append: "(\<forall>c \<in> set w. \<not> P c) \<Longrightarrow> P x \<Longrightarrow> split_at P (w @ x # t) = w # split_at P t"
  by (induction w) auto

lemma word_of_whole: "(\<forall>c \<in> set s. \<not> P c) \<Longrightarrow> word_of P w s \<longleftrightarrow> w = s"
proof
  assume free: "\<forall>c \<in> set s. \<not> P c" and "word_of P w s"
  then obtain before after where s: "s = before @ w @ after" "before = [] \<or> P (last before)" "after = [] \<or> P (hd after)"
    by (auto simp: word_of_def)
  then have "before = []" "after = []" using free by (metis Un_iff last_in_set set_append, metis Un_iff list.set_sel(1) set_append)
  then show "w = s" using s by simp
next
  assume free: "\<forall>c \<in> set s. \<not> P c" and "w = s"
  then show "word_of P w s" unfolding word_of_def by (intro exI [of _ "[]"]) simp
qed

lemma word_of_append:
  assumes free: "\<forall>c \<in> set v. \<not> P c" and x: "P x"
  shows "word_of P w (v @ x # t) \<longleftrightarrow> w = v \<or> word_of P w t"
proof
  assume "word_of P w (v @ x # t)"
  then obtain before after where s: "v @ x # t = before @ w @ after" "\<forall>c \<in> set w. \<not> P c"
      "before = [] \<or> P (last before)" "after = [] \<or> P (hd after)"
    by (auto simp: word_of_def)
  show "w = v \<or> word_of P w t"
  proof (cases "before = []")
    case True
    with s x have "after \<noteq> []" by (metis append_Nil append_Nil2 in_set_conv_decomp)
    then obtain y r where "after = y # r" "P y" using s(4) by (cases after) auto
    then have "takeWhile (\<lambda>c. \<not> P c) (v @ x # t) = w" using s True by (simp add: takeWhile_append2)
    moreover have "takeWhile (\<lambda>c. \<not> P c) (v @ x # t) = v" using free x by (simp add: takeWhile_append2)
    ultimately show ?thesis by simp
  next
    case False
    then obtain b y where b: "before = b @ [y]" "P y" using s(3) by (metis append_butlast_last_id)
    then obtain u where "v @ [x] @ u = before" "t = u @ w @ after"
      using s(1) free by (auto simp: append_eq_append_conv2 append_eq_Cons_conv Cons_eq_append_conv)
    then have "t = u @ w @ after" "u = [] \<or> P (last u)" using b
      by (simp, metis append.assoc append_Cons append_Nil last_ConsR last_appendR last_snoc list.distinct(1))
    then show ?thesis using s unfolding word_of_def by blast
  qed
next
  assume "w = v \<or> word_of P w t"
  then show "word_of P w (v @ x # t)"
  proof
    assume "w = v"
    then show ?thesis using assms unfolding word_of_def by (intro exI [of _ "[]"] exI [of _ "x # t"]) simp
  next
    assume "word_of P w t"
    then obtain before after where "t = before @ w @ after" "\<forall>c \<in> set w. \<not> P c" "before = [] \<or> P (last before)"
        "after = [] \<or> P (hd after)"
      by (auto simp: word_of_def)
    then show ?thesis using x unfolding word_of_def by (intro exI [of _ "v @ x # before"] exI [of _ after]) auto
  qed
qed

lemma split_at_words: "w \<in> set (split_at P s) \<longleftrightarrow> word_of P w s"
proof (induction "length s" arbitrary: s rule: less_induct)
  case less
  show ?case
  proof (cases "dropWhile (\<lambda>c. \<not> P c) s")
    case Nil
    then have "\<forall>c \<in> set s. \<not> P c" by (simp add: dropWhile_eq_Nil_conv)
    then show ?thesis by (simp add: split_at_word word_of_whole)
  next
    case (Cons x t)
    obtain v where s: "s = v @ x # t" and v: "\<forall>c \<in> set v. \<not> P c"
      using takeWhile_dropWhile_id [of "\<lambda>c. \<not> P c" s, unfolded Cons] set_takeWhileD [of _ "\<lambda>c. \<not> P c" s] by metis
    have x: "P x" using Cons hd_dropWhile [of "\<lambda>c. \<not> P c" s] by simp
    have "w \<in> set (split_at P t) \<longleftrightarrow> word_of P w t" by (rule less) (simp add: s)
    then show ?thesis unfolding s split_at_append [OF v x] word_of_append [OF v x] by simp
  qed
qed

text \<open>The action of the service; what keeps others from being authorized through it; what is not its concern.\<close>

definition manages :: "action_description \<Rightarrow> bool" where
  "manages d \<longleftrightarrow> ad_action_id d = Some amneziawg_action_id"

definition locked :: "action_description \<Rightarrow> bool" where
  "locked d \<longleftrightarrow> ad_annotation d exec_path_annotation = None \<and> ad_annotation d exec_argv1_annotation = None \<and>
     ad_any_forbidden d \<and> ad_inactive_forbidden d \<and> ad_active_forbidden d"

definition unrelated :: "string \<Rightarrow> action_description \<Rightarrow> bool" where
  "unrelated helper d \<longleftrightarrow> \<not> manages d \<and> ad_annotation d exec_path_annotation \<noteq> Some helper \<and>
     ad_annotation d exec_argv1_annotation \<noteq> Some helper"

definition implies_management :: "action_description \<Rightarrow> bool" where
  "implies_management d \<longleftrightarrow>
     (\<exists>annotation. ad_annotation d imply_annotation = Some annotation \<and>
        word_of (\<lambda>c. c \<in> set implied_delimiters) amneziawg_action_id annotation)"

lemma implies_iff: "action_implies_amneziawg d \<longleftrightarrow> implies_management d"
proof -
  have "amneziawg_action_id \<in> set (g_strsplit_set a implied_delimiters) \<longleftrightarrow>
      word_of (\<lambda>c. c \<in> set implied_delimiters) amneziawg_action_id a" for a
    using word_of_whole [of "[]" "\<lambda>c. c \<in> set implied_delimiters" amneziawg_action_id]
    by (cases "a = []") (simp_all add: g_strsplit_set_def split_at_words amneziawg_action_id_def)
  then show ?thesis
    by (auto simp: action_implies_amneziawg_def implies_management_def action_id_is_amneziawg_def split: option.split)
qed

lemma check_step:
  "check_description helper d (f, s) =
     (f \<or> manages d, s \<and> \<not> implies_management d \<and> (if manages d then locked d \<and> \<not> f else unrelated helper d))"
  by (auto simp: check_description_def Let_def implies_iff action_id_is_amneziawg_def manages_def locked_def
      unrelated_def)

lemma fold_found: "fst (fold (check_description helper) ds (f, s)) \<longleftrightarrow> f \<or> filter manages ds \<noteq> []"
  by (induction ds arbitrary: f s) (auto simp: check_step)

lemma fold_safe:
  "snd (fold (check_description helper) ds (f, s)) \<longleftrightarrow>
     s \<and> (\<forall>d \<in> set ds. \<not> implies_management d \<and> (if manages d then locked d else unrelated helper d)) \<and>
     (if f then filter manages ds = [] else length (filter manages ds) \<le> 1)"
proof (induction ds arbitrary: f s)
  case (Cons d ds)
  then show ?case by (cases "manages d"; cases f) (auto simp: check_step)
qed simp

lemma one_filtered:
  "length (filter P xs) = 1 \<longleftrightarrow> (\<exists>before x after. xs = before @ x # after \<and> P x \<and> filter P (before @ after) = [])"
proof
  assume "length (filter P xs) = 1"
  then obtain x where "filter P xs = [x]" by (auto simp: length_Suc_conv)
  then obtain us vs where "xs = us @ x # vs" "\<forall>u \<in> set us. \<not> P u" "P x" "filter P vs = []"
    by (auto simp: filter_eq_Cons_iff)
  then show "\<exists>before x after. xs = before @ x # after \<and> P x \<and> filter P (before @ after) = []"
    by (intro exI [of _ us] exI [of _ x] exI [of _ vs]) simp
qed auto

text \<open>
  C32. The policy is safe exactly if polkit knows the action of the service once, and this action is
  locked: it names no program, and nobody is authorized for it implicitly, in no kind of session; no
  other action runs the installed helper, as its program or as the first argument of one; and no
  action implies the action of the service, in any spelling of a list of actions.
\<close>

theorem policy_is_safe_iff:
  "policy_descriptions_are_safe helper ds =
     (\<exists>before d after. ds = before @ d # after \<and> manages d \<and> locked d \<and> list_all (unrelated helper) (before @ after) \<and>
        list_all (\<lambda>x. \<not> implies_management x) ds)"
proof -
  have "policy_descriptions_are_safe helper ds \<longleftrightarrow>
      (\<forall>d \<in> set ds. \<not> implies_management d \<and> (if manages d then locked d else unrelated helper d)) \<and>
      length (filter manages ds) = 1"
    using fold_found [of helper ds False True] fold_safe [of helper ds False True]
    by (auto simp: policy_descriptions_are_safe_def split_beta le_Suc_eq)
  also have "\<dots> \<longleftrightarrow> (\<exists>before d after. ds = before @ d # after \<and> manages d \<and> locked d \<and>
      list_all (unrelated helper) (before @ after) \<and> list_all (\<lambda>x. \<not> implies_management x) ds)"
    (is "?l \<longleftrightarrow> ?r")
  proof
    assume ?l
    then obtain before d after where "ds = before @ d # after" "manages d" "filter manages (before @ after) = []"
      unfolding one_filtered by blast
    with \<open>?l\<close> show ?r
      by (intro exI [of _ before] exI [of _ d] exI [of _ after])
        (fastforce simp: list_all_iff filter_empty_conv split: if_splits)
  next
    assume ?r
    then show ?l unfolding one_filtered by (fastforce simp: list_all_iff filter_empty_conv unrelated_def)
  qed
  finally show ?thesis .
qed

end
