(* ===== verification/Spec2Isabelle.thy ===== *)
theory Spec2Isabelle
  imports Names Deadline Dns_Config Config Runtime_Journal Profile_Report Admission Profile_Model Inventory
    Link_Guard Runtime_Scan Runtime_Contract Client Helper_Resolver Helper_Policy
begin

text \<open>
  A verification library for the AmneziaWG subsystem of \<open>network-manager-sidebar\<close>: the client that
  runs in the sidebar (\<open>src/amneziawg/\<close>) and the operations of the privileged helper
  (\<open>src/helper/\<close>). Paths below are relative to \<open>src/\<close> of the repository.

  \<^bold>\<open>The program.\<close> The sidebar shows the saved AmneziaWG profiles and the sessions that are up, and lets
  the user import, delete, bring up and take down profiles. Nothing of this may be done by the
  sidebar itself: its backend asks polkit for an authorization and sends each operation over D-Bus to
  a service, which starts a helper as root. The helper checks profiles, keeps one journal per session
  in \<open>/run\<close>, runs \<open>awg-quick\<close> and changes the resolver. The sidebar learns of sessions by reading the
  journals and the kernel's links, and of profiles from the helper's report.

  \<^bold>\<open>Vocabulary and formats.\<close> \<open>Prelude\<close> fixes the data of C and GLib: a byte is a \<open>char\<close>, a buffer or a
  string a list of them, a \<open>NULL\<close> that the code uses is \<open>None\<close>, flags are words. \<open>Names\<close> is
  \<open>amneziawg/amneziawg.h\<close> and \<open>.c\<close>, \<open>Deadline\<close> is \<open>deadline.c\<close>. The three formats that processes exchange
  are \<open>Dns_Config\<close> (\<open>dns_config.c\<close>), \<open>Runtime_Journal\<close> (\<open>runtime_journal.c\<close>) and \<open>Profile_Report\<close>
  (\<open>profile_report.c\<close>); each interprets the locales of \<open>Codec\<close>, so that a writer and a reader are
  proved to be inverse to each other once. \<open>Config\<close> is \<open>config.c\<close>: a profile is scanned line by line,
  and the theorems say that what passes has no command hooks and that the snapshot built from it is
  again an acceptable configuration.

  \<^bold>\<open>The client.\<close> \<open>Admission\<close> (\<open>admission.c\<close>) is the policy of the actions. \<open>Profile_Model\<close>
  (\<open>model.c\<close>) holds the profiles and the rows; it interprets the locale of \<open>Named_Store\<close>, from which
  its refinement of a finite map follows. \<open>Inventory\<close> (\<open>inventory.c\<close>) decides when the list of
  profiles is asked for. \<open>Link_Identity\<close> and \<open>Link_Guard\<close> (\<open>link_identity.c\<close>) read the kernel's links,
  \<open>Runtime_Records\<close>, \<open>Runtime_Scan\<close> and \<open>Runtime_Source\<close> (\<open>runtime_source.c\<close>) the sessions.
  \<open>Controller\<close> (\<open>controller.c\<close>, \<open>controller_internal.h\<close>) runs the activities of the user, and
  \<open>Backend\<close> (\<open>backend.c\<close>) the authorization and the calls. Each state is an extensible record that
  extends the one below (inventory, runtime source, controller, backend), and what a component calls
  outside itself is a record of functions of the whole state. The contracts \<open>Runtime_Contract\<close>,
  \<open>Inventory_Frame\<close>, \<open>Controller_Contract\<close>, \<open>Controller_Frame\<close> and \<open>Backend_Contract\<close> state what every
  operation keeps for all such functions that keep it; \<open>System\<close> and \<open>Wiring\<close> then tie the real
  functions together, and \<open>Client\<close> states what holds of every history of the whole client: that an
  authorization is not used after it was lost, that no call and no refresh is lost, that a late answer
  changes nothing, and that an action is sent only while everything it needs holds.

  \<^bold>\<open>The helper.\<close> \<open>Helper_World\<close> has the state of an operation and the environment: the storage, the
  kernel, the resolver, the firewall, the tool and the clock answer as they like, from the history of
  all that was asked and answered before. \<open>Quick_Diagnostics\<close> (\<open>helper/amneziawg_quick_diagnostics.c\<close>,
  \<open>amneziawg_helper_quick.c\<close>) reads the output of the tool, \<open>Link_Claim\<close> (\<open>amneziawg_quick_config.c\<close>)
  marks the link, \<open>Helper_Profiles\<close> (\<open>amneziawg_helper_profiles.c\<close>), \<open>Helper_Tunnel\<close>
  (\<open>amneziawg_helper_tunnel.c\<close>) and \<open>Helper_Switch\<close> (\<open>amneziawg_helper_switch.c\<close>,
  \<open>amneziawg_helper_remove.c\<close>) are the operations, with every branch that ends in an error.
  \<open>Helper_Logic\<close> proves that they write the journal ahead of what they do and that a switch which is
  refused does nothing, \<open>Helper_Outcomes\<close> what a reported success means, and \<open>Helper_Resolver\<close> that
  everything is left alone once a change of the resolver is uncertain. The locale \<open>calm_operations\<close>
  carries the steps that only ask, for every invariant that such steps keep; it is interpreted for
  each of them. \<open>Helper_Policy\<close> (\<open>amneziawg_policy.c\<close>) is the check of polkit's actions with which the
  service protects all of this.

  \<^bold>\<open>Loops and bounds.\<close> A loop over data is structural recursion or has a measure. A loop that ends only
  when the clock, a peer or the kernel ends it is a \<open>partial_function\<close> in the option monad, and that it
  returns is a theorem under the named hypothesis that makes it so (\<open>clock_advances\<close>,
  \<open>reads_settle\<close>). Two loops of the helper have fuel instead, because they occur inside computations
  of the state monad: the reading of random bytes, which a signal may interrupt for ever, and the
  listing of the profiles; a run that has too little fuel is \<open>None\<close>, and the theorems hold for every
  amount. The client's callbacks are nested to a depth, \<open>n\<close> in \<open>client_controller\<close>: a callback within
  \<open>n\<close> callbacks does nothing. The properties of \<open>Client\<close> hold for every depth. Integers keep their
  width where the code depends on it: overflow tests in \<open>Deadline\<close> and \<open>Dns_Config\<close>, saturating
  counters, flags.

  \<^bold>\<open>Parameters.\<close> What is not in the repository is an argument: \<open>inet_pton\<close>, \<open>g_utf8_validate\<close>,
  \<open>g_path_get_basename\<close>, the file system, sockets, processes, polkit and the message bus. Nothing is
  assumed of them beyond the hypotheses in the theorems.

  \<^bold>\<open>Not modelled.\<close> Memory management, reference counts and the wiping of secrets have no counterpart
  in HOL. The helper's system calls (the other operations of \<open>amneziawg_helper_storage.c\<close>, and
  \<open>amneziawg_dns.c\<close>, \<open>amneziawg_firewall.c\<close>, \<open>amneziawg_process.c\<close>, \<open>amneziawg_subprocess.c\<close>,
  \<open>amneziawg_supervisor.c\<close>, \<open>amneziawg_helper_runner.c\<close>, \<open>amneziawg_service.c\<close>, \<open>amneziawg_tool.c\<close>) are the
  environment of the operations that are modelled; they consist of calls whose meaning is the
  kernel's, polkit's or the bus's. The command line, the sockets of \<open>core/\<close>, the calls of libnm in
  \<open>data/\<close> and \<open>actions/\<close>, and the GTK widgets of \<open>gui/\<close> and \<open>sections/\<close> are left out: they pass data on
  to toolkits and keep hardly any state of their own.
\<close>

end
